theory Spec2Isabelle
  imports Complex_Main
begin

section \<open>Numbers\<close>

text \<open>
  The framing engine (\<^verbatim>\<open>src/src/services/ffmpeg.ts\<close>, the part that is
  \<^verbatim>\<open>framingService.ts\<close>) computes with JavaScript numbers. They are modelled as
  exact reals: no NaN, no infinities, no rounding of the arithmetic itself. The source
  dimensions \<^verbatim>\<open>baseW\<close>, \<^verbatim>\<open>baseH\<close> come from the video probe and are pixel counts;
  they are integers here.

  \<^verbatim>\<open>Math.round\<close> rounds half up, \<^verbatim>\<open>Math.floor\<close> rounds down.
\<close>

definition Math_round :: "real \<Rightarrow> real" where
  "Math_round r = of_int \<lfloor>r + 1 / 2\<rfloor>"

definition Math_floor :: "real \<Rightarrow> real" where
  "Math_floor r = of_int \<lfloor>r\<rfloor>"

definition Math_sign :: "real \<Rightarrow> real" where
  "Math_sign r = (if r > 0 then 1 else if r < 0 then - 1 else 0)"

text \<open>\<^verbatim>\<open>function clamp(value, min, max)\<close>: the lower bound is tested first.\<close>

definition clamp :: "real \<Rightarrow> real \<Rightarrow> real \<Rightarrow> real" where
  "clamp v mn mx = (if v < mn then mn else if v > mx then mx else v)"

text \<open>\<^verbatim>\<open>function stepToward(current, target, maxDelta)\<close>.\<close>

definition stepToward :: "real \<Rightarrow> real \<Rightarrow> real \<Rightarrow> real" where
  "stepToward current target maxDelta =
     (if \<bar>target - current\<bar> \<le> maxDelta then target
      else if target > current then current + maxDelta else current - maxDelta)"

text \<open>
  Reading an array at an index: JavaScript yields \<^verbatim>\<open>undefined\<close> outside the array,
  which is \<open>None\<close> here.
\<close>

definition js_nth :: "'a list \<Rightarrow> int \<Rightarrow> 'a option" where
  "js_nth xs i = (if 0 \<le> i \<and> i < int (length xs) then Some (xs ! nat i) else None)"

section \<open>Keyframes\<close>

text \<open>\<^verbatim>\<open>type CropKF = { t, x, y, w, h, z, xs, ys }\<close>.\<close>

record CropKF =
  kf_t :: real
  kf_x :: real
  kf_y :: real
  kf_w :: real
  kf_h :: real
  kf_z :: real
  kf_xs :: real
  kf_ys :: real

subsection \<open>\<^verbatim>\<open>dedupeByTime\<close>\<close>

text \<open>
  The loop of \<^verbatim>\<open>dedupeByTime\<close> after the first keyframe has been pushed: \<open>lst\<close> is
  \<^verbatim>\<open>out[out.length - 1]\<close>.
\<close>

fun dedupeLoop :: "real \<Rightarrow> CropKF \<Rightarrow> CropKF list \<Rightarrow> CropKF list" where
  "dedupeLoop minDelta lst [] = []"
| "dedupeLoop minDelta lst (k # ks) =
     (if kf_t k - kf_t lst \<ge> minDelta then k # dedupeLoop minDelta k ks
      else dedupeLoop minDelta lst ks)"

definition dedupeByTime :: "CropKF list \<Rightarrow> real \<Rightarrow> CropKF list" where
  "dedupeByTime kf minDelta =
     (case kf of [] \<Rightarrow> [] | k # ks \<Rightarrow> k # dedupeLoop minDelta k ks)"

subsection \<open>\<^verbatim>\<open>compressCropMap\<close>\<close>

text \<open>
  The filtering loop of the branch \<^verbatim>\<open>kf.length <= maxKeyframes\<close>, over the keyframes
  strictly between the first and the last; \<open>prev\<close> is the last keyframe kept so far.
\<close>

fun filterNear :: "CropKF \<Rightarrow> CropKF list \<Rightarrow> CropKF list" where
  "filterNear prev [] = []"
| "filterNear prev (cur # rest) =
     (if kf_t cur - kf_t prev < 0.15 then filterNear prev rest
      else if sqrt ((kf_x cur - kf_x prev)\<^sup>2 + (kf_y cur - kf_y prev)\<^sup>2) < 1
              \<and> \<bar>kf_z cur - kf_z prev\<bar> < 0.005 then filterNear prev rest
      else cur # filterNear cur rest)"

text \<open>
  The decimation branch pushes \<^verbatim>\<open>kf[Math.round(i * step)]\<close> for
  \<^verbatim>\<open>i = 1 .. maxKeyframes - 2\<close> with \<^verbatim>\<open>step = kf.length / (maxKeyframes - 1)\<close>,
  between the first and the last keyframe. An index outside the array would push
  \<^verbatim>\<open>undefined\<close>, so the result is a list of optional keyframes.
\<close>

definition decimate :: "CropKF list \<Rightarrow> int \<Rightarrow> CropKF option list" where
  "decimate kf maxKeyframes =
     (let step = real (length kf) / of_int (maxKeyframes - 1)
      in js_nth kf 0
         # map (\<lambda>i. js_nth kf \<lfloor>of_int i * step + 1 / 2\<rfloor>) [1 .. maxKeyframes - 2]
         @ [js_nth kf (int (length kf) - 1)])"

definition compressCropMap :: "CropKF list \<Rightarrow> int \<Rightarrow> CropKF option list" where
  "compressCropMap kf maxKeyframes =
     (if length kf \<le> 2 then map Some kf
      else if int (length kf) \<le> maxKeyframes
      then map Some (hd kf # filterNear (hd kf) (butlast (tl kf)) @ [last kf])
      else decimate kf maxKeyframes)"

section \<open>Tunables read from the environment\<close>

text \<open>
  The module reads its tunables once, as
  \<^verbatim>\<open>Math.max(lo, Math.min(hi, Number(process.env.NAME || dflt)))\<close>. A variable that is
  unset (or empty) is \<open>None\<close> and gives the default; a variable that is set is the number
  it parses to.
\<close>

record env =
  env_FRAMING_SAMPLE_FPS :: "real option"
  env_TRACK_IOU_THRESH :: "real option"
  env_TRACK_MAX_AGE_S :: "real option"
  env_TRACK_MIN_HITS :: "real option"
  env_TRACK_MIN_AREA :: "real option"
  env_FRAMING_SMOOTH_ALPHA :: "real option"
  env_FRAMING_DEADZONE_X :: "real option"
  env_FRAMING_DEADZONE_Y :: "real option"
  env_FRAMING_MAX_ACCEL :: "real option"
  env_FRAMING_GLOB_LAMBDA_V :: "real option"
  env_FRAMING_GLOB_LAMBDA_A :: "real option"
  env_FRAMING_GLOB_ITERS :: "real option"
  env_FRAMING_GLOB_LR :: "real option"
  env_FRAMING_Z_MIN :: "real option"
  env_FRAMING_Z_DECAY :: "real option"

definition env_number :: "real option \<Rightarrow> real \<Rightarrow> real" where
  "env_number v dflt = (case v of None \<Rightarrow> dflt | Some r \<Rightarrow> r)"

definition DEFAULT_SAMPLE_FPS :: "env \<Rightarrow> real" where
  "DEFAULT_SAMPLE_FPS e = max 1 (env_number (env_FRAMING_SAMPLE_FPS e) 12)"

definition TRACK_IOU_THRESH :: "env \<Rightarrow> real" where
  "TRACK_IOU_THRESH e = max 0 (min 1 (env_number (env_TRACK_IOU_THRESH e) 0.35))"

definition TRACK_MAX_AGE_S :: "env \<Rightarrow> real" where
  "TRACK_MAX_AGE_S e = max 0.1 (env_number (env_TRACK_MAX_AGE_S e) 0.8)"

definition TRACK_MIN_HITS :: "env \<Rightarrow> real" where
  "TRACK_MIN_HITS e = max 1 (env_number (env_TRACK_MIN_HITS e) 2)"

definition MIN_TRACK_AREA :: "env \<Rightarrow> real" where
  "MIN_TRACK_AREA e = max 1 (env_number (env_TRACK_MIN_AREA e) 300)"

definition SMOOTH_ALPHA :: "env \<Rightarrow> real" where
  "SMOOTH_ALPHA e = max 0.01 (min 1 (env_number (env_FRAMING_SMOOTH_ALPHA e) 0.2))"

definition DEADZONE_X :: "env \<Rightarrow> real" where
  "DEADZONE_X e = max 0 (env_number (env_FRAMING_DEADZONE_X e) 70)"

definition DEADZONE_Y :: "env \<Rightarrow> real" where
  "DEADZONE_Y e = max 0 (env_number (env_FRAMING_DEADZONE_Y e) 50)"

definition MAX_ACCEL :: "env \<Rightarrow> real" where
  "MAX_ACCEL e = max 0 (env_number (env_FRAMING_MAX_ACCEL e) 900)"

definition GLOB_LAMBDA_V :: "env \<Rightarrow> real" where
  "GLOB_LAMBDA_V e = max 0 (env_number (env_FRAMING_GLOB_LAMBDA_V e) 80)"

definition GLOB_LAMBDA_A :: "env \<Rightarrow> real" where
  "GLOB_LAMBDA_A e = max 0 (env_number (env_FRAMING_GLOB_LAMBDA_A e) 500)"

definition GLOB_ITERS :: "env \<Rightarrow> real" where
  "GLOB_ITERS e = max 1 (env_number (env_FRAMING_GLOB_ITERS e) 80)"

definition GLOB_LR :: "env \<Rightarrow> real" where
  "GLOB_LR e = max 0.001 (env_number (env_FRAMING_GLOB_LR e) 0.15)"

definition Z_MIN :: "env \<Rightarrow> real" where
  "Z_MIN e = max 0.8 (min 1 (env_number (env_FRAMING_Z_MIN e) 0.88))"

definition Z_DECAY :: "env \<Rightarrow> real" where
  "Z_DECAY e = max 0.01 (min 1 (env_number (env_FRAMING_Z_DECAY e) 0.2))"

section \<open>Detections and tracks\<close>

datatype detectorType = DetFace | DetPose

text \<open>\<^verbatim>\<open>type PersonDet = { x, y, w, h, score, id?, detectorType? }\<close>.\<close>

record PersonDet =
  det_x :: real
  det_y :: real
  det_w :: real
  det_h :: real
  det_score :: real
  det_id :: "nat option"
  det_detectorType :: "detectorType option"

text \<open>\<^verbatim>\<open>type PersonSnapshot = { t, dets }\<close>.\<close>

record PersonSnapshot =
  snap_t :: real
  snap_dets :: "PersonDet list"

text \<open>\<^verbatim>\<open>type Track = { id, x, y, w, h, score, vx, vy, lastT, age, hits, miss }\<close>.\<close>

record Track =
  tr_id :: nat
  tr_x :: real
  tr_y :: real
  tr_w :: real
  tr_h :: real
  tr_score :: real
  tr_vx :: real
  tr_vy :: real
  tr_lastT :: real
  tr_age :: real
  tr_hits :: real
  tr_miss :: real

subsection \<open>\<^verbatim>\<open>iouTrackDet\<close>\<close>

definition iouTrackDet :: "Track \<Rightarrow> PersonDet \<Rightarrow> real" where
  "iouTrackDet tr d =
     (let ax1 = tr_x tr; ay1 = tr_y tr; ax2 = tr_x tr + tr_w tr; ay2 = tr_y tr + tr_h tr;
          bx1 = det_x d; by1 = det_y d; bx2 = det_x d + det_w d; by2 = det_y d + det_h d;
          xx1 = max ax1 bx1; yy1 = max ay1 by1; xx2 = min ax2 bx2; yy2 = min ay2 by2
      in if xx2 \<le> xx1 \<or> yy2 \<le> yy1 then 0
         else let inter = (xx2 - xx1) * (yy2 - yy1);
                  ra = tr_w tr * tr_h tr;
                  rb = det_w d * det_h d;
                  uni = ra + rb - inter
              in if uni \<le> 0 then 0 else inter / uni)"

subsection \<open>\<^verbatim>\<open>associateAndUpdate\<close>\<close>

text \<open>The prediction of one track, the body of \<^verbatim>\<open>prev.map\<close>.\<close>

definition predictTrack :: "real \<Rightarrow> real \<Rightarrow> real \<Rightarrow> Track \<Rightarrow> Track" where
  "predictTrack t baseW baseH tr =
     (let dt = max 0.001 (t - tr_lastT tr);
          nx = clamp (Math_round (tr_x tr + tr_vx tr * dt)) 0 (baseW - tr_w tr);
          ny = clamp (Math_round (tr_y tr + tr_vy tr * dt)) 0 (baseH - tr_h tr)
      in tr\<lparr>tr_x := nx, tr_y := ny\<rparr>)"

text \<open>
  The inner loop over the detections for one predicted track: \<^verbatim>\<open>bestIdx\<close> starts at
  \<open>-1\<close> and \<^verbatim>\<open>bestIou\<close> at \<open>0\<close>; a detection already in \<^verbatim>\<open>usedD\<close> is skipped, and
  a detection replaces the best only when its overlap is strictly larger.
\<close>

definition bestDetection :: "Track \<Rightarrow> PersonDet list \<Rightarrow> nat set \<Rightarrow> int \<times> real" where
  "bestDetection p dets usedD =
     fold (\<lambda>di (bestIdx, bestIou).
             if di \<in> usedD then (bestIdx, bestIou)
             else let iv = iouTrackDet p (dets ! di)
                  in if iv > bestIou then (int di, iv) else (bestIdx, bestIou))
          [0..<length dets] (- 1, 0)"

text \<open>An entry of \<^verbatim>\<open>matches\<close>: \<^verbatim>\<open>{ ti, di, iou }\<close>.\<close>

record Match =
  m_ti :: nat
  m_di :: nat
  m_iou :: real

text \<open>
  One round of the outer loop, for the predicted track of index \<open>ti\<close>; the state is
  \<^verbatim>\<open>matches\<close>, \<^verbatim>\<open>usedD\<close> and \<^verbatim>\<open>usedT\<close>.
\<close>

definition matchStep ::
  "env \<Rightarrow> Track list \<Rightarrow> PersonDet list \<Rightarrow> nat
     \<Rightarrow> Match list \<times> nat set \<times> nat set \<Rightarrow> Match list \<times> nat set \<times> nat set" where
  "matchStep e predicted dets ti = (\<lambda>(matches, usedD, usedT).
     let (bestIdx, bestIou) = bestDetection (predicted ! ti) dets usedD
     in if bestIdx \<ge> 0 \<and> bestIou \<ge> TRACK_IOU_THRESH e
        then (matches @ [\<lparr>m_ti = ti, m_di = nat bestIdx, m_iou = bestIou\<rparr>],
              insert (nat bestIdx) usedD, insert ti usedT)
        else (matches, usedD, usedT))"

definition matchTracks ::
  "env \<Rightarrow> Track list \<Rightarrow> PersonDet list \<Rightarrow> Match list \<times> nat set \<times> nat set" where
  "matchTracks e predicted dets =
     fold (matchStep e predicted dets) [0..<length predicted] ([], {}, {})"

text \<open>The track pushed for a match.\<close>

definition updateMatched :: "real \<Rightarrow> Track \<Rightarrow> PersonDet \<Rightarrow> Track" where
  "updateMatched t tr det =
     (let dt = max 0.001 (t - tr_lastT tr);
          pcx = tr_x tr + tr_w tr / 2;
          pcy = tr_y tr + tr_h tr / 2;
          dcx = det_x det + det_w det / 2;
          dcy = det_y det + det_h det / 2;
          vx = (dcx - pcx) / dt;
          vy = (dcy - pcy) / dt
      in \<lparr>tr_id = tr_id tr, tr_x = det_x det, tr_y = det_y det, tr_w = det_w det,
          tr_h = det_h det, tr_score = det_score det, tr_vx = vx, tr_vy = vy, tr_lastT = t,
          tr_age = tr_age tr + dt, tr_hits = tr_hits tr + 1, tr_miss = 0\<rparr>)"

text \<open>
  What the third loop pushes for a predicted track that found no detection: the track
  with its miss duration advanced, unless that exceeds \<^verbatim>\<open>TRACK_MAX_AGE_S\<close>.
\<close>

definition keepUnmatched :: "env \<Rightarrow> real \<Rightarrow> Track \<Rightarrow> Track list" where
  "keepUnmatched e t tr =
     (let dt = max 0.001 (t - tr_lastT tr);
          newAge = tr_age tr + dt;
          newMiss = tr_miss tr + dt
      in if newMiss \<le> TRACK_MAX_AGE_S e
         then [tr\<lparr>tr_lastT := t, tr_age := newAge, tr_miss := newMiss\<rparr>]
         else [])"

text \<open>The track pushed for a detection that no track took; \<open>i\<close> is \<^verbatim>\<open>nextId++\<close>.\<close>

definition newTrack :: "real \<Rightarrow> nat \<Rightarrow> PersonDet \<Rightarrow> Track" where
  "newTrack t i det =
     \<lparr>tr_id = i, tr_x = det_x det, tr_y = det_y det, tr_w = det_w det, tr_h = det_h det,
      tr_score = det_score det, tr_vx = 0, tr_vy = 0, tr_lastT = t, tr_age = 0,
      tr_hits = 1, tr_miss = 0\<rparr>"

definition associateAndUpdate ::
  "env \<Rightarrow> Track list \<Rightarrow> PersonDet list \<Rightarrow> real \<Rightarrow> real \<Rightarrow> real \<Rightarrow> nat \<Rightarrow> Track list" where
  "associateAndUpdate e prev dets t baseW baseH nextId =
     (let predicted = map (predictTrack t baseW baseH) prev;
          (matches, usedD, usedT) = matchTracks e predicted dets;
          matched = map (\<lambda>m. updateMatched t (predicted ! m_ti m) (dets ! m_di m)) matches;
          kept = concat (map (\<lambda>ti. if ti \<in> usedT then [] else keepUnmatched e t (predicted ! ti))
                             [0..<length predicted]);
          fresh = map (\<lambda>di. dets ! di) (filter (\<lambda>di. di \<notin> usedD) [0..<length dets]);
          spawned = map (\<lambda>(i, det). newTrack t i det) (enumerate nextId fresh)
      in matched @ kept @ spawned)"

subsection \<open>\<^verbatim>\<open>buildTracks\<close>\<close>

text \<open>
  One round of the loop of \<^verbatim>\<open>buildTracks\<close>; the state is \<^verbatim>\<open>tracks\<close>,
  \<^verbatim>\<open>nextId\<close> and \<^verbatim>\<open>out\<close>.
\<close>

definition buildTracksStep ::
  "env \<Rightarrow> real \<Rightarrow> real \<Rightarrow> PersonSnapshot
     \<Rightarrow> Track list \<times> nat \<times> PersonSnapshot list \<Rightarrow> Track list \<times> nat \<times> PersonSnapshot list" where
  "buildTracksStep e baseW baseH s = (\<lambda>(tracks, nextId, out).
     let tracks' = associateAndUpdate e tracks (snap_dets s) (snap_t s) baseW baseH nextId;
         maxId = fold (\<lambda>tr m. max m (tr_id tr)) tracks' nextId;
         nextId' = max nextId (maxId + 1);
         alive = filter (\<lambda>tr. tr_hits tr \<ge> TRACK_MIN_HITS e
                              \<and> tr_miss tr \<le> TRACK_MAX_AGE_S e
                              \<and> tr_w tr * tr_h tr \<ge> MIN_TRACK_AREA e) tracks';
         detLike = map (\<lambda>tr. \<lparr>det_x = tr_x tr, det_y = tr_y tr, det_w = tr_w tr,
                                det_h = tr_h tr, det_score = tr_score tr,
                                det_id = Some (tr_id tr), det_detectorType = None\<rparr>) alive
     in (tracks', nextId', out @ [\<lparr>snap_t = snap_t s, snap_dets = detLike\<rparr>]))"

definition buildTracks :: "env \<Rightarrow> PersonSnapshot list \<Rightarrow> real \<Rightarrow> real \<Rightarrow> PersonSnapshot list" where
  "buildTracks e snaps baseW baseH =
     snd (snd (fold (buildTracksStep e baseW baseH) snaps ([], 1, [])))"

section \<open>The dynamic path: anchors, feasible intervals, optimizer, zoom\<close>

text \<open>\<^verbatim>\<open>interface Constraints\<close>.\<close>

record Constraints =
  c_margin :: real
  c_maxPan :: real
  c_easeMs :: real
  c_centerBiasX :: real
  c_centerBiasY :: real
  c_safeTop :: real
  c_safeBottom :: real

text \<open>\<^verbatim>\<open>type TranscriptWord = { t, end, text, speaker? }\<close>.\<close>

record TranscriptWord =
  w_t :: real
  w_end :: real
  w_text :: string
  w_speaker :: "string option"

text \<open>\<^verbatim>\<open>type SpeakerTurn = { start, end, label }\<close>.\<close>

record SpeakerTurn =
  turn_start :: real
  turn_end :: real
  turn_label :: string

text \<open>
  \<^verbatim>\<open>interface ComputeInput\<close>. The dimensions are the integers of the video probe.
\<close>

record ComputeInput =
  in_videoPath :: string
  in_baseW :: int
  in_baseH :: int
  in_segStart :: real
  in_segEnd :: real
  in_transcript :: "TranscriptWord list"

subsection \<open>\<^verbatim>\<open>buildSpeakerTurns\<close> and \<^verbatim>\<open>activeSpeakerAt\<close>\<close>

text \<open>
  A word counts when its speaker is set and not the empty string (\<^verbatim>\<open>w.speaker &&\<close>);
  the sort by \<^verbatim>\<open>a.t - b.t\<close> is stable.
\<close>

definition hasSpeaker :: "TranscriptWord \<Rightarrow> bool" where
  "hasSpeaker w = (case w_speaker w of None \<Rightarrow> False | Some l \<Rightarrow> l \<noteq> [])"

definition speakerOf :: "TranscriptWord \<Rightarrow> string" where
  "speakerOf w = (case w_speaker w of None \<Rightarrow> [] | Some l \<Rightarrow> l)"

definition newTurn :: "real \<Rightarrow> real \<Rightarrow> TranscriptWord \<Rightarrow> SpeakerTurn" where
  "newTurn segStart segEnd w =
     \<lparr>turn_start = max segStart (w_t w), turn_end = min segEnd (w_end w),
      turn_label = speakerOf w\<rparr>"

definition turnStep ::
  "real \<Rightarrow> real \<Rightarrow> TranscriptWord \<Rightarrow> SpeakerTurn list \<times> SpeakerTurn option
     \<Rightarrow> SpeakerTurn list \<times> SpeakerTurn option" where
  "turnStep segStart segEnd w = (\<lambda>(turns, cur).
     case cur of
       None \<Rightarrow> (turns, Some (newTurn segStart segEnd w))
     | Some c \<Rightarrow>
         if speakerOf w = turn_label c \<and> w_t w - turn_end c \<le> 0.6
         then (turns, Some (c\<lparr>turn_end := min segEnd (max (turn_end c) (w_end w))\<rparr>))
         else (turns @ [c], Some (newTurn segStart segEnd w)))"

definition buildSpeakerTurns :: "TranscriptWord list \<Rightarrow> real \<Rightarrow> real \<Rightarrow> SpeakerTurn list" where
  "buildSpeakerTurns words segStart segEnd =
     (let filtered = sort_key w_t
            (filter (\<lambda>w. hasSpeaker w \<and> w_end w \<ge> segStart \<and> w_t w \<le> segEnd) words)
      in if filtered = [] then []
         else case fold (turnStep segStart segEnd) filtered ([], None) of
                (turns, None) \<Rightarrow> turns
              | (turns, Some c) \<Rightarrow> turns @ [c])"

definition activeSpeakerAt :: "real \<Rightarrow> SpeakerTurn list \<Rightarrow> string option" where
  "activeSpeakerAt t turns =
     fst (fold (\<lambda>u (best, bestOverlap).
                  let ov = max 0 (min (t + 0.2) (turn_end u) - max (t - 0.6) (turn_start u))
                  in if ov > bestOverlap then (Some (turn_label u), ov) else (best, bestOverlap))
               turns (None, 0))"

subsection \<open>\<^verbatim>\<open>chooseAnchor\<close>, \<^verbatim>\<open>computeBounds\<close>, \<^verbatim>\<open>boundsToGroup\<close>\<close>

definition anchorScore :: "PersonDet \<Rightarrow> real \<Rightarrow> real \<Rightarrow> real" where
  "anchorScore d baseW baseH =
     (let area = det_w d * det_h d;
          cx = det_x d + det_w d / 2;
          cy = det_y d + det_h d / 2;
          dx = \<bar>cx - baseW / 2\<bar> / (baseW / 2);
          dy = \<bar>cy - baseH / 2\<bar> / (baseH / 2);
          centr = 1 - min 1 (sqrt (dx\<^sup>2 + dy\<^sup>2))
      in area * det_score d * (0.5 + 0.5 * centr))"

text \<open>
  \<^verbatim>\<open>chooseAnchor(dets, baseW, baseH)\<close> on the array \<open>d # ds\<close>. Both callers skip an
  empty \<^verbatim>\<open>dets\<close> before the call (on an empty array the source would read
  \<^verbatim>\<open>dets[0].w\<close> and throw), so the function is given the first element apart.
\<close>

definition chooseAnchor :: "PersonDet \<Rightarrow> PersonDet list \<Rightarrow> real \<Rightarrow> real \<Rightarrow> PersonDet" where
  "chooseAnchor d ds baseW baseH =
     fst (fold (\<lambda>c (best, bestScore).
                  let s = anchorScore c baseW baseH
                  in if s > bestScore then (c, s) else (best, bestScore))
               ds (d, anchorScore d baseW baseH))"

record Bounds =
  b_minX :: real
  b_maxX :: real
  b_minY :: real
  b_maxY :: real

text \<open>
  \<^verbatim>\<open>computeBounds\<close> on the non-empty array \<open>d # ds\<close>: the minima start at
  \<^verbatim>\<open>Infinity\<close> and the maxima at \<^verbatim>\<open>-Infinity\<close>, so the first element sets all four.
\<close>

definition computeBounds :: "PersonDet \<Rightarrow> PersonDet list \<Rightarrow> Bounds" where
  "computeBounds d ds =
     fold (\<lambda>c b. \<lparr>b_minX = min (b_minX b) (det_x c), b_maxX = max (b_maxX b) (det_x c + det_w c),
                   b_minY = min (b_minY b) (det_y c), b_maxY = max (b_maxY b) (det_y c + det_h c)\<rparr>)
          ds \<lparr>b_minX = det_x d, b_maxX = det_x d + det_w d,
              b_minY = det_y d, b_maxY = det_y d + det_h d\<rparr>"

record GroupBounds =
  g_groupW :: real
  g_groupH :: real
  g_minX :: real
  g_maxX :: real
  g_minY :: real
  g_maxY :: real

definition boundsToGroup :: "Bounds \<Rightarrow> GroupBounds" where
  "boundsToGroup b =
     \<lparr>g_groupW = b_maxX b - b_minX b, g_groupH = b_maxY b - b_minY b,
      g_minX = b_minX b, g_maxX = b_maxX b, g_minY = b_minY b, g_maxY = b_maxY b\<rparr>"

subsection \<open>The anchor loop\<close>

text \<open>
  The choice of the anchor of one snapshot with detections \<open>d # ds\<close>: \<open>spk\<close> is the active
  speaker, \<open>mp\<close> the record from speaker labels to track ids. \<^verbatim>\<open>if (spk)\<close> holds for a
  label that is not the empty string.
\<close>

definition selectAnchor ::
  "(string \<rightharpoonup> nat) \<Rightarrow> string option \<Rightarrow> PersonDet \<Rightarrow> PersonDet list \<Rightarrow> real \<Rightarrow> real
     \<Rightarrow> PersonDet \<times> (string \<rightharpoonup> nat)" where
  "selectAnchor mp spk d ds baseW baseH =
     (case spk of
        None \<Rightarrow> (chooseAnchor d ds baseW baseH, mp)
      | Some l \<Rightarrow>
          if l = [] then (chooseAnchor d ds baseW baseH, mp)
          else case (case mp l of None \<Rightarrow> None
                     | Some mapped \<Rightarrow> find (\<lambda>c. det_id c = Some mapped) (d # ds)) of
                 Some found \<Rightarrow> (found, mp)
               | None \<Rightarrow>
                   let pick = chooseAnchor d ds baseW baseH
                   in (pick, case det_id pick of None \<Rightarrow> mp | Some i \<Rightarrow> mp(l \<mapsto> i)))"

text \<open>One entry of the parallel arrays \<^verbatim>\<open>anchors\<close>, \<^verbatim>\<open>bounds\<close>, \<^verbatim>\<open>times\<close>.\<close>

record AnchorSample =
  as_anchor :: PersonDet
  as_bounds :: GroupBounds
  as_time :: real

definition anchorStep ::
  "SpeakerTurn list \<Rightarrow> real \<Rightarrow> real \<Rightarrow> PersonSnapshot
     \<Rightarrow> (string \<rightharpoonup> nat) \<times> AnchorSample list \<Rightarrow> (string \<rightharpoonup> nat) \<times> AnchorSample list" where
  "anchorStep turns baseW baseH snap = (\<lambda>(mp, acc).
     case snap_dets snap of
       [] \<Rightarrow> (mp, acc)
     | d # ds \<Rightarrow>
         let spk = activeSpeakerAt (snap_t snap) turns;
             (anchor, mp') = selectAnchor mp spk d ds baseW baseH;
             b = computeBounds d ds
         in (mp', acc @ [\<lparr>as_anchor = anchor, as_bounds = boundsToGroup b,
                           as_time = snap_t snap\<rparr>]))"

definition collectAnchors ::
  "PersonSnapshot list \<Rightarrow> SpeakerTurn list \<Rightarrow> real \<Rightarrow> real \<Rightarrow> AnchorSample list" where
  "collectAnchors timeline turns baseW baseH =
     snd (fold (anchorStep turns baseW baseH) timeline (Map.empty, []))"

subsection \<open>\<^verbatim>\<open>applyTemporalSmoothing\<close>\<close>

text \<open>\<^verbatim>\<open>type SmoothingState = { smoothedX: number | null, smoothedY: number | null }\<close>.\<close>

record SmoothingState =
  smoothedX :: "real option"
  smoothedY :: "real option"

definition applyTemporalSmoothing ::
  "env \<Rightarrow> real \<Rightarrow> real \<Rightarrow> SmoothingState \<Rightarrow> (real \<times> real) \<times> SmoothingState" where
  "applyTemporalSmoothing e rawX rawY st =
     (case (smoothedX st, smoothedY st) of
        (Some sx, Some sy) \<Rightarrow>
          let deltaX = rawX - sx;
              deltaY = rawY - sy;
              targetX = (if \<bar>deltaX\<bar> \<le> DEADZONE_X e then sx else rawX);
              targetY = (if \<bar>deltaY\<bar> \<le> DEADZONE_Y e then sy else rawY);
              newX = sx + SMOOTH_ALPHA e * (targetX - sx);
              newY = sy + SMOOTH_ALPHA e * (targetY - sy)
          in ((newX, newY), \<lparr>smoothedX = Some newX, smoothedY = Some newY\<rparr>)
      | _ \<Rightarrow> ((rawX, rawY), \<lparr>smoothedX = Some rawX, smoothedY = Some rawY\<rparr>))"

fun smoothAnchors :: "env \<Rightarrow> SmoothingState \<Rightarrow> AnchorSample list \<Rightarrow> (real \<times> real) list" where
  "smoothAnchors e st [] = []"
| "smoothAnchors e st (a # as) =
     (let anchor = as_anchor a;
          rawX = det_x anchor + det_w anchor / 2;
          rawY = det_y anchor + det_h anchor / 2;
          (smoothed, st') = applyTemporalSmoothing e rawX rawY st
      in smoothed # smoothAnchors e st' as)"

subsection \<open>\<^verbatim>\<open>buildFeasible\<close>\<close>

record Feasible =
  f_xL :: real
  f_xU :: real
  f_yL :: real
  f_yU :: real
  f_xDes :: real
  f_yDes :: real
  f_groupW :: real
  f_groupH :: real
  f_insetX :: real
  f_insetY :: real

definition buildFeasible ::
  "GroupBounds \<Rightarrow> PersonDet \<Rightarrow> real \<Rightarrow> real \<Rightarrow> real \<Rightarrow> real \<Rightarrow> Constraints \<Rightarrow> real \<times> real
     \<Rightarrow> Feasible" where
  "buildFeasible grp anchor targetW targetH baseW baseH constraints smoothedPosition =
     (let marginX = max 0 (c_margin constraints) * targetW;
          minMarginY = targetH * 0.1;
          adaptiveMarginY = max minMarginY (g_groupH grp * 0.6);
          topPad = max minMarginY (adaptiveMarginY * 0.6);
          bottomPad = adaptiveMarginY;
          paddedMinX = clamp (g_minX grp - marginX) 0 baseW;
          paddedMaxX = clamp (g_maxX grp + marginX) 0 baseW;
          paddedMinY = clamp (g_minY grp - topPad) 0 baseH;
          paddedMaxY = clamp (g_maxY grp + bottomPad) 0 baseH;
          frameCenterX = baseW / 2;
          blend = max 0 (min 1 (c_centerBiasX constraints));
          desiredCenterX = fst smoothedPosition * blend + frameCenterX * (1 - blend);
          torsoBias = min (targetH * 0.18) (g_groupH grp * 0.6);
          desiredCenterY = (paddedMinY + paddedMaxY) / 2 + torsoBias
                             - targetH * c_centerBiasY constraints;
          insetX = max 8 (Math_floor (targetW * 0.06));
          insetY = max 8 (Math_floor (targetH * 0.08));
          xL0 = clamp (paddedMaxX + insetX - targetW) 0 (max 0 (baseW - targetW));
          xU0 = clamp (paddedMinX - insetX) 0 (max 0 (baseW - targetW));
          mx = clamp ((paddedMinX + paddedMaxX) / 2 - targetW / 2) 0 (max 0 (baseW - targetW));
          xL = (if xL0 > xU0 then mx else xL0);
          xU = (if xL0 > xU0 then mx else xU0);
          safeTop = - Math_round (targetH * c_safeTop constraints);
          safeBottom = Math_round (targetH * c_safeBottom constraints);
          minY = safeTop;
          maxY = baseH - targetH + safeBottom;
          yL0 = clamp (paddedMaxY + insetY - targetH) minY maxY;
          yU0 = clamp (paddedMinY - insetY) minY maxY;
          my = clamp ((paddedMinY + paddedMaxY) / 2 - targetH / 2) minY maxY;
          yL = (if yL0 > yU0 then my else yL0);
          yU = (if yL0 > yU0 then my else yU0);
          xDes = clamp (desiredCenterX - targetW / 2) xL xU;
          yDes = clamp (desiredCenterY - targetH / 2) yL yU
      in \<lparr>f_xL = xL, f_xU = xU, f_yL = yL, f_yU = yU, f_xDes = xDes, f_yDes = yDes,
          f_groupW = paddedMaxX - paddedMinX, f_groupH = paddedMaxY - paddedMinY,
          f_insetX = insetX, f_insetY = insetY\<rparr>)"

subsection \<open>\<^verbatim>\<open>globalOptimize1D\<close>\<close>

text \<open>
  One gradient step. The three loops that fill \<^verbatim>\<open>g\<close> read \<^verbatim>\<open>x\<close> and update
  \<^verbatim>\<open>g\<close> in place; the last loop moves each \<^verbatim>\<open>x[i]\<close> and clamps it, first from below
  by \<^verbatim>\<open>L[i]\<close>, then from above by \<^verbatim>\<open>U[i]\<close>. The arrays all have the length of
  \<^verbatim>\<open>des\<close> at the only call site.
\<close>

definition gradient :: "real list \<Rightarrow> real list \<Rightarrow> real list \<Rightarrow> real \<Rightarrow> real \<Rightarrow> real list" where
  "gradient x des ww lambdaV lambdaA =
     (let n = length des;
          g0 = map (\<lambda>i. 0 + 2 * (ww ! i) * (x ! i - des ! i)) [0..<n];
          g1 = fold (\<lambda>i g. let dv = x ! i - x ! (i - 1);
                                 g' = g[i := g ! i + 2 * lambdaV * dv]
                             in g'[i - 1 := g' ! (i - 1) - 2 * lambdaV * dv])
                    [1..<n] g0;
          g2 = fold (\<lambda>i g. let da = x ! (i + 1) - 2 * x ! i + x ! (i - 1);
                                 g' = g[i + 1 := g ! (i + 1) + 2 * lambdaA * da];
                                 g'' = g'[i := g' ! i + - 4 * lambdaA * da]
                             in g''[i - 1 := g'' ! (i - 1) + 2 * lambdaA * da])
                    [1..<n - 1] g1
      in g2)"

definition descend ::
  "real list \<Rightarrow> real list \<Rightarrow> real list \<Rightarrow> real list \<Rightarrow> real \<Rightarrow> real list" where
  "descend x g L U lr =
     map (\<lambda>i. let v = x ! i - lr * g ! i;
                   v' = (if v < L ! i then L ! i else v)
               in if v' > U ! i then U ! i else v')
         [0..<length x]"

definition globalOptimize1D ::
  "real list \<Rightarrow> real list \<Rightarrow> real list \<Rightarrow> real list \<Rightarrow> real list \<Rightarrow> real \<Rightarrow> real \<Rightarrow> real \<Rightarrow> real
     \<Rightarrow> real list" where
  "globalOptimize1D t des L U w lambdaV lambdaA iters lr =
     (let ww = map (\<lambda>s. max 0.2 (min 1 s)) w
      in ((\<lambda>x. descend x (gradient x des ww lambdaV lambdaA) L U lr) ^^ nat \<lceil>iters\<rceil>) des)"

subsection \<open>\<^verbatim>\<open>solveZoomSeries\<close>\<close>

text \<open>An entry of \<^verbatim>\<open>groups\<close>: \<^verbatim>\<open>{ w, h, insetX, insetY }\<close>.\<close>

record ZoomGroup =
  zg_w :: real
  zg_h :: real
  zg_insetX :: real
  zg_insetY :: real

text \<open>The zoom required by one sample, \<^verbatim>\<open>zr\<close>.\<close>

definition requiredZoom :: "ZoomGroup \<Rightarrow> real \<Rightarrow> real \<Rightarrow> real \<Rightarrow> real" where
  "requiredZoom g targetW targetH zMin =
     (let needX = (zg_w g + 2 * zg_insetX g) / targetW;
          needY = (zg_h g + 2 * zg_insetY g) / targetH
      in if needX > 1 \<or> needY > 1 then max zMin (1 / max needX needY) else 1)"

text \<open>
  The loop runs over the indices of \<^verbatim>\<open>xs\<close> and reads \<^verbatim>\<open>groups[i]\<close>; the two arrays
  have the same length at the only call site.
\<close>

definition solveZoomSeries ::
  "env \<Rightarrow> real list \<Rightarrow> real list \<Rightarrow> ZoomGroup list \<Rightarrow> real \<Rightarrow> real \<Rightarrow> real \<Rightarrow> real list" where
  "solveZoomSeries e xs ys groups targetW targetH zMin =
     fold (\<lambda>i z. let zr = requiredZoom (groups ! i) targetW targetH zMin
                  in if i = 0 then z @ [zr]
                     else let p = last z;
                              blended = p + Z_DECAY e * (zr - p)
                          in z @ [max zMin blended])
          [0..<length xs] []"

subsection \<open>\<^verbatim>\<open>computeGlobalCropKeyframesFromTracksWithSpeechAndZoom\<close>\<close>

text \<open>The zoom floor of the dynamic path.\<close>

definition dynamicZMin :: "env \<Rightarrow> real \<Rightarrow> real \<Rightarrow> real" where
  "dynamicZMin e baseW baseH =
     (let targetW = Math_floor (baseH * 9 / 16);
          zMinWidth = targetW / baseW;
          zMinHeight = 1
      in max zMinWidth (max zMinHeight (Z_MIN e)))"

definition rawKeyframe :: "real \<Rightarrow> real \<Rightarrow> real \<Rightarrow> real \<Rightarrow> real \<Rightarrow> real \<Rightarrow> real \<Rightarrow> CropKF" where
  "rawKeyframe targetW baseW baseH time xi yi zi =
     (let cropW = Math_round (targetW / zi);
          cropH = Math_round (baseH / zi);
          maxX = baseW - cropW;
          maxY = baseH - cropH;
          x = max 0 (min (Math_round xi) maxX);
          y = max 0 (min (Math_round yi) maxY)
      in \<lparr>kf_t = time, kf_x = x, kf_y = y, kf_w = targetW, kf_h = baseH, kf_z = zi,
          kf_xs = 0, kf_ys = 0\<rparr>)"

text \<open>
  The function after its first loop, from the anchors, bounds and times that loop has
  collected (a non-empty list).
\<close>

definition keyframesFromAnchors ::
  "env \<Rightarrow> AnchorSample list \<Rightarrow> real \<Rightarrow> real \<Rightarrow> Constraints \<Rightarrow> CropKF list" where
  "keyframesFromAnchors e samples baseW baseH constraints =
     (let targetW = Math_floor (baseH * 9 / 16);
          smoothedAnchors = smoothAnchors e \<lparr>smoothedX = None, smoothedY = None\<rparr> samples;
          feas = map (\<lambda>(a, sm). buildFeasible (as_bounds a) (as_anchor a) targetW baseH
                                   baseW baseH constraints sm)
                     (zip samples smoothedAnchors);
          feasT = map as_time samples;
          wts = map (\<lambda>a. det_score (as_anchor a)) samples;
          groups = map (\<lambda>f. \<lparr>zg_w = f_groupW f, zg_h = f_groupH f,
                               zg_insetX = f_insetX f, zg_insetY = f_insetY f\<rparr>) feas
      in if feasT = [] then []
         else
           let xs = globalOptimize1D feasT (map f_xDes feas) (map f_xL feas) (map f_xU feas)
                      wts (GLOB_LAMBDA_V e) (GLOB_LAMBDA_A e) (GLOB_ITERS e) (GLOB_LR e);
               ys = globalOptimize1D feasT (map f_yDes feas) (map f_yL feas) (map f_yU feas)
                      wts (GLOB_LAMBDA_V e) (GLOB_LAMBDA_A e) (GLOB_ITERS e) (GLOB_LR e);
               zMin = dynamicZMin e baseW baseH;
               zs = solveZoomSeries e xs ys groups targetW baseH zMin
           in map (\<lambda>i. rawKeyframe targetW baseW baseH (feasT ! i) (xs ! i) (ys ! i) (zs ! i))
                  [0..<length feasT])"

definition computeGlobalCropKeyframesFromTracksWithSpeechAndZoom ::
  "env \<Rightarrow> PersonSnapshot list \<Rightarrow> SpeakerTurn list \<Rightarrow> real \<Rightarrow> real \<Rightarrow> Constraints \<Rightarrow> CropKF list" where
  "computeGlobalCropKeyframesFromTracksWithSpeechAndZoom e timeline turns baseW baseH constraints =
     (let samples = collectAnchors timeline turns baseW baseH
      in if samples = [] then []
         else keyframesFromAnchors e samples baseW baseH constraints)"

section \<open>The dynamic path: post-processing\<close>

subsection \<open>\<^verbatim>\<open>smoothKeyframes\<close>\<close>

text \<open>
  The running values \<^verbatim>\<open>sx\<close>, \<^verbatim>\<open>sy\<close>, \<^verbatim>\<open>sz\<close> after one more keyframe, and
  the keyframe pushed from them.
\<close>

definition smoothStep :: "env \<Rightarrow> real \<times> real \<times> real \<Rightarrow> CropKF \<Rightarrow> real \<times> real \<times> real" where
  "smoothStep e = (\<lambda>(sx, sy, sz) k.
     (sx + SMOOTH_ALPHA e * (kf_x k - sx),
      sy + SMOOTH_ALPHA e * (kf_y k - sy),
      sz + SMOOTH_ALPHA e * (kf_z k - sz)))"

definition smoothFrame :: "real \<times> real \<times> real \<Rightarrow> CropKF \<Rightarrow> CropKF" where
  "smoothFrame = (\<lambda>(sx, sy, sz) k.
     \<lparr>kf_t = kf_t k, kf_x = Math_round sx, kf_y = Math_round sy, kf_w = kf_w k,
      kf_h = kf_h k, kf_z = sz, kf_xs = 0, kf_ys = 0\<rparr>)"

fun smoothLoop :: "env \<Rightarrow> real \<times> real \<times> real \<Rightarrow> CropKF list \<Rightarrow> CropKF list" where
  "smoothLoop e s [] = []"
| "smoothLoop e s (k # ks) =
     smoothFrame (smoothStep e s k) k # smoothLoop e (smoothStep e s k) ks"

definition smoothKeyframes :: "env \<Rightarrow> CropKF list \<Rightarrow> CropKF list" where
  "smoothKeyframes e kf =
     (case kf of
        k0 # k1 # ks \<Rightarrow>
          smoothFrame (kf_x k0, kf_y k0, kf_z k0) k0
          # smoothLoop e (kf_x k0, kf_y k0, kf_z k0) (k1 # ks)
      | _ \<Rightarrow> kf)"

subsection \<open>\<^verbatim>\<open>applyDeadzone\<close>\<close>

text \<open>The keyframe pushed after \<open>prev\<close>, the last keyframe of \<^verbatim>\<open>out\<close>.\<close>

definition deadzoneFrame :: "real \<Rightarrow> real \<Rightarrow> CropKF \<Rightarrow> CropKF \<Rightarrow> CropKF" where
  "deadzoneFrame dzx dzy prev cur =
     (let nx = (if \<bar>kf_x cur - kf_x prev\<bar> < dzx then kf_x prev else kf_x cur);
          ny = (if \<bar>kf_y cur - kf_y prev\<bar> < dzy then kf_y prev else kf_y cur);
          nz = (if \<bar>kf_z cur - kf_z prev\<bar> < 0.01 then kf_z prev else kf_z cur)
      in \<lparr>kf_t = kf_t cur, kf_x = nx, kf_y = ny, kf_w = kf_w cur, kf_h = kf_h cur,
          kf_z = nz, kf_xs = 0, kf_ys = 0\<rparr>)"

fun deadzoneLoop :: "real \<Rightarrow> real \<Rightarrow> CropKF \<Rightarrow> CropKF list \<Rightarrow> CropKF list" where
  "deadzoneLoop dzx dzy prev [] = []"
| "deadzoneLoop dzx dzy prev (cur # ks) =
     deadzoneFrame dzx dzy prev cur # deadzoneLoop dzx dzy (deadzoneFrame dzx dzy prev cur) ks"

definition applyDeadzone :: "CropKF list \<Rightarrow> real \<Rightarrow> real \<Rightarrow> CropKF list" where
  "applyDeadzone kf dzx dzy =
     (case kf of k0 # k1 # ks \<Rightarrow> k0 # deadzoneLoop dzx dzy k0 (k1 # ks) | _ \<Rightarrow> kf)"

subsection \<open>\<^verbatim>\<open>applyPanLimits\<close>\<close>

text \<open>The keyframe pushed after \<open>prev\<close>, the last keyframe of \<^verbatim>\<open>limited\<close>.\<close>

definition panFrame :: "real \<Rightarrow> CropKF \<Rightarrow> CropKF \<Rightarrow> CropKF" where
  "panFrame maxPanPerSecond prev cur =
     (let dt = max 0.001 (kf_t cur - kf_t prev);
          maxDelta = max 0 maxPanPerSecond * dt;
          nextX = stepToward (kf_x prev) (kf_x cur) maxDelta;
          nextY = stepToward (kf_y prev) (kf_y cur) maxDelta
      in \<lparr>kf_t = kf_t cur, kf_x = nextX, kf_y = nextY, kf_w = kf_w cur, kf_h = kf_h cur,
          kf_z = kf_z cur, kf_xs = 0, kf_ys = 0\<rparr>)"

fun panLoop :: "real \<Rightarrow> CropKF \<Rightarrow> CropKF list \<Rightarrow> CropKF list" where
  "panLoop maxPanPerSecond prev [] = []"
| "panLoop maxPanPerSecond prev (cur # ks) =
     panFrame maxPanPerSecond prev cur
     # panLoop maxPanPerSecond (panFrame maxPanPerSecond prev cur) ks"

definition applyPanLimits :: "CropKF list \<Rightarrow> real \<Rightarrow> CropKF list" where
  "applyPanLimits kf maxPanPerSecond =
     (case kf of k0 # k1 # ks \<Rightarrow> k0 # panLoop maxPanPerSecond k0 (k1 # ks) | _ \<Rightarrow> kf)"

subsection \<open>\<^verbatim>\<open>applyAccelLimits\<close>\<close>

text \<open>
  One round of the loop: from the last keyframe of \<^verbatim>\<open>out\<close> and the velocities
  \<^verbatim>\<open>vx\<close>, \<^verbatim>\<open>vy\<close> to the keyframe pushed and the new velocities.
\<close>

definition accelStep ::
  "real \<Rightarrow> CropKF \<times> real \<times> real \<Rightarrow> CropKF \<Rightarrow> CropKF \<times> real \<times> real" where
  "accelStep maxAccelPerSecond = (\<lambda>(prev, vx, vy) cur.
     let dt = max 0.001 (kf_t cur - kf_t prev);
         tx = (kf_x cur - kf_x prev) / dt;
         ty = (kf_y cur - kf_y prev) / dt;
         ax = stepToward vx tx (maxAccelPerSecond * dt) - vx;
         ay = stepToward vy ty (maxAccelPerSecond * dt) - vy;
         vx' = vx + ax;
         vy' = vy + ay;
         nx = Math_round (kf_x prev + vx' * dt);
         ny = Math_round (kf_y prev + vy' * dt)
     in (\<lparr>kf_t = kf_t cur, kf_x = nx, kf_y = ny, kf_w = kf_w cur, kf_h = kf_h cur,
          kf_z = kf_z cur, kf_xs = 0, kf_ys = 0\<rparr>, vx', vy'))"

fun accelLoop :: "real \<Rightarrow> CropKF \<times> real \<times> real \<Rightarrow> CropKF list \<Rightarrow> CropKF list" where
  "accelLoop maxAccelPerSecond s [] = []"
| "accelLoop maxAccelPerSecond s (cur # ks) =
     fst (accelStep maxAccelPerSecond s cur)
     # accelLoop maxAccelPerSecond (accelStep maxAccelPerSecond s cur) ks"

definition applyAccelLimits :: "CropKF list \<Rightarrow> real \<Rightarrow> CropKF list" where
  "applyAccelLimits kf maxAccelPerSecond =
     (case kf of
        k0 # k1 # k2 # ks \<Rightarrow> k0 # accelLoop maxAccelPerSecond (k0, 0, 0) (k1 # k2 # ks)
      | _ \<Rightarrow> kf)"

subsection \<open>\<^verbatim>\<open>easeSegmentEdges\<close>\<close>

text \<open>The frame pushed after \<open>prev\<close>, the last frame of \<^verbatim>\<open>eased\<close>.\<close>

definition easeFrame :: "real \<Rightarrow> real \<Rightarrow> real \<Rightarrow> CropKF \<Rightarrow> CropKF \<Rightarrow> CropKF" where
  "easeFrame segStart segEnd easeSeconds prev frame =
     (let fromStart = min 1 (max 0 ((kf_t frame - segStart) / easeSeconds));
          fromEnd = min 1 (max 0 ((segEnd - kf_t frame) / easeSeconds));
          influence = min fromStart fromEnd;
          x = Math_round (kf_x prev + (kf_x frame - kf_x prev) * influence);
          y = Math_round (kf_y prev + (kf_y frame - kf_y prev) * influence);
          z = kf_z prev + (kf_z frame - kf_z prev) * influence
      in \<lparr>kf_t = kf_t frame, kf_x = x, kf_y = y, kf_w = kf_w frame, kf_h = kf_h frame,
          kf_z = z, kf_xs = 0, kf_ys = 0\<rparr>)"

fun easeLoop :: "real \<Rightarrow> real \<Rightarrow> real \<Rightarrow> CropKF \<Rightarrow> CropKF list \<Rightarrow> CropKF list" where
  "easeLoop segStart segEnd easeSeconds prev [] = []"
| "easeLoop segStart segEnd easeSeconds prev (frame # ks) =
     easeFrame segStart segEnd easeSeconds prev frame
     # easeLoop segStart segEnd easeSeconds
         (easeFrame segStart segEnd easeSeconds prev frame) ks"

definition easeSegmentEdges :: "CropKF list \<Rightarrow> real \<Rightarrow> real \<Rightarrow> real \<Rightarrow> CropKF list" where
  "easeSegmentEdges kf segStart segEnd easeSeconds =
     (if kf = [] \<or> easeSeconds \<le> 0 then kf
      else case kf of
             [] \<Rightarrow> []
           | k0 # ks \<Rightarrow> k0 # easeLoop segStart segEnd easeSeconds k0 ks)"

subsection \<open>\<^verbatim>\<open>applyScaledCoords\<close>\<close>

definition scaleKeyframe :: "real \<Rightarrow> real \<Rightarrow> real \<Rightarrow> CropKF \<Rightarrow> CropKF" where
  "scaleKeyframe targetW baseW baseH k =
     (let z = kf_z k;
          cropW = Math_round (targetW / z);
          cropH = Math_round (baseH / z);
          maxX = max 0 (baseW - cropW);
          maxY = max 0 (baseH - cropH);
          clampedX = clamp (kf_x k) 0 maxX;
          clampedY = clamp (kf_y k) 0 maxY
      in \<lparr>kf_t = kf_t k, kf_x = clampedX, kf_y = clampedY, kf_w = cropW, kf_h = cropH,
          kf_z = z, kf_xs = 0, kf_ys = 0\<rparr>)"

definition applyScaledCoords :: "CropKF list \<Rightarrow> real \<Rightarrow> real \<Rightarrow> CropKF list" where
  "applyScaledCoords kf baseW baseH =
     (if kf = [] then kf
      else let targetW = min (Math_floor (baseH * 9 / 16)) baseW
           in map (scaleKeyframe targetW baseW baseH) kf)"

section \<open>\<^verbatim>\<open>computeCropMapPerson\<close>\<close>

text \<open>
  What a call can end in besides its value: the exception of the frame sampler or the
  detector, the two errors of the filter builder.
\<close>

datatype error = DetectionFailed | InvalidCropParameters | FilterTooLong

text \<open>
  \<^verbatim>\<open>detectPersonsTimeline\<close> decodes frames and runs the detector; its outcome is a
  parameter here: \<open>Inr snaps\<close> when it returns, \<open>Inl err\<close> when it throws. After it the
  function is a pure computation; \<open>None\<close> is its \<^verbatim>\<open>null\<close>. The keyframes returned are
  those of \<^verbatim>\<open>compressCropMap(deduped, 120)\<close>.
\<close>

definition postProcess ::
  "env \<Rightarrow> ComputeInput \<Rightarrow> Constraints \<Rightarrow> CropKF list \<Rightarrow> CropKF list" where
  "postProcess e input constraints raw =
     (let smoothed = smoothKeyframes e raw;
          deadzoned = applyDeadzone smoothed (DEADZONE_X e) (DEADZONE_Y e);
          limited = applyPanLimits deadzoned (c_maxPan constraints);
          accelLimited = applyAccelLimits limited (MAX_ACCEL e);
          eased = easeSegmentEdges accelLimited (in_segStart input) (in_segEnd input)
                    (c_easeMs constraints / 1000)
      in applyScaledCoords eased (of_int (in_baseW input)) (of_int (in_baseH input)))"

definition computeCropMapPerson ::
  "env \<Rightarrow> error + PersonSnapshot list \<Rightarrow> ComputeInput \<Rightarrow> Constraints
     \<Rightarrow> error + CropKF option list option" where
  "computeCropMapPerson e detected input constraints =
     (case detected of
        Inl err \<Rightarrow> Inl err
      | Inr snaps \<Rightarrow>
          Inr (if snaps = [] then None
               else
                 let baseW = of_int (in_baseW input);
                     baseH = of_int (in_baseH input);
                     tracksTimeline = buildTracks e snaps baseW baseH
                 in if tracksTimeline = [] then None
                    else
                      let turns = buildSpeakerTurns (in_transcript input) (in_segStart input)
                                    (in_segEnd input);
                          raw = computeGlobalCropKeyframesFromTracksWithSpeechAndZoom e
                                  tracksTimeline turns baseW baseH constraints
                      in if raw = [] then None
                         else
                           let withScaled = postProcess e input constraints raw;
                               deduped = (if withScaled \<noteq> [] then dedupeByTime withScaled 0.1
                                          else [])
                           in if deduped = [] then None
                              else Some (compressCropMap deduped 120)))"

section \<open>The static path\<close>

subsection \<open>\<^verbatim>\<open>computeCropMapPersonStatic\<close>\<close>

text \<open>The crop of \<^verbatim>\<open>computeGlobalStaticCrop\<close>: \<^verbatim>\<open>{ cropX, cropY, cropW, cropH, zMin }\<close>.\<close>

record GlobalCrop =
  gc_cropX :: real
  gc_cropY :: real
  gc_cropW :: real
  gc_cropH :: real
  gc_zMin :: real

text \<open>\<^verbatim>\<open>median(sortedValues)\<close>, called on a sorted array.\<close>

definition median :: "real list \<Rightarrow> real" where
  "median sortedValues =
     (if sortedValues = [] then 0
      else if even (length sortedValues)
      then (sortedValues ! (length sortedValues div 2 - 1)
            + sortedValues ! (length sortedValues div 2)) / 2
      else sortedValues ! (length sortedValues div 2))"

text \<open>The even target width both static functions start from.\<close>

definition staticTargetW :: "real \<Rightarrow> real \<Rightarrow> real" where
  "staticTargetW baseW baseH =
     (let rawTargetW = min (Math_floor (baseH * 9 / 16)) baseW
      in Math_floor (rawTargetW / 2) * 2)"

text \<open>
  The keyframe of a segment from the centres of its anchors (a non-empty list, one per
  snapshot with a detection). The anchor widths and heights and the median of the
  vertical centres, which the function also collects, do not reach the result.
\<close>

definition staticKeyframe :: "real list \<Rightarrow> real \<Rightarrow> real \<Rightarrow> real \<Rightarrow> CropKF" where
  "staticKeyframe anchorCentersX segStart baseW baseH =
     (let evenTargetW = staticTargetW baseW baseH;
          medianCx = median (sort anchorCentersX);
          zMinWidth = evenTargetW / baseW;
          zMinHeight = 1;
          zMin = max zMinWidth (max zMinHeight 0.88);
          frameCenterX = baseW / 2;
          direction = Math_sign (medianCx - frameCenterX);
          bias = evenTargetW * 0.35;
          biasedCenterX = (if direction \<noteq> 0 then medianCx - direction * bias else medianCx);
          cropX0 = Math_round (biasedCenterX - evenTargetW / 2);
          maxX = baseW - evenTargetW;
          cropX1 = (if cropX0 < 0 then 0 else cropX0);
          cropXFinal = (if cropX1 > maxX then maxX else cropX1)
      in \<lparr>kf_t = segStart, kf_x = cropXFinal, kf_y = 0, kf_w = evenTargetW, kf_h = baseH,
          kf_z = zMin, kf_xs = 0, kf_ys = 0\<rparr>)"

text \<open>The horizontal centres of the anchors, one per snapshot that has a detection.\<close>

definition anchorCenters :: "PersonSnapshot list \<Rightarrow> real \<Rightarrow> real \<Rightarrow> real list" where
  "anchorCenters snaps baseW baseH =
     concat (map (\<lambda>snap. case snap_dets snap of
                            [] \<Rightarrow> []
                          | d # ds \<Rightarrow> let anchor = chooseAnchor d ds baseW baseH
                                      in [det_x anchor + det_w anchor / 2])
                 snaps)"

text \<open>
  With a global crop the function does not sample the segment; without one the outcome of
  \<^verbatim>\<open>detectPersonsTimeline\<close> is the parameter \<open>detected\<close>.
\<close>

definition computeCropMapPersonStatic ::
  "error + PersonSnapshot list \<Rightarrow> ComputeInput \<Rightarrow> Constraints \<Rightarrow> GlobalCrop option
     \<Rightarrow> error + CropKF list option" where
  "computeCropMapPersonStatic detected input constraints globalCrop =
     (case globalCrop of
        Some g \<Rightarrow>
          Inr (Some [\<lparr>kf_t = in_segStart input, kf_x = gc_cropX g, kf_y = gc_cropY g,
                      kf_w = gc_cropW g, kf_h = gc_cropH g, kf_z = gc_zMin g,
                      kf_xs = 0, kf_ys = 0\<rparr>])
      | None \<Rightarrow>
          (case detected of
             Inl err \<Rightarrow> Inl err
           | Inr snaps \<Rightarrow>
               Inr (if snaps = [] then None
                    else
                      let baseW = of_int (in_baseW input);
                          baseH = of_int (in_baseH input);
                          anchorCentersX = anchorCenters snaps baseW baseH
                      in if anchorCentersX = [] then None
                         else Some [staticKeyframe anchorCentersX (in_segStart input)
                                      baseW baseH])))"

subsection \<open>\<^verbatim>\<open>weightedMedian\<close> and \<^verbatim>\<open>calculateCrop\<close>\<close>

text \<open>\<^verbatim>\<open>interface FaceDetection\<close>.\<close>

record FaceDetection =
  fd_x :: real
  fd_y :: real
  fd_width :: real
  fd_height :: real
  fd_centerX :: real
  fd_centerY :: real
  fd_score :: real
  fd_area :: real

record WeightedValue =
  wv_value :: real
  wv_weight :: real

record CropInfo =
  ci_cropX :: real
  ci_cropY :: real
  ci_cropWidth :: real
  ci_cropHeight :: real
  ci_videoWidth :: real
  ci_videoHeight :: real

fun weightedMedianLoop :: "real \<Rightarrow> real \<Rightarrow> WeightedValue list \<Rightarrow> real option" where
  "weightedMedianLoop acc half [] = None"
| "weightedMedianLoop acc half (item # rest) =
     (if acc + wv_weight item \<ge> half then Some (wv_value item)
      else weightedMedianLoop (acc + wv_weight item) half rest)"

definition weightedMedian :: "WeightedValue list \<Rightarrow> real" where
  "weightedMedian vals =
     (if vals = [] then 0
      else let sorted = sort_key wv_value vals;
               totalWeight = fold (\<lambda>item sum. sum + wv_weight item) sorted 0;
               half = totalWeight / 2
           in case weightedMedianLoop 0 half sorted of
                Some v \<Rightarrow> v
              | None \<Rightarrow> wv_value (last sorted))"

text \<open>
  The horizontal centre \<^verbatim>\<open>calculateCrop\<close> settles on for a non-empty list of
  detections: \<^verbatim>\<open>centerX\<close> after the pull towards the middle of the frame and the
  limit on the shift. The left and right ends of the faces start at \<^verbatim>\<open>Infinity\<close> and
  \<^verbatim>\<open>-Infinity\<close> and are taken over a non-empty list. The vertical quantities the
  function collects for its log do not reach the result.
\<close>

definition cropCenterX :: "real \<Rightarrow> real \<Rightarrow> FaceDetection list \<Rightarrow> real" where
  "cropCenterX videoWidth videoHeight detections =
     (let frameArea = videoWidth * videoHeight;
          strongDetections = filter (\<lambda>d. fd_score d \<ge> 0.25
                                          \<and> fd_area d \<ge> 0.008 * frameArea) detections;
          usedDetections = (if length strongDetections \<ge> 8 then strongDetections
                            else detections);
          facesLeft = fold (\<lambda>d l. if fd_x d < l then fd_x d else l)
                        (tl usedDetections) (fd_x (hd usedDetections));
          facesRight = fold (\<lambda>d r. if fd_x d + fd_width d > r then fd_x d + fd_width d else r)
                         (tl usedDetections)
                         (fd_x (hd usedDetections) + fd_width (hd usedDetections));
          centerXValues = map (\<lambda>d. \<lparr>wv_value = fd_centerX d,
                                       wv_weight = max (fd_area d) 1\<rparr>) usedDetections;
          totalWeight = fold (\<lambda>v sum. sum + wv_weight v) centerXValues 0;
          groupCenterX = (facesLeft + facesRight) / 2;
          medianCenterX = weightedMedian centerXValues;
          leftCluster = filter (\<lambda>v. wv_value v \<le> groupCenterX) centerXValues;
          rightCluster = filter (\<lambda>v. wv_value v > groupCenterX) centerXValues;
          leftWeight = fold (\<lambda>v sum. sum + wv_weight v) leftCluster 0;
          rightWeight = fold (\<lambda>v sum. sum + wv_weight v) rightCluster 0;
          hasTwoSides = (totalWeight > 0 \<and> leftWeight / totalWeight \<ge> 0.18
                           \<and> rightWeight / totalWeight \<ge> 0.18);
          centerFromFaces =
            (if hasTwoSides \<and> leftCluster \<noteq> [] \<and> rightCluster \<noteq> []
             then (weightedMedian leftCluster + weightedMedian rightCluster) / 2 * 0.8
                  + medianCenterX * 0.2
             else groupCenterX * 0.6 + medianCenterX * 0.4);
          videoCenterX = videoWidth / 2;
          centerX0 = centerFromFaces * (1 - 0.1) + videoCenterX * 0.1;
          maxShift = videoWidth * 0.22;
          minCenter = videoCenterX - maxShift;
          maxCenter = videoCenterX + maxShift;
          centerX1 = (if centerX0 < minCenter then minCenter else centerX0)
      in if centerX1 > maxCenter then maxCenter else centerX1)"

text \<open>
  \<^verbatim>\<open>calculateCrop\<close>. The crop width is \<^verbatim>\<open>Math.round(videoHeight * 9 / 16)\<close>,
  capped by the video width; the crop is then placed around the centre and moved back
  inside the frame.
\<close>

definition calculateCrop :: "real \<Rightarrow> real \<Rightarrow> FaceDetection list \<Rightarrow> CropInfo" where
  "calculateCrop videoWidth videoHeight detections =
     (let maxCropHeight = videoHeight;
          maxCropWidth0 = Math_round (maxCropHeight * 9 / 16);
          maxCropWidth = (if maxCropWidth0 > videoWidth then videoWidth else maxCropWidth0)
      in if detections = []
         then \<lparr>ci_cropX = max 0 (Math_floor ((videoWidth - maxCropWidth) / 2)), ci_cropY = 0,
               ci_cropWidth = maxCropWidth, ci_cropHeight = maxCropHeight,
               ci_videoWidth = videoWidth, ci_videoHeight = videoHeight\<rparr>
         else
           let centerX = cropCenterX videoWidth videoHeight detections;
               cropHeight = maxCropHeight;
               cropWidth = maxCropWidth;
               cropX0 = Math_round (centerX - cropWidth / 2);
               cropX1 = (if cropX0 < 0 then 0 else cropX0);
               cropX = (if cropX1 + cropWidth > videoWidth then videoWidth - cropWidth else cropX1);
               cropY = (if 0 + cropHeight > videoHeight then videoHeight - cropHeight else 0)
           in \<lparr>ci_cropX = cropX, ci_cropY = cropY, ci_cropWidth = cropWidth,
               ci_cropHeight = cropHeight, ci_videoWidth = videoWidth,
               ci_videoHeight = videoHeight\<rparr>)"

subsection \<open>\<^verbatim>\<open>computeGlobalStaticCrop\<close>\<close>

text \<open>\<^verbatim>\<open>interface FrameDetections\<close>.\<close>

record FrameDetections =
  fr_index :: nat
  fr_time :: real
  fr_detections :: "FaceDetection list"

text \<open>
  The usable part of the video, \<^verbatim>\<open>usableStart\<close> and \<^verbatim>\<open>usableDuration\<close>;
  \<open>skipUntilSec\<close> is \<^verbatim>\<open>options?.skipUntilSec\<close>.
\<close>

definition usableRange :: "real \<Rightarrow> real option \<Rightarrow> real \<times> real" where
  "usableRange videoDurationSec skipUntilSec =
     (let sampleDurationSec = 15;
          skipUntil = max 0 (case skipUntilSec of None \<Rightarrow> 0 | Some v \<Rightarrow> v);
          defaultStart = videoDurationSec * 0.1;
          defaultEnd = videoDurationSec * 0.9;
          usableStart0 = max skipUntil defaultStart;
          usableStart = (if usableStart0 > videoDurationSec - sampleDurationSec
                         then max 0 (videoDurationSec - sampleDurationSec) else usableStart0);
          usableEnd = (if defaultEnd < usableStart + sampleDurationSec
                       then min videoDurationSec (usableStart + sampleDurationSec)
                       else defaultEnd);
          usableDuration = max sampleDurationSec (usableEnd - usableStart)
      in (usableStart, usableDuration))"

definition numSamples :: "real \<Rightarrow> real option \<Rightarrow> real" where
  "numSamples videoDurationSec skipUntilSec =
     (case usableRange videoDurationSec skipUntilSec of
        (usableStart, usableDuration) \<Rightarrow> min 6 (max 3 (Math_floor (usableDuration / 15))))"

text \<open>The window sampled in round \<open>i\<close>: its start and the duration handed to the sampler.\<close>

definition sampleWindow :: "real \<Rightarrow> real option \<Rightarrow> nat \<Rightarrow> real \<times> real" where
  "sampleWindow videoDurationSec skipUntilSec i =
     (case usableRange videoDurationSec skipUntilSec of
        (usableStart, usableDuration) \<Rightarrow>
          let sampleDurationSec = 15;
              n = numSamples videoDurationSec skipUntilSec;
              t = (if n = 1 then usableStart + (usableDuration - sampleDurationSec) / 2
                   else usableStart + (real i * (usableDuration - sampleDurationSec)) / (n - 1));
              sampleStart = max 0 (min t (videoDurationSec - sampleDurationSec));
              sampleEnd = min (sampleStart + sampleDurationSec) videoDurationSec
          in (sampleStart, min (sampleEnd - sampleStart) sampleDurationSec))"

text \<open>
  One round of the sampling loop. \<open>detect start duration fps\<close> is the outcome of
  \<^verbatim>\<open>detectFacesTimeline\<close> on a window: the frames with their detections, or the error
  it throws. The \<^verbatim>\<open>catch\<close> of the round logs the error and goes on, so a window that
  fails adds nothing to \<^verbatim>\<open>allDetections\<close>.
\<close>

definition sampleStep ::
  "env \<Rightarrow> (real \<Rightarrow> real \<Rightarrow> real \<Rightarrow> error + FrameDetections list) \<Rightarrow> real \<Rightarrow> real option \<Rightarrow> nat
     \<Rightarrow> FaceDetection list \<Rightarrow> FaceDetection list" where
  "sampleStep e detect videoDurationSec skipUntilSec i allDetections =
     (case sampleWindow videoDurationSec skipUntilSec i of
        (sampleStart, duration) \<Rightarrow>
          (case detect sampleStart duration (DEFAULT_SAMPLE_FPS e) of
             Inl err \<Rightarrow> allDetections
           | Inr frames \<Rightarrow> fold (\<lambda>frame all. all @ fr_detections frame) frames allDetections))"

text \<open>
  \<open>init\<close> is the outcome of \<^verbatim>\<open>initializeFaceDetection\<close>, which loads the detector
  models before any sampling: \<open>None\<close> when it returns, the error when it throws.
\<close>

definition computeGlobalStaticCrop ::
  "env \<Rightarrow> error option \<Rightarrow> (real \<Rightarrow> real \<Rightarrow> real \<Rightarrow> error + FrameDetections list) \<Rightarrow> real
     \<Rightarrow> real \<Rightarrow> real \<Rightarrow> real option \<Rightarrow> error + GlobalCrop option" where
  "computeGlobalStaticCrop e init detect videoDurationSec baseW baseH skipUntilSec =
     (case init of
        Some err \<Rightarrow> Inl err
      | None \<Rightarrow>
          let allDetections = fold (sampleStep e detect videoDurationSec skipUntilSec)
                                [0..<nat \<lceil>numSamples videoDurationSec skipUntilSec\<rceil>] [];
              minDetectionsRequired = 50
          in if length allDetections < minDetectionsRequired then Inr None
             else
               let cropResult = calculateCrop baseW baseH allDetections;
                   finalCropW = Math_floor (ci_cropWidth cropResult / 2) * 2;
                   zMinWidth = finalCropW / baseW;
                   zMinHeight = 1;
                   zMin = max zMinWidth (max zMinHeight 0.88)
               in Inr (Some \<lparr>gc_cropX = ci_cropX cropResult, gc_cropY = ci_cropY cropResult,
                              gc_cropW = finalCropW, gc_cropH = ci_cropHeight cropResult,
                              gc_zMin = zMin\<rparr>))"

section \<open>\<^verbatim>\<open>computeCropMap\<close>\<close>

text \<open>
  The dynamic path, then the static path without a global crop, each inside a
  \<^verbatim>\<open>try\<close> whose \<^verbatim>\<open>catch\<close> only logs; the two calls sample the segment separately.
  The result is always a value, \<open>Inr\<close>.
\<close>

definition computeCropMap ::
  "env \<Rightarrow> error + PersonSnapshot list \<Rightarrow> error + PersonSnapshot list \<Rightarrow> ComputeInput
     \<Rightarrow> Constraints \<Rightarrow> error + CropKF option list option" where
  "computeCropMap e detectedDynamic detectedStatic input constraints =
     (case (case computeCropMapPerson e detectedDynamic input constraints of
              Inr (Some dynamicKf) \<Rightarrow> if dynamicKf \<noteq> [] then Some dynamicKf else None
            | _ \<Rightarrow> None) of
        Some dynamicKf \<Rightarrow> Inr (Some dynamicKf)
      | None \<Rightarrow>
          (case computeCropMapPersonStatic detectedStatic input constraints None of
             Inr (Some staticKf) \<Rightarrow>
               if staticKf \<noteq> [] then Inr (Some (map Some staticKf)) else Inr None
           | _ \<Rightarrow> Inr None))"

section \<open>The filter expressions\<close>

subsection \<open>Numbers in the text of an expression\<close>

text \<open>
  A number as the builders print it into an expression: \<^verbatim>\<open>String(n)\<close> of a whole number
  (\<^verbatim>\<open>Math.round(v)\<close>, a pixel dimension), or \<^verbatim>\<open>x.toFixed(f)\<close>.
\<close>

datatype literal = Whole real | Fixed nat real

text \<open>The decimal digits of a whole number that is not negative.\<close>

function showDigits :: "int \<Rightarrow> string" where
  "showDigits n = (if n < 10 then [''0123456789'' ! nat n]
                   else showDigits (n div 10) @ [''0123456789'' ! nat (n mod 10)])"
  by pat_completeness auto
termination
  by (relation "measure nat") auto

declare showDigits.simps [simp del]

definition showInt :: "int \<Rightarrow> string" where
  "showInt i = (if i < 0 then ''-'' @ showDigits (- i) else showDigits i)"

text \<open>
  \<^verbatim>\<open>x.toFixed(f)\<close> for \<open>|x| < 10\<^sup>2\<^sup>1\<close>: the sign when \<open>x < 0\<close>, then the whole number
  nearest to \<open>|x| * 10\<^sup>f\<close> (the larger on a tie) with the point before its last \<open>f\<close>
  digits; \<open>toFixedDigits\<close> is that whole number.
\<close>

definition toFixedDigits :: "nat \<Rightarrow> real \<Rightarrow> int" where
  "toFixedDigits f x = \<lfloor>\<bar>x\<bar> * 10 ^ f + 1 / 2\<rfloor>"

definition toFixed :: "nat \<Rightarrow> real \<Rightarrow> string" where
  "toFixed f x =
     (let s = showDigits (toFixedDigits f x);
          padded = replicate (f + 1 - length s) CHR ''0'' @ s;
          k = length padded - f
      in (if x < 0 then ''-'' else '''') @ take k padded
         @ (if f = 0 then '''' else ''.'' @ drop k padded))"

definition literalText :: "literal \<Rightarrow> string" where
  "literalText l = (case l of Whole v \<Rightarrow> showInt \<lfloor>v\<rfloor> | Fixed f x \<Rightarrow> toFixed f x)"

text \<open>The number a printed literal denotes when the expression is read back.\<close>

definition literalValue :: "literal \<Rightarrow> real" where
  "literalValue l =
     (case l of
        Whole v \<Rightarrow> of_int \<lfloor>v\<rfloor>
      | Fixed f x \<Rightarrow> (if x < 0 then - 1 else 1) * of_int (toFixedDigits f x) / 10 ^ f)"

subsection \<open>Expressions, their text and their value\<close>

text \<open>
  The summands the builders emit: \<^verbatim>\<open>lt(t,T)*V\<close>,
  \<^verbatim>\<open>between(t,Ta,Tb)*(V+(S)*(t-Ta))\<close> and \<^verbatim>\<open>gte(t,T)*V\<close>; an expression is a single
  constant or the summands joined by \<^verbatim>\<open>+\<close>.
\<close>

datatype part = LtPart literal literal
  | BetweenPart literal literal literal literal
  | GtePart literal literal

datatype expr = Constant literal | Parts "part list"

definition partText :: "part \<Rightarrow> string" where
  "partText p =
     (case p of
        LtPart T V \<Rightarrow> ''lt(t,'' @ literalText T @ '')*'' @ literalText V
      | BetweenPart Ta Tb V S \<Rightarrow>
          ''between(t,'' @ literalText Ta @ '','' @ literalText Tb @ '')*('' @ literalText V
            @ ''+('' @ literalText S @ '')*(t-'' @ literalText Ta @ ''))''
      | GtePart T V \<Rightarrow> ''gte(t,'' @ literalText T @ '')*'' @ literalText V)"

text \<open>\<^verbatim>\<open>parts.join(sep)\<close>.\<close>

fun join :: "string \<Rightarrow> string list \<Rightarrow> string" where
  "join sep [] = ''''"
| "join sep [s] = s"
| "join sep (s # r # rest) = s @ sep @ join sep (r # rest)"

definition exprText :: "expr \<Rightarrow> string" where
  "exprText e = (case e of Constant v \<Rightarrow> literalText v
                          | Parts ps \<Rightarrow> join ''+'' (map partText ps))"

text \<open>
  The value of an expression at time \<open>t\<close> as FFmpeg evaluates it: \<^verbatim>\<open>lt(t,T)\<close> is 1 when
  \<open>t < T\<close>, \<^verbatim>\<open>between(t,a,b)\<close> is 1 when \<open>a \<le> t \<le> b\<close>, \<^verbatim>\<open>gte(t,T)\<close> is 1 when
  \<open>t \<ge> T\<close>, and 0 otherwise.
\<close>

definition partValue :: "part \<Rightarrow> real \<Rightarrow> real" where
  "partValue p t =
     (case p of
        LtPart T V \<Rightarrow> (if t < literalValue T then 1 else 0) * literalValue V
      | BetweenPart Ta Tb V S \<Rightarrow>
          (if literalValue Ta \<le> t \<and> t \<le> literalValue Tb then 1 else 0)
            * (literalValue V + literalValue S * (t - literalValue Ta))
      | GtePart T V \<Rightarrow> (if t \<ge> literalValue T then 1 else 0) * literalValue V)"

definition exprValue :: "expr \<Rightarrow> real \<Rightarrow> real" where
  "exprValue e t = (case e of Constant v \<Rightarrow> literalValue v
                             | Parts ps \<Rightarrow> sum_list (map (\<lambda>p. partValue p t) ps))"

subsection \<open>\<^verbatim>\<open>buildPiecewiseExpr\<close> and \<^verbatim>\<open>buildCropDimensionExpr\<close>\<close>

text \<open>
  The summands for a non-empty keyframe list; \<open>values\<close> are the numbers interpolated and
  \<open>heads\<close> what is printed for them at the start of a piece.
\<close>

definition piecewiseParts :: "CropKF list \<Rightarrow> real list \<Rightarrow> real list \<Rightarrow> part list" where
  "piecewiseParts kf values heads =
     [LtPart (Fixed 3 (kf_t (kf ! 0))) (Whole (heads ! 0))]
     @ map (\<lambda>i. let a = kf ! i; b = kf ! (i + 1);
                     ta = kf_t a; tb = kf_t b;
                     va = values ! i; vb = values ! (i + 1);
                     slope = (vb - va) / max 0.001 (tb - ta)
                 in BetweenPart (Fixed 3 ta) (Fixed 3 tb) (Whole (heads ! i)) (Fixed 6 slope))
           [0..<length kf - 1]
     @ [GtePart (Fixed 3 (kf_t (kf ! (length kf - 1)))) (Whole (heads ! (length heads - 1)))]"

datatype cropKey = KeyX | KeyY | KeyXs | KeyYs

definition keyValue :: "cropKey \<Rightarrow> CropKF \<Rightarrow> real" where
  "keyValue key k = (case key of KeyX \<Rightarrow> kf_x k | KeyY \<Rightarrow> kf_y k | KeyXs \<Rightarrow> kf_xs k
                               | KeyYs \<Rightarrow> kf_ys k)"

definition buildPiecewiseExpr :: "CropKF list \<Rightarrow> cropKey \<Rightarrow> expr" where
  "buildPiecewiseExpr kf key =
     (if kf = [] then Constant (Whole 0)
      else
        let values = map (keyValue key) kf;
            minVal = fold min (tl values) (hd values);
            maxVal = fold max (tl values) (hd values);
            isConstant = (maxVal - minVal < 1)
        in if isConstant then Constant (Whole (Math_round (values ! 0)))
           else Parts (piecewiseParts kf values (map Math_round values)))"

definition buildCropDimensionExpr :: "CropKF list \<Rightarrow> real \<Rightarrow> expr" where
  "buildCropDimensionExpr kf baseDim =
     (if kf = [] then Constant (Whole baseDim)
      else
        let dimensions = map (\<lambda>k. Math_round (baseDim / kf_z k)) kf;
            minDim = fold min (tl dimensions) (hd dimensions);
            maxDim = fold max (tl dimensions) (hd dimensions);
            isConstant = (maxDim - minDim < 1)
        in if isConstant then Constant (Whole (dimensions ! 0))
           else Parts (piecewiseParts kf (map (\<lambda>k. baseDim / kf_z k) kf) dimensions))"

subsection \<open>\<^verbatim>\<open>buildFFmpegFilter\<close>\<close>

text \<open>What the validation loop of \<^verbatim>\<open>buildFFmpegFilter\<close> flags in one keyframe.\<close>

definition invalidCrop :: "real \<Rightarrow> real \<Rightarrow> CropKF \<Rightarrow> bool" where
  "invalidCrop baseW baseH k =
     (let targetW = Math_floor (baseH * 9 / 16);
          evenTargetW = Math_floor (targetW / 2) * 2;
          cropW = Math_round (evenTargetW / kf_z k);
          cropH = Math_round (baseH / kf_z k)
      in (cropW > baseW \<or> cropH > baseH)
         \<or> (kf_x k < 0 \<or> kf_y k < 0 \<or> kf_x k + cropW > baseW \<or> kf_y k + cropH > baseH))"

text \<open>The filter text, \<^verbatim>\<open>fullFilter\<close>.\<close>

definition fullFilter :: "int \<Rightarrow> int \<Rightarrow> CropKF list \<Rightarrow> string" where
  "fullFilter baseW baseH kf =
     (let targetW = Math_floor (of_int baseH * 9 / 16);
          evenTargetW = Math_floor (targetW / 2) * 2;
          xExpr = exprText (buildPiecewiseExpr kf KeyX);
          yExpr = exprText (buildPiecewiseExpr kf KeyY);
          cropWExpr = exprText (buildCropDimensionExpr kf evenTargetW);
          cropHExpr = exprText (buildCropDimensionExpr kf (of_int baseH));
          crop = ''crop='' @ [CHR 0x27] @ cropWExpr @ [CHR 0x27] @ '':'' @ [CHR 0x27] @ cropHExpr
                   @ [CHR 0x27] @ '':'' @ [CHR 0x27] @ xExpr @ [CHR 0x27] @ '':'' @ [CHR 0x27]
                   @ yExpr @ [CHR 0x27];
          scale = ''scale='' @ showInt \<lfloor>evenTargetW\<rfloor> @ '':'' @ showInt baseH @ '':eval=frame'';
          fmt = ''format=yuv420p''
      in join '','' [crop, scale, fmt])"

definition buildFFmpegFilter :: "int \<Rightarrow> int \<Rightarrow> CropKF list \<Rightarrow> error + string" where
  "buildFFmpegFilter baseW baseH kf =
     (let hasInvalidCrop = list_ex (invalidCrop (of_int baseW) (of_int baseH)) (take 5 kf)
      in if hasInvalidCrop then Inl InvalidCropParameters
         else let filterLength = length (fullFilter baseW baseH kf)
              in if filterLength > 65536 then Inl FilterTooLong
                 else Inr (fullFilter baseW baseH kf))"

section \<open>Notions for the tracker's matching\<close>

text \<open>The detections taken by the tracks that come before track \<open>ti\<close> in the list.\<close>

definition usedBefore :: "Match list \<Rightarrow> nat \<Rightarrow> nat set" where
  "usedBefore ms ti = m_di ` {m \<in> set ms. m_ti m < ti}"

text \<open>What the inner loop has found after the first \<open>k\<close> detections.\<close>

definition bestSpec :: "Track \<Rightarrow> PersonDet list \<Rightarrow> nat set \<Rightarrow> nat \<Rightarrow> int \<times> real \<Rightarrow> bool" where
  "bestSpec p dets usedD k = (\<lambda>(bi, bv).
     (bi = - 1 \<and> bv = 0 \<or>
      0 \<le> bi \<and> nat bi < k \<and> nat bi \<notin> usedD \<and> bv = iouTrackDet p (dets ! nat bi) \<and> 0 < bv)
     \<and> (\<forall>di<k. di \<notin> usedD \<longrightarrow> iouTrackDet p (dets ! di) \<le> bv))"

text \<open>What holds of \<^verbatim>\<open>matches\<close>, \<^verbatim>\<open>usedD\<close> and \<^verbatim>\<open>usedT\<close> after the first \<open>k\<close> tracks.\<close>

definition matchInv ::
  "env \<Rightarrow> Track list \<Rightarrow> PersonDet list \<Rightarrow> nat \<Rightarrow> Match list \<times> nat set \<times> nat set \<Rightarrow> bool" where
  "matchInv e P dets k = (\<lambda>(ms, usedD, usedT).
     usedT = m_ti ` set ms \<and> usedD = m_di ` set ms
     \<and> distinct (map m_ti ms) \<and> distinct (map m_di ms)
     \<and> (\<forall>m\<in>set ms. m_ti m < k \<and> m_di m < length dets
            \<and> m_iou m = iouTrackDet (P ! m_ti m) (dets ! m_di m)
            \<and> TRACK_IOU_THRESH e \<le> m_iou m \<and> 0 < m_iou m
            \<and> m_di m \<notin> usedBefore ms (m_ti m)
            \<and> (\<forall>di<length dets. di \<notin> usedBefore ms (m_ti m)
                   \<longrightarrow> iouTrackDet (P ! m_ti m) (dets ! di) \<le> m_iou m))
     \<and> (\<forall>ti<k. ti \<notin> usedT \<longrightarrow>
           (\<forall>di<length dets. di \<notin> usedBefore ms ti \<longrightarrow>
              \<not> (TRACK_IOU_THRESH e \<le> iouTrackDet (P ! ti) (dets ! di)
                   \<and> 0 < iouTrackDet (P ! ti) (dets ! di)))))"

text \<open>The array \<^verbatim>\<open>predicted\<close> of \<^verbatim>\<open>associateAndUpdate\<close>.\<close>

definition predictedTracks :: "Track list \<Rightarrow> real \<Rightarrow> real \<Rightarrow> real \<Rightarrow> Track list" where
  "predictedTracks prev t baseW baseH = map (predictTrack t baseW baseH) prev"

text \<open>The array \<^verbatim>\<open>matches\<close> of \<^verbatim>\<open>associateAndUpdate\<close>.\<close>

definition matchesOf ::
  "env \<Rightarrow> Track list \<Rightarrow> PersonDet list \<Rightarrow> real \<Rightarrow> real \<Rightarrow> real \<Rightarrow> Match list" where
  "matchesOf e prev dets t baseW baseH =
     fst (matchTracks e (predictedTracks prev t baseW baseH) dets)"

section \<open>Notions for the dynamic path\<close>

text \<open>A keyframe whose zoom lies between two bounds.\<close>

definition zBetween :: "real \<Rightarrow> real \<Rightarrow> CropKF \<Rightarrow> bool" where
  "zBetween lo hi k \<longleftrightarrow> lo \<le> kf_z k \<and> kf_z k \<le> hi"

text \<open>The target width of \<^verbatim>\<open>applyScaledCoords\<close> on integer dimensions, an integer.\<close>

definition scaledTargetW :: "int \<Rightarrow> int \<Rightarrow> int" where
  "scaledTargetW bw bh = min (bh * 9 div 16) bw"

section \<open>Sample inputs\<close>

text \<open>
  Keyframes every sixth of a second on a 1920 by 1080 source, as the 12 frames per second
  sampling leaves them after \<^verbatim>\<open>dedupeByTime(withScaled, 0.1)\<close>; 121 of them cover
  a 20 second segment.
\<close>

definition sampleKF :: "nat \<Rightarrow> CropKF" where
  "sampleKF i = \<lparr>kf_t = real i / 6, kf_x = 656, kf_y = 0, kf_w = 607, kf_h = 1080, kf_z = 1,
     kf_xs = 0, kf_ys = 0\<rparr>"

definition keyframes121 :: "CropKF list" where
  "keyframes121 = map sampleKF [0..<121]"

text \<open>The environment with no tunable set.\<close>

definition defaultEnv :: env where
  "defaultEnv = \<lparr>env_FRAMING_SAMPLE_FPS = None, env_TRACK_IOU_THRESH = None, env_TRACK_MAX_AGE_S = None,
     env_TRACK_MIN_HITS = None, env_TRACK_MIN_AREA = None, env_FRAMING_SMOOTH_ALPHA = None,
     env_FRAMING_DEADZONE_X = None, env_FRAMING_DEADZONE_Y = None,
     env_FRAMING_MAX_ACCEL = None, env_FRAMING_GLOB_LAMBDA_V = None,
     env_FRAMING_GLOB_LAMBDA_A = None, env_FRAMING_GLOB_ITERS = None,
     env_FRAMING_GLOB_LR = None, env_FRAMING_Z_MIN = None, env_FRAMING_Z_DECAY = None\<rparr>"

definition mkTrack :: "nat \<Rightarrow> real \<Rightarrow> real \<Rightarrow> real \<Rightarrow> Track" where
  "mkTrack i x hits miss = \<lparr>tr_id = i, tr_x = x, tr_y = 100, tr_w = 200, tr_h = 400,
     tr_score = 0.9, tr_vx = 0, tr_vy = 0, tr_lastT = 0, tr_age = 1, tr_hits = hits,
     tr_miss = miss\<rparr>"

definition mkDet :: "real \<Rightarrow> real \<Rightarrow> real \<Rightarrow> real \<Rightarrow> PersonDet" where
  "mkDet x y w h = \<lparr>det_x = x, det_y = y, det_w = w, det_h = h, det_score = 0.8,
     det_id = None, det_detectorType = Some DetFace\<rparr>"

text \<open>
  A tracker state on a 1920 by 1080 source, last updated at time 0: a track moving right
  at 50 pixels a second, a track already missed for 0.75 s and a track missed for 0.3 s;
  and three detections at time 0.1, the first close to where the first track is expected,
  the other two away from every track.
\<close>

definition tracksMoving :: "Track list" where
  "tracksMoving = [(mkTrack 1 100 5 0)\<lparr>tr_vx := 50\<rparr>, mkTrack 2 1000 3 0.75,
                   mkTrack 3 1400 4 0.3]"

definition dets3 :: "PersonDet list" where
  "dets3 = [mkDet 110 100 200 400, mkDet 600 200 100 200, mkDet 1700 200 100 200]"

text \<open>
  Two tracks and one detection at time 0.1: the first track, matched in the frame before,
  stands half a box to the right of the detection; the second, missed for 0.75 s, stands
  exactly where the detection is.
\<close>

definition tracksContended :: "Track list" where
  "tracksContended = [mkTrack 1 150 5 0, mkTrack 2 100 3 0.75]"

definition dets1 :: "PersonDet list" where
  "dets1 = [mkDet 100 100 200 400]"

text \<open>A detection of the face detector with score 0.9, and segments sampled four times a second: one with the same face in three frames, one without any detection.\<close>

definition face :: "real \<Rightarrow> real \<Rightarrow> real \<Rightarrow> real \<Rightarrow> PersonDet" where
  "face x y w h = \<lparr>det_x = x, det_y = y, det_w = w, det_h = h, det_score = 0.9,
     det_id = None, det_detectorType = Some DetFace\<rparr>"

definition snaps3 :: "PersonSnapshot list" where
  "snaps3 = [\<lparr>snap_t = 0, snap_dets = [face 440 500 200 200]\<rparr>,
             \<lparr>snap_t = 0.25, snap_dets = [face 440 500 200 200]\<rparr>,
             \<lparr>snap_t = 0.5, snap_dets = [face 440 500 200 200]\<rparr>]"

definition emptySnaps :: "PersonSnapshot list" where
  "emptySnaps = [\<lparr>snap_t = 0, snap_dets = []\<rparr>, \<lparr>snap_t = 0.25, snap_dets = []\<rparr>]"

text \<open>The constraints the worker passes, \<^verbatim>\<open>framingConstraints\<close> of \<^verbatim>\<open>src/src/worker.ts\<close>, and a 20 second segment without transcript on a source of given dimensions.\<close>

definition workerConstraints :: Constraints where
  "workerConstraints = \<lparr>c_margin = 0.02, c_maxPan = 400, c_easeMs = 600, c_centerBiasX = 0.75,
     c_centerBiasY = 0.15, c_safeTop = 0.05, c_safeBottom = 0.1\<rparr>"

definition inputOf :: "int \<Rightarrow> int \<Rightarrow> ComputeInput" where
  "inputOf bw bh = \<lparr>in_videoPath = ''video.mp4'', in_baseW = bw, in_baseH = bh, in_segStart = 0,
     in_segEnd = 20, in_transcript = []\<rparr>"

text \<open>Two sampled frames, 0.25 s apart, with the same face of 200 by 200 at (440, 500).\<close>

definition snaps2 :: "PersonSnapshot list" where
  "snaps2 = [\<lparr>snap_t = 0, snap_dets = [face 440 500 200 200]\<rparr>,
             \<lparr>snap_t = 0.25, snap_dets = [face 440 500 200 200]\<rparr>]"

text \<open>The detections of the window sampled in round \<open>i\<close>: those of its frames in order, none
  when the sampling of the window throws.\<close>

definition windowDetections ::
  "env \<Rightarrow> (real \<Rightarrow> real \<Rightarrow> real \<Rightarrow> error + FrameDetections list) \<Rightarrow> real \<Rightarrow> real option \<Rightarrow> nat
     \<Rightarrow> FaceDetection list" where
  "windowDetections e detect videoDurationSec skipUntilSec i =
     (case sampleWindow videoDurationSec skipUntilSec i of
        (sampleStart, duration) \<Rightarrow>
          (case detect sampleStart duration (DEFAULT_SAMPLE_FPS e) of
             Inl err \<Rightarrow> []
           | Inr frames \<Rightarrow> concat (map fr_detections frames)))"

text \<open>The pool of detections over all sampled windows.\<close>

definition detectionPool ::
  "env \<Rightarrow> (real \<Rightarrow> real \<Rightarrow> real \<Rightarrow> error + FrameDetections list) \<Rightarrow> real \<Rightarrow> real option
     \<Rightarrow> FaceDetection list" where
  "detectionPool e detect videoDurationSec skipUntilSec =
     concat (map (windowDetections e detect videoDurationSec skipUntilSec)
               [0..<nat \<lceil>numSamples videoDurationSec skipUntilSec\<rceil>])"

text \<open>A face detection of 200 by 200 centred at x = 1600 on a 1920 by 1080 source.\<close>

definition face1600 :: FaceDetection where
  "face1600 = \<lparr>fd_x = 1500, fd_y = 300, fd_width = 200, fd_height = 200, fd_centerX = 1600,
     fd_centerY = 400, fd_score = 0.9, fd_area = 40000\<rparr>"

text \<open>A sampler that fails on the window starting at 26.25 s and elsewhere returns 15 frames,
  each with the face centred at x = 1600.\<close>

definition detectOneFailing :: "real \<Rightarrow> real \<Rightarrow> real \<Rightarrow> error + FrameDetections list" where
  "detectOneFailing sampleStart duration fps =
     (if sampleStart = 26.25 then Inl DetectionFailed
      else Inr (map (\<lambda>i. \<lparr>fr_index = i, fr_time = sampleStart + real i / fps,
                            fr_detections = [face1600]\<rparr>) [0..<15]))"

text \<open>A segment with one sampled frame holding one person detection centred at x = 1600.\<close>

definition snaps1600 :: "PersonSnapshot list" where
  "snaps1600 = [\<lparr>snap_t = 0, snap_dets = [face 1500 300 200 200]\<rparr>]"

text \<open>
  Keyframes for a 1920 by 1080 source (target width 606) at a given time, x and zoom, and
  four lists of them: a pan to the right while zooming in; five keyframes standing still
  followed by one whose crop leaves the source on the right; two keyframes standing still
  followed by such a one; and two keyframes standing still.
\<close>

definition kfAt :: "real \<Rightarrow> real \<Rightarrow> real \<Rightarrow> CropKF" where
  "kfAt t x z = \<lparr>kf_t = t, kf_x = x, kf_y = 0, kf_w = Math_round (606 / z),
     kf_h = Math_round (1080 / z), kf_z = z, kf_xs = 0, kf_ys = 0\<rparr>"

definition panning3 :: "CropKF list" where
  "panning3 = [kfAt 0 0 1, kfAt 1 100 1.2, kfAt 2 200 1.5]"

definition sixthOutside :: "CropKF list" where
  "sixthOutside = map (\<lambda>i. kfAt (real i) 656 1) [0..<5] @ [kfAt 5 1500 1]"

definition thirdOutside :: "CropKF list" where
  "thirdOutside = [kfAt 0 656 1, kfAt 1 656 1, kfAt 2 1500 1]"

definition steady2 :: "CropKF list" where
  "steady2 = [kfAt 0 656 1, kfAt 1 656 1]"

section \<open>Keyframe compression keeps the ends\<close>

lemma decimate_length:
  "2 \<le> m \<Longrightarrow> length (decimate kf m) = nat m"
  by (simp add: decimate_def Let_def)

lemma decimate_index_bounds:
  assumes n: "120 < n" and i: "1 \<le> i" "i \<le> 118"
  shows "0 \<le> \<lfloor>of_int i * real n / 119 + 1 / 2\<rfloor>"
    and "\<lfloor>of_int i * real n / 119 + 1 / 2\<rfloor> < int n"
proof -
  have pos: "0 \<le> of_int i * real n / 119 + 1 / 2"
    using i by simp
  then show "0 \<le> \<lfloor>of_int i * real n / 119 + 1 / 2\<rfloor>"
    by simp
  have "of_int i * real n \<le> 118 * real n"
    using i by (intro mult_right_mono) simp_all
  moreover have "118 * real n / 119 + 1 / 2 < real n"
    using n by simp
  ultimately have "of_int i * real n / 119 + 1 / 2 < real n"
    by linarith
  then have "of_int i * real n / 119 + 1 / 2 < of_int (int n)"
    by simp
  then show "\<lfloor>of_int i * real n / 119 + 1 / 2\<rfloor> < int n"
    by (simp only: floor_less_iff)
qed

lemma decimate_defined:
  assumes "120 < length kf"
  shows "None \<notin> set (decimate kf 120)"
proof
  assume "None \<in> set (decimate kf 120)"
  then have "js_nth kf 0 = None
      \<or> (\<exists>i. 1 \<le> i \<and> i \<le> 118
             \<and> js_nth kf \<lfloor>of_int i * real (length kf) / 119 + 1 / 2\<rfloor> = None)
      \<or> js_nth kf (int (length kf) - 1) = None"
    by (auto simp: decimate_def Let_def)
  moreover have "js_nth kf \<lfloor>of_int i * real (length kf) / 119 + 1 / 2\<rfloor> \<noteq> None"
    if "1 \<le> i" "i \<le> 118" for i
    using decimate_index_bounds [OF assms that] by (simp add: js_nth_def)
  moreover have "js_nth kf 0 \<noteq> None" "js_nth kf (int (length kf) - 1) \<noteq> None"
    using assms by (auto simp: js_nth_def)
  ultimately show False
    by blast
qed

text \<open>
  Claim C5. A keyframe list longer than the ceiling of 120 is compressed to at most 120
  keyframes (exactly 120, all of them keyframes of the input, none undefined), the first
  being the first keyframe of the input and the last its last keyframe.
\<close>

theorem compressCropMap_over_ceiling:
  assumes "120 < length kf"
  shows "length (compressCropMap kf 120) \<le> 120
       \<and> hd (compressCropMap kf 120) = Some (hd kf)
       \<and> last (compressCropMap kf 120) = Some (last kf)
       \<and> Some (hd kf) \<in> set (compressCropMap kf 120)
       \<and> Some (last kf) \<in> set (compressCropMap kf 120)
       \<and> None \<notin> set (compressCropMap kf 120)"
proof -
  have c: "compressCropMap kf 120 = decimate kf 120"
    using assms by (simp add: compressCropMap_def)
  have ne: "kf \<noteq> []"
    using assms by auto
  have first: "js_nth kf 0 = Some (hd kf)"
    using ne by (simp add: js_nth_def hd_conv_nth)
  have "nat (int (length kf) - 1) = length kf - 1"
    by simp
  then have lst: "js_nth kf (int (length kf) - 1) = Some (last kf)"
    using ne by (simp add: js_nth_def last_conv_nth)
  have "length (decimate kf 120) = 120"
    by (simp add: decimate_length)
  moreover have "hd (decimate kf 120) = Some (hd kf)"
    by (simp add: decimate_def Let_def first)
  moreover have l: "last (decimate kf 120) = Some (last kf)"
    by (simp add: decimate_def Let_def lst)
  moreover have "Some (hd kf) \<in> set (decimate kf 120)"
    by (simp add: decimate_def Let_def first)
  moreover have "Some (last kf) \<in> set (decimate kf 120)"
    by (simp add: decimate_def Let_def lst)
  ultimately show ?thesis
    using decimate_defined [OF assms] by (simp add: c)
qed

theorem compressCropMap_over_ceiling_witness:
  "120 < length keyframes121
     \<and> length (compressCropMap keyframes121 120) \<le> 120
     \<and> hd (compressCropMap keyframes121 120) = Some (sampleKF 0)
     \<and> last (compressCropMap keyframes121 120) = Some (sampleKF 120)
     \<and> None \<notin> set (compressCropMap keyframes121 120)"
proof -
  have len: "120 < length keyframes121"
    by (simp add: keyframes121_def)
  have "hd keyframes121 = sampleKF 0"
    by (simp add: keyframes121_def hd_map upt_conv_Cons)
  moreover have "last keyframes121 = sampleKF 120"
    by (simp add: keyframes121_def last_map)
  ultimately show ?thesis
    using len compressCropMap_over_ceiling [OF len] by simp
qed

section \<open>Tracker association\<close>

lemma bestDetection_prefix:
  "bestSpec p dets usedD k
     (fold (\<lambda>di (bestIdx, bestIou).
             if di \<in> usedD then (bestIdx, bestIou)
             else let iv = iouTrackDet p (dets ! di)
                  in if iv > bestIou then (int di, iv) else (bestIdx, bestIou))
          [0..<k] (- 1, 0))"
proof (induction k)
  case 0
  show ?case by (simp add: bestSpec_def)
next
  case (Suc k)
  then show ?case
    by (auto simp: bestSpec_def Let_def less_Suc_eq split: prod.splits if_splits)
qed

lemma bestDetection_spec: "bestSpec p dets usedD (length dets) (bestDetection p dets usedD)"
  unfolding bestDetection_def by (rule bestDetection_prefix)

lemma usedBefore_all: "\<forall>m\<in>set ms. m_ti m < k \<Longrightarrow> usedBefore ms k = m_di ` set ms"
  by (auto simp: usedBefore_def)

lemma usedBefore_snoc:
  "ti \<le> m_ti m \<Longrightarrow> usedBefore (ms @ [m]) ti = usedBefore ms ti"
  by (auto simp: usedBefore_def)

lemma matchStep_inv:
  assumes inv: "matchInv e P dets k st"
  shows "matchInv e P dets (Suc k) (matchStep e P dets k st)"
proof -
  obtain ms uD uT where st: "st = (ms, uD, uT)"
    by (cases st) auto
  obtain bi bv where b: "bestDetection (P ! k) dets uD = (bi, bv)"
    by (cases "bestDetection (P ! k) dets uD") auto
  from inv [unfolded st matchInv_def prod.case]
  have uT: "uT = m_ti ` set ms" and uD: "uD = m_di ` set ms"
    and dt: "distinct (map m_ti ms)" and dd: "distinct (map m_di ms)"
    and old: "\<forall>m\<in>set ms. m_ti m < k \<and> m_di m < length dets
            \<and> m_iou m = iouTrackDet (P ! m_ti m) (dets ! m_di m)
            \<and> TRACK_IOU_THRESH e \<le> m_iou m \<and> 0 < m_iou m
            \<and> m_di m \<notin> usedBefore ms (m_ti m)
            \<and> (\<forall>di<length dets. di \<notin> usedBefore ms (m_ti m)
                   \<longrightarrow> iouTrackDet (P ! m_ti m) (dets ! di) \<le> m_iou m)"
    and un: "\<forall>ti<k. ti \<notin> uT \<longrightarrow>
           (\<forall>di<length dets. di \<notin> usedBefore ms ti \<longrightarrow>
              \<not> (TRACK_IOU_THRESH e \<le> iouTrackDet (P ! ti) (dets ! di)
                   \<and> 0 < iouTrackDet (P ! ti) (dets ! di)))"
    by blast+
  have lt: "\<forall>m\<in>set ms. m_ti m < k"
    using old by blast
  have ub: "usedBefore ms k = uD"
    using usedBefore_all [OF lt] uD by simp
  have spec: "bestSpec (P ! k) dets uD (length dets) (bi, bv)"
    using bestDetection_spec [of "P ! k" dets uD] b by simp
  show ?thesis
  proof (cases "bi \<ge> 0 \<and> bv \<ge> TRACK_IOU_THRESH e")
    case False
    then have step: "matchStep e P dets k (ms, uD, uT) = (ms, uD, uT)"
      by (auto simp: matchStep_def b)
    have "\<forall>di<length dets. di \<notin> usedBefore ms k \<longrightarrow>
              \<not> (TRACK_IOU_THRESH e \<le> iouTrackDet (P ! k) (dets ! di)
                   \<and> 0 < iouTrackDet (P ! k) (dets ! di))"
      using spec False unfolding ub bestSpec_def by fastforce
    moreover have "k \<notin> uT"
      using lt uT by auto
    ultimately have "matchInv e P dets (Suc k) (ms, uD, uT)"
      unfolding matchInv_def using uT uD dt dd old un
      by (auto simp: less_Suc_eq)
    then show ?thesis
      unfolding st step .
  next
    case True
    define m where "m = \<lparr>m_ti = k, m_di = nat bi, m_iou = bv\<rparr>"
    have m: "m_ti m = k" "m_di m = nat bi" "m_iou m = bv"
      by (simp_all add: m_def)
    have step: "matchStep e P dets k (ms, uD, uT)
        = (ms @ [m], insert (m_di m) uD, insert (m_ti m) uT)"
      using True by (simp add: matchStep_def b m_def)
    from spec True have bi: "nat bi < length dets" "nat bi \<notin> uD"
      and bv: "bv = iouTrackDet (P ! k) (dets ! nat bi)" "0 < bv"
      and best: "\<forall>di<length dets. di \<notin> uD \<longrightarrow> iouTrackDet (P ! k) (dets ! di) \<le> bv"
      by (auto simp: bestSpec_def)
    have ub_old: "usedBefore (ms @ [m]) ti = usedBefore ms ti" if "ti \<le> k" for ti
      using that by (simp add: usedBefore_snoc m)
    have ub_new: "usedBefore (ms @ [m]) k = uD"
      using ub ub_old [of k] by simp
    have k_new: "m_ti m \<notin> m_ti ` set ms"
      using lt m by auto
    have d_new: "m_di m \<notin> m_di ` set ms"
      using bi uD m by simp
    have new: "m_ti m < Suc k \<and> m_di m < length dets
            \<and> m_iou m = iouTrackDet (P ! m_ti m) (dets ! m_di m)
            \<and> TRACK_IOU_THRESH e \<le> m_iou m \<and> 0 < m_iou m
            \<and> m_di m \<notin> usedBefore (ms @ [m]) (m_ti m)
            \<and> (\<forall>di<length dets. di \<notin> usedBefore (ms @ [m]) (m_ti m)
                   \<longrightarrow> iouTrackDet (P ! m_ti m) (dets ! di) \<le> m_iou m)"
      unfolding m ub_new using bi bv best True by blast
    have old': "m_ti m' < Suc k \<and> m_di m' < length dets
            \<and> m_iou m' = iouTrackDet (P ! m_ti m') (dets ! m_di m')
            \<and> TRACK_IOU_THRESH e \<le> m_iou m' \<and> 0 < m_iou m'
            \<and> m_di m' \<notin> usedBefore (ms @ [m]) (m_ti m')
            \<and> (\<forall>di<length dets. di \<notin> usedBefore (ms @ [m]) (m_ti m')
                   \<longrightarrow> iouTrackDet (P ! m_ti m') (dets ! di) \<le> m_iou m')"
      if "m' \<in> set ms" for m'
    proof -
      have le: "m_ti m' \<le> k" "m_ti m' < Suc k"
        using lt that by auto
      show ?thesis
        unfolding ub_old [OF le(1)] using old that le(2) by blast
    qed
    have un': "\<forall>di<length dets. di \<notin> usedBefore (ms @ [m]) ti \<longrightarrow>
              \<not> (TRACK_IOU_THRESH e \<le> iouTrackDet (P ! ti) (dets ! di)
                   \<and> 0 < iouTrackDet (P ! ti) (dets ! di))"
      if "ti < Suc k" "ti \<notin> insert (m_ti m) uT" for ti
    proof -
      have lt': "ti < k" "ti \<notin> uT"
        using that m by auto
      then have "ti \<le> k"
        by simp
      show ?thesis
        unfolding ub_old [OF \<open>ti \<le> k\<close>] using un lt' by blast
    qed
    have sets: "insert (m_ti m) uT = m_ti ` set (ms @ [m])"
               "insert (m_di m) uD = m_di ` set (ms @ [m])"
      using uT uD by auto
    have dist: "distinct (map m_ti (ms @ [m]))" "distinct (map m_di (ms @ [m]))"
      using dt dd k_new d_new by simp_all
    have all: "\<forall>m'\<in>set (ms @ [m]). m_ti m' < Suc k \<and> m_di m' < length dets
            \<and> m_iou m' = iouTrackDet (P ! m_ti m') (dets ! m_di m')
            \<and> TRACK_IOU_THRESH e \<le> m_iou m' \<and> 0 < m_iou m'
            \<and> m_di m' \<notin> usedBefore (ms @ [m]) (m_ti m')
            \<and> (\<forall>di<length dets. di \<notin> usedBefore (ms @ [m]) (m_ti m')
                   \<longrightarrow> iouTrackDet (P ! m_ti m') (dets ! di) \<le> m_iou m')"
    proof
      fix m' assume "m' \<in> set (ms @ [m])"
      then consider "m' \<in> set ms" | "m' = m"
        by auto
      then show "m_ti m' < Suc k \<and> m_di m' < length dets
            \<and> m_iou m' = iouTrackDet (P ! m_ti m') (dets ! m_di m')
            \<and> TRACK_IOU_THRESH e \<le> m_iou m' \<and> 0 < m_iou m'
            \<and> m_di m' \<notin> usedBefore (ms @ [m]) (m_ti m')
            \<and> (\<forall>di<length dets. di \<notin> usedBefore (ms @ [m]) (m_ti m')
                   \<longrightarrow> iouTrackDet (P ! m_ti m') (dets ! di) \<le> m_iou m')"
      proof cases
        case 1
        then show ?thesis by (rule old')
      next
        case 2
        then show ?thesis using new by blast
      qed
    qed
    have "matchInv e P dets (Suc k) (ms @ [m], insert (m_di m) uD, insert (m_ti m) uT)"
      unfolding matchInv_def prod.case using sets dist all un' by blast
    then show ?thesis
      unfolding st step .
  qed
qed

lemma matchTracks_prefix:
  "k \<le> length P \<Longrightarrow> matchInv e P dets k (fold (matchStep e P dets) [0..<k] ([], {}, {}))"
proof (induction k)
  case 0
  show ?case by (simp add: matchInv_def)
next
  case (Suc k)
  then show ?case by (simp add: matchStep_inv)
qed

lemma matchTracks_inv: "matchInv e P dets (length P) (matchTracks e P dets)"
  unfolding matchTracks_def by (rule matchTracks_prefix) simp

lemma predictTrack_fields [simp]:
  "tr_id (predictTrack t bw bh tr) = tr_id tr"
  "tr_lastT (predictTrack t bw bh tr) = tr_lastT tr"
  "tr_miss (predictTrack t bw bh tr) = tr_miss tr"
  "tr_age (predictTrack t bw bh tr) = tr_age tr"
  "tr_hits (predictTrack t bw bh tr) = tr_hits tr"
  by (simp_all add: predictTrack_def Let_def)

lemma matchTracks_split:
  "matchTracks e P dets
     = (fst (matchTracks e P dets), m_di ` set (fst (matchTracks e P dets)),
        m_ti ` set (fst (matchTracks e P dets)))"
  using matchTracks_inv [of e P dets]
  by (cases "matchTracks e P dets") (simp add: matchInv_def)

lemma associateAndUpdate_parts:
  "associateAndUpdate e prev dets t bw bh nextId =
     (let P = predictedTracks prev t bw bh; ms = matchesOf e prev dets t bw bh
      in map (\<lambda>m. updateMatched t (P ! m_ti m) (dets ! m_di m)) ms
         @ concat (map (\<lambda>ti. if ti \<in> m_ti ` set ms then [] else keepUnmatched e t (P ! ti))
                       [0..<length P])
         @ map (\<lambda>(i, det). newTrack t i det)
             (enumerate nextId
                (map (\<lambda>di. dets ! di) (filter (\<lambda>di. di \<notin> m_di ` set ms) [0..<length dets]))))"
  unfolding associateAndUpdate_def matchesOf_def predictedTracks_def Let_def
  by (subst matchTracks_split) simp

lemma matchesOf_inv:
  "matchInv e (predictedTracks prev t bw bh) dets (length prev)
     (matchesOf e prev dets t bw bh, m_di ` set (matchesOf e prev dets t bw bh),
      m_ti ` set (matchesOf e prev dets t bw bh))"
proof -
  have "length (predictedTracks prev t bw bh) = length prev"
    by (simp add: predictedTracks_def)
  with matchTracks_inv [of e "predictedTracks prev t bw bh" dets] show ?thesis
    unfolding matchesOf_def by (subst (asm) matchTracks_split) simp
qed

lemma matched_in_output:
  assumes "m \<in> set (matchesOf e prev dets t bw bh)"
  shows "updateMatched t (predictedTracks prev t bw bh ! m_ti m) (dets ! m_di m)
           \<in> set (associateAndUpdate e prev dets t bw bh nextId)"
  using assms by (simp add: associateAndUpdate_parts Let_def)

lemma kept_in_output:
  assumes "ti < length prev" "ti \<notin> m_ti ` set (matchesOf e prev dets t bw bh)"
    and "tr_miss (prev ! ti) + max 0.001 (t - tr_lastT (prev ! ti)) \<le> TRACK_MAX_AGE_S e"
  shows "(predictedTracks prev t bw bh ! ti)
            \<lparr>tr_lastT := t,
             tr_age := tr_age (prev ! ti) + max 0.001 (t - tr_lastT (prev ! ti)),
             tr_miss := tr_miss (prev ! ti) + max 0.001 (t - tr_lastT (prev ! ti))\<rparr>
           \<in> set (associateAndUpdate e prev dets t bw bh nextId)"
proof -
  have P: "predictedTracks prev t bw bh ! ti = predictTrack t bw bh (prev ! ti)"
    using assms(1) by (simp add: predictedTracks_def)
  let ?x = "(predictedTracks prev t bw bh ! ti)
            \<lparr>tr_lastT := t,
             tr_age := tr_age (prev ! ti) + max 0.001 (t - tr_lastT (prev ! ti)),
             tr_miss := tr_miss (prev ! ti) + max 0.001 (t - tr_lastT (prev ! ti))\<rparr>"
  let ?f = "\<lambda>ti. if ti \<in> m_ti ` set (matchesOf e prev dets t bw bh) then []
                 else keepUnmatched e t (predictedTracks prev t bw bh ! ti)"
  have "keepUnmatched e t (predictedTracks prev t bw bh ! ti) = [?x]"
    using assms(3) by (simp add: keepUnmatched_def Let_def P)
  then have "?x \<in> set (?f ti)"
    using assms(2) by simp
  moreover have "ti \<in> set [0..<length (predictedTracks prev t bw bh)]"
    using assms(1) by (simp add: predictedTracks_def)
  ultimately have "?x \<in> set (concat (map ?f [0..<length (predictedTracks prev t bw bh)]))"
    unfolding set_concat set_map by blast
  then show ?thesis
    unfolding associateAndUpdate_parts Let_def by simp
qed

lemma spawned_in_output:
  assumes "di < length dets" "di \<notin> m_di ` set (matchesOf e prev dets t bw bh)"
  shows "\<exists>i\<ge>nextId. newTrack t i (dets ! di)
            \<in> set (associateAndUpdate e prev dets t bw bh nextId)"
proof -
  let ?fresh = "map (\<lambda>di. dets ! di)
      (filter (\<lambda>di. di \<notin> m_di ` set (matchesOf e prev dets t bw bh)) [0..<length dets])"
  have "dets ! di \<in> set ?fresh"
    using assms by auto
  then obtain j where j: "j < length ?fresh" "?fresh ! j = dets ! di"
    by (meson in_set_conv_nth)
  then have "(nextId + j, dets ! di) \<in> set (enumerate nextId ?fresh)"
    by (simp add: in_set_enumerate_eq)
  then have "newTrack t (nextId + j) (dets ! di)
      \<in> set (map (\<lambda>(i, det). newTrack t i det) (enumerate nextId ?fresh))"
    by force
  then have "newTrack t (nextId + j) (dets ! di)
      \<in> set (associateAndUpdate e prev dets t bw bh nextId)"
    by (simp add: associateAndUpdate_parts Let_def)
  then show ?thesis
    by (intro exI [of _ "nextId + j"]) simp
qed

lemma output_ids:
  assumes "tr \<in> set (associateAndUpdate e prev dets t bw bh nextId)"
  shows "(\<exists>m\<in>set (matchesOf e prev dets t bw bh). tr_id tr = tr_id (prev ! m_ti m))
       \<or> (\<exists>ti<length prev. ti \<notin> m_ti ` set (matchesOf e prev dets t bw bh)
             \<and> tr_miss (prev ! ti) + max 0.001 (t - tr_lastT (prev ! ti)) \<le> TRACK_MAX_AGE_S e
             \<and> tr_id tr = tr_id (prev ! ti))
       \<or> nextId \<le> tr_id tr"
proof -
  let ?P = "predictedTracks prev t bw bh" and ?ms = "matchesOf e prev dets t bw bh"
  have lt: "\<forall>m\<in>set ?ms. m_ti m < length prev"
    using matchesOf_inv [of e prev t bw bh dets] by (simp add: matchInv_def)
  from assms consider
      (matched) m where "m \<in> set ?ms" "tr = updateMatched t (?P ! m_ti m) (dets ! m_di m)"
    | (kept) ti where "ti < length ?P" "ti \<notin> m_ti ` set ?ms" "tr \<in> set (keepUnmatched e t (?P ! ti))"
    | (spawned) i det where "nextId \<le> i" "tr = newTrack t i det"
    unfolding associateAndUpdate_parts Let_def
    by (auto simp: in_set_enumerate_eq split: if_splits)
  then show ?thesis
  proof cases
    case matched
    then have "tr_id tr = tr_id (prev ! m_ti m)"
      using lt by (simp add: updateMatched_def Let_def predictedTracks_def)
    with matched show ?thesis by blast
  next
    case kept
    then have ti: "ti < length prev"
      by (simp add: predictedTracks_def)
    then have P: "?P ! ti = predictTrack t bw bh (prev ! ti)"
      by (simp add: predictedTracks_def)
    from kept(3) have "tr_miss (prev ! ti) + max 0.001 (t - tr_lastT (prev ! ti)) \<le> TRACK_MAX_AGE_S e
        \<and> tr_id tr = tr_id (prev ! ti)"
      unfolding P by (auto simp: keepUnmatched_def Let_def split: if_splits)
    with kept(2) ti show ?thesis by blast
  next
    case spawned
    then show ?thesis by (simp add: newTrack_def)
  qed
qed

lemma dropped_from_output:
  assumes d: "distinct (map tr_id prev)" and lt: "\<forall>tr\<in>set prev. tr_id tr < nextId"
    and ti: "ti < length prev" "ti \<notin> m_ti ` set (matchesOf e prev dets t bw bh)"
    and old: "tr_miss (prev ! ti) + max 0.001 (t - tr_lastT (prev ! ti)) > TRACK_MAX_AGE_S e"
  shows "tr_id (prev ! ti) \<notin> tr_id ` set (associateAndUpdate e prev dets t bw bh nextId)"
proof
  assume "tr_id (prev ! ti) \<in> tr_id ` set (associateAndUpdate e prev dets t bw bh nextId)"
  then obtain tr where tr: "tr \<in> set (associateAndUpdate e prev dets t bw bh nextId)"
    "tr_id tr = tr_id (prev ! ti)"
    by (elim imageE) simp
  have ml: "\<forall>m\<in>set (matchesOf e prev dets t bw bh). m_ti m < length prev"
    using matchesOf_inv [of e prev t bw bh dets] unfolding matchInv_def prod.case by blast
  have inj: "i = j" if "i < length prev" "j < length prev" "tr_id (prev ! i) = tr_id (prev ! j)" for i j
  proof -
    have "map tr_id prev ! i = map tr_id prev ! j"
      using that by simp
    moreover have "i < length (map tr_id prev)" "j < length (map tr_id prev)"
      using that by simp_all
    ultimately show ?thesis
      using nth_eq_iff_index_eq [OF d] by blast
  qed
  from output_ids [OF tr(1)] consider
      m where "m \<in> set (matchesOf e prev dets t bw bh)" "tr_id tr = tr_id (prev ! m_ti m)"
    | j where "j < length prev"
      "tr_miss (prev ! j) + max 0.001 (t - tr_lastT (prev ! j)) \<le> TRACK_MAX_AGE_S e"
      "tr_id tr = tr_id (prev ! j)"
    | "nextId \<le> tr_id tr"
    by blast
  then show False
  proof cases
    case 1
    have "m_ti m < length prev"
      using ml 1(1) by blast
    moreover note ti(1)
    moreover have "tr_id (prev ! m_ti m) = tr_id (prev ! ti)"
      using 1(2) tr(2) by simp
    ultimately have "m_ti m = ti"
      by (rule inj)
    with 1(1) ti(2) show False by blast
  next
    case 2
    have "tr_id (prev ! j) = tr_id (prev ! ti)"
      using 2(3) tr(2) by simp
    with 2(1) ti(1) have "j = ti"
      by (rule inj)
    with 2(2) old show False by simp
  next
    case 3
    moreover have "tr_id (prev ! ti) < nextId"
      using lt ti(1) by simp
    ultimately show False
      using tr(2) by simp
  qed
qed

text \<open>Where an index that passes a filter lands in the filtered range.\<close>

lemma filter_upt_position:
  assumes "di < n" "Q di"
  shows "length (filter Q [0..<di]) < length (filter Q [0..<n])
       \<and> filter Q [0..<n] ! length (filter Q [0..<di]) = di"
proof -
  obtain k where n: "n = di + k" and k: "0 < k"
    using assms(1) less_imp_add_positive by blast
  have "[0..<di + k] = [0..<di] @ [di..<di + k]"
    by (rule upt_add_eq_append) simp
  moreover have "[di..<di + k] = di # [Suc di..<di + k]"
    using k by (intro upt_conv_Cons) simp
  ultimately have "[0..<n] = [0..<di] @ di # [Suc di..<n]"
    unfolding n by simp
  then have "filter Q [0..<n] = filter Q [0..<di] @ di # filter Q [Suc di..<n]"
    using assms(2) by simp
  then show ?thesis
    by (simp add: nth_append)
qed

lemma spawned_position:
  assumes "di < length dets" "di \<notin> m_di ` set (matchesOf e prev dets t bw bh)"
  shows "newTrack t
           (nextId + length (filter (\<lambda>dj. dj \<notin> m_di ` set (matchesOf e prev dets t bw bh)) [0..<di]))
           (dets ! di)
         \<in> set (associateAndUpdate e prev dets t bw bh nextId)"
proof -
  let ?Q = "\<lambda>dj. dj \<notin> m_di ` set (matchesOf e prev dets t bw bh)"
  let ?fresh = "map (\<lambda>di. dets ! di) (filter ?Q [0..<length dets])"
  let ?j = "length (filter ?Q [0..<di])"
  from filter_upt_position [of di "length dets" ?Q] assms
  have j: "?j < length (filter ?Q [0..<length dets])" "filter ?Q [0..<length dets] ! ?j = di"
    by simp_all
  then have "?j < length ?fresh" "?fresh ! ?j = dets ! di"
    by simp_all
  then have "(nextId + ?j, dets ! di) \<in> set (enumerate nextId ?fresh)"
    by (simp add: in_set_enumerate_eq)
  then have "newTrack t (nextId + ?j) (dets ! di)
      \<in> set (map (\<lambda>(i, det). newTrack t i det) (enumerate nextId ?fresh))"
    by force
  then show ?thesis
    by (simp add: associateAndUpdate_parts Let_def)
qed

lemma concat_singletons:
  "\<forall>x\<in>set xs. F x = (if C x then [g x] else [])
     \<Longrightarrow> concat (map F xs) = map g (filter C xs)"
  by (induction xs) simp_all

lemma updateMatched_fields [simp]:
  "tr_id (updateMatched t tr det) = tr_id tr"
  "tr_x (updateMatched t tr det) = det_x det"
  "tr_y (updateMatched t tr det) = det_y det"
  "tr_w (updateMatched t tr det) = det_w det"
  "tr_h (updateMatched t tr det) = det_h det"
  "tr_miss (updateMatched t tr det) = 0"
  "tr_hits (updateMatched t tr det) = tr_hits tr + 1"
  "tr_lastT (updateMatched t tr det) = t"
  by (simp_all add: updateMatched_def Let_def)

text \<open>
  The ids of the result: those of the matched tracks, those of the unmatched tracks that
  are kept, then \<^verbatim>\<open>nextId\<close> and its successors for the spawned tracks.
\<close>

lemma output_ids_distinct:
  assumes d: "distinct (map tr_id prev)" and lt: "\<forall>tr\<in>set prev. tr_id tr < nextId"
  shows "distinct (map tr_id (associateAndUpdate e prev dets t bw bh nextId))"
proof -
  let ?P = "predictedTracks prev t bw bh" and ?ms = "matchesOf e prev dets t bw bh"
  let ?n = "length prev"
  let ?ids = "map tr_id prev"
  define C where "C = (\<lambda>ti. ti \<notin> m_ti ` set ?ms
      \<and> tr_miss (prev ! ti) + max 0.001 (t - tr_lastT (prev ! ti)) \<le> TRACK_MAX_AGE_S e)"
  have C: "ti \<notin> m_ti ` set ?ms" if "C ti" for ti
    using that by (simp add: C_def)
  let ?fresh = "map (\<lambda>di. dets ! di) (filter (\<lambda>di. di \<notin> m_di ` set ?ms) [0..<length dets])"
  note inv = matchesOf_inv [of e prev t bw bh dets, unfolded matchInv_def prod.case]
  have ml: "\<forall>m\<in>set ?ms. m_ti m < ?n"
    using inv by blast
  have dm: "distinct (map m_ti ?ms)"
    using inv by blast
  have len: "length ?P = ?n"
    by (simp add: predictedTracks_def)
  have P: "tr_id (?P ! ti) = ?ids ! ti" if "ti < ?n" for ti
    using that by (simp add: predictedTracks_def)
  have A: "map tr_id (map (\<lambda>m. updateMatched t (?P ! m_ti m) (dets ! m_di m)) ?ms)
      = map ((!) ?ids) (map m_ti ?ms)"
    using ml P by simp
  let ?F = "\<lambda>ti. map tr_id (if ti \<in> m_ti ` set ?ms then []
             else keepUnmatched e t (?P ! ti))"
  have "\<forall>ti\<in>set [0..<?n]. ?F ti = (if C ti then [?ids ! ti] else [])"
    by (simp add: keepUnmatched_def Let_def predictedTracks_def C_def)
  then have "concat (map ?F [0..<?n]) = map ((!) ?ids) (filter C [0..<?n])"
    by (rule concat_singletons)
  then have B: "map tr_id (concat (map (\<lambda>ti. if ti \<in> m_ti ` set ?ms then []
             else keepUnmatched e t (?P ! ti)) [0..<?n]))
      = map ((!) ?ids) (filter C [0..<?n])"
    by (simp add: map_concat comp_def)
  have S: "map tr_id (map (\<lambda>(i, det). newTrack t i det) (enumerate nextId ?fresh))
      = [nextId..<nextId + length ?fresh]"
  proof -
    have "tr_id (case p of (i, det) \<Rightarrow> newTrack t i det) = fst p" for p
      by (cases p) (simp add: newTrack_def)
    then have "map tr_id (map (\<lambda>(i, det). newTrack t i det) (enumerate nextId ?fresh))
        = map fst (enumerate nextId ?fresh)"
      by (simp only: map_map comp_def)
    then show ?thesis
      by (simp only: map_fst_enumerate)
  qed
  let ?old = "map m_ti ?ms @ filter C [0..<?n]"
  have ids: "map tr_id (associateAndUpdate e prev dets t bw bh nextId)
      = map ((!) ?ids) ?old @ [nextId..<nextId + length ?fresh]"
    unfolding associateAndUpdate_parts Let_def map_append A B S len by simp
  have old_lt: "\<forall>ti\<in>set ?old. ti < length ?ids"
    using ml by auto
  have "set (map m_ti ?ms) \<inter> set (filter C [0..<?n]) = {}"
    using C by auto
  then have "distinct ?old"
    using dm by (simp only: distinct_append distinct_filter distinct_upt simp_thms)
  moreover have "inj_on ((!) ?ids) (set ?old)"
    using d old_lt by (rule inj_on_nth)
  ultimately have d_old: "distinct (map ((!) ?ids) ?old)"
    unfolding distinct_map by (rule conjI)
  have old_prev: "?ids ! ti < nextId" if "ti \<in> set ?old" for ti
  proof -
    from old_lt that have "ti < length ?ids"
      by (rule bspec)
    then have ti: "ti < length prev"
      by (simp only: length_map)
    then have "prev ! ti \<in> set prev"
      by (rule nth_mem)
    with lt have "tr_id (prev ! ti) < nextId"
      by (rule bspec)
    with ti show ?thesis
      by simp
  qed
  have "i \<notin> set [nextId..<nextId + length ?fresh]" if "i \<in> set (map ((!) ?ids) ?old)" for i
  proof -
    from that obtain ti where "ti \<in> set ?old" "i = ?ids ! ti"
      unfolding set_map by blast
    with old_prev [of ti] show ?thesis
      by simp
  qed
  then have "set (map ((!) ?ids) ?old) \<inter> set [nextId..<nextId + length ?fresh] = {}"
    by blast
  with d_old have "distinct (map ((!) ?ids) ?old @ [nextId..<nextId + length ?fresh])"
    by (simp only: distinct_append distinct_upt simp_thms)
  then show ?thesis
    by (simp only: ids)
qed

text \<open>
  Claim C6, as the code has it. The predicted tracks are taken in list order; each takes,
  among the detections that no earlier track has taken, one of highest positive overlap
  with its predicted box, and is matched when that overlap reaches
  \<^verbatim>\<open>TRACK_IOU_THRESH\<close>. No track and no detection is in two matches. A matched track
  is pushed with its id, the box of the detection it took, one more hit and no miss; so a
  track whose predicted box overlaps, by a positive amount that reaches the threshold, a
  detection that no earlier track has taken keeps its id and gets the box of its match.
  A track without a match is pushed with its predicted box and its miss duration advanced
  while that stays at most \<^verbatim>\<open>TRACK_MAX_AGE_S\<close>; beyond it the track is dropped (its id
  is gone from the result when ids are distinct and below \<^verbatim>\<open>nextId\<close>). A detection
  without a match spawns a track with zero velocity, one hit and no miss, whose id is
  \<^verbatim>\<open>nextId\<close> plus the number of unmatched detections before it; when the ids of the
  previous tracks are distinct and below \<^verbatim>\<open>nextId\<close>, no two tracks of the result
  share an id.
\<close>

theorem associateAndUpdate_greedy:
  "distinct (map m_ti (matchesOf e prev dets t bw bh))
   \<and> distinct (map m_di (matchesOf e prev dets t bw bh))
   \<and> (\<forall>m\<in>set (matchesOf e prev dets t bw bh).
         m_ti m < length prev \<and> m_di m < length dets
         \<and> m_iou m = iouTrackDet (predictedTracks prev t bw bh ! m_ti m) (dets ! m_di m)
         \<and> TRACK_IOU_THRESH e \<le> m_iou m \<and> 0 < m_iou m
         \<and> m_di m \<notin> usedBefore (matchesOf e prev dets t bw bh) (m_ti m)
         \<and> (\<forall>di<length dets. di \<notin> usedBefore (matchesOf e prev dets t bw bh) (m_ti m)
               \<longrightarrow> iouTrackDet (predictedTracks prev t bw bh ! m_ti m) (dets ! di) \<le> m_iou m)
         \<and> updateMatched t (predictedTracks prev t bw bh ! m_ti m) (dets ! m_di m)
              \<in> set (associateAndUpdate e prev dets t bw bh nextId))
   \<and> (\<forall>ti<length prev.
         (\<exists>di<length dets. di \<notin> usedBefore (matchesOf e prev dets t bw bh) ti
             \<and> TRACK_IOU_THRESH e \<le> iouTrackDet (predictedTracks prev t bw bh ! ti) (dets ! di)
             \<and> 0 < iouTrackDet (predictedTracks prev t bw bh ! ti) (dets ! di))
         \<longrightarrow> (\<exists>m\<in>set (matchesOf e prev dets t bw bh). m_ti m = ti
               \<and> (\<exists>tr\<in>set (associateAndUpdate e prev dets t bw bh nextId).
                     tr_id tr = tr_id (prev ! ti)
                     \<and> tr_x tr = det_x (dets ! m_di m) \<and> tr_y tr = det_y (dets ! m_di m)
                     \<and> tr_w tr = det_w (dets ! m_di m) \<and> tr_h tr = det_h (dets ! m_di m)
                     \<and> tr_miss tr = 0 \<and> tr_hits tr = tr_hits (prev ! ti) + 1
                     \<and> tr_lastT tr = t)))
   \<and> (\<forall>ti<length prev.
         ti \<notin> m_ti ` set (matchesOf e prev dets t bw bh)
         \<longrightarrow> tr_miss (prev ! ti) + max 0.001 (t - tr_lastT (prev ! ti)) \<le> TRACK_MAX_AGE_S e
         \<longrightarrow> (predictedTracks prev t bw bh ! ti)
               \<lparr>tr_lastT := t,
                tr_age := tr_age (prev ! ti) + max 0.001 (t - tr_lastT (prev ! ti)),
                tr_miss := tr_miss (prev ! ti) + max 0.001 (t - tr_lastT (prev ! ti))\<rparr>
              \<in> set (associateAndUpdate e prev dets t bw bh nextId))
   \<and> (distinct (map tr_id prev) \<longrightarrow> (\<forall>tr\<in>set prev. tr_id tr < nextId)
        \<longrightarrow> (\<forall>ti<length prev.
              ti \<notin> m_ti ` set (matchesOf e prev dets t bw bh)
              \<longrightarrow> tr_miss (prev ! ti) + max 0.001 (t - tr_lastT (prev ! ti)) > TRACK_MAX_AGE_S e
              \<longrightarrow> tr_id (prev ! ti)
                    \<notin> tr_id ` set (associateAndUpdate e prev dets t bw bh nextId)))
   \<and> (\<forall>di<length dets.
         di \<notin> m_di ` set (matchesOf e prev dets t bw bh)
         \<longrightarrow> newTrack t
               (nextId + length (filter (\<lambda>dj. dj \<notin> m_di ` set (matchesOf e prev dets t bw bh))
                                   [0..<di]))
               (dets ! di)
              \<in> set (associateAndUpdate e prev dets t bw bh nextId))
   \<and> (distinct (map tr_id prev) \<longrightarrow> (\<forall>tr\<in>set prev. tr_id tr < nextId)
        \<longrightarrow> distinct (map tr_id (associateAndUpdate e prev dets t bw bh nextId)))"
proof -
  let ?P = "predictedTracks prev t bw bh" and ?ms = "matchesOf e prev dets t bw bh"
  let ?out = "associateAndUpdate e prev dets t bw bh nextId"
  note inv = matchesOf_inv [of e prev t bw bh dets, unfolded matchInv_def prod.case]
  have d: "distinct (map m_ti ?ms)" "distinct (map m_di ?ms)"
    using inv by blast+
  have ms: "\<forall>m\<in>set ?ms.
         m_ti m < length prev \<and> m_di m < length dets
         \<and> m_iou m = iouTrackDet (?P ! m_ti m) (dets ! m_di m)
         \<and> TRACK_IOU_THRESH e \<le> m_iou m \<and> 0 < m_iou m
         \<and> m_di m \<notin> usedBefore ?ms (m_ti m)
         \<and> (\<forall>di<length dets. di \<notin> usedBefore ?ms (m_ti m)
               \<longrightarrow> iouTrackDet (?P ! m_ti m) (dets ! di) \<le> m_iou m)
         \<and> updateMatched t (?P ! m_ti m) (dets ! m_di m) \<in> set ?out"
    using inv matched_in_output [of _ e prev dets t bw bh nextId] by blast
  have keep_id: "\<exists>m\<in>set ?ms. m_ti m = ti
               \<and> (\<exists>tr\<in>set ?out. tr_id tr = tr_id (prev ! ti)
                     \<and> tr_x tr = det_x (dets ! m_di m) \<and> tr_y tr = det_y (dets ! m_di m)
                     \<and> tr_w tr = det_w (dets ! m_di m) \<and> tr_h tr = det_h (dets ! m_di m)
                     \<and> tr_miss tr = 0 \<and> tr_hits tr = tr_hits (prev ! ti) + 1
                     \<and> tr_lastT tr = t)"
    if ti: "ti < length prev"
      and di: "\<exists>di<length dets. di \<notin> usedBefore ?ms ti
             \<and> TRACK_IOU_THRESH e \<le> iouTrackDet (?P ! ti) (dets ! di)
             \<and> 0 < iouTrackDet (?P ! ti) (dets ! di)" for ti
  proof -
    have "ti \<in> m_ti ` set ?ms"
      using inv ti di by blast
    then obtain m where m: "m \<in> set ?ms" "m_ti m = ti"
      by auto
    let ?tr = "updateMatched t (?P ! ti) (dets ! m_di m)"
    have out: "?tr \<in> set ?out"
      using matched_in_output [OF m(1), of nextId] m(2) by simp
    have "?P ! ti = predictTrack t bw bh (prev ! ti)"
      using ti by (simp add: predictedTracks_def)
    then have "tr_id ?tr = tr_id (prev ! ti)
                     \<and> tr_x ?tr = det_x (dets ! m_di m) \<and> tr_y ?tr = det_y (dets ! m_di m)
                     \<and> tr_w ?tr = det_w (dets ! m_di m) \<and> tr_h ?tr = det_h (dets ! m_di m)
                     \<and> tr_miss ?tr = 0 \<and> tr_hits ?tr = tr_hits (prev ! ti) + 1
                     \<and> tr_lastT ?tr = t"
      by simp
    with out m show ?thesis
      by blast
  qed
  show ?thesis
    using d ms keep_id kept_in_output [of _ prev e dets t bw bh nextId]
      dropped_from_output [of prev nextId _ e dets t bw bh]
      spawned_position [of _ dets e prev t bw bh nextId]
      output_ids_distinct [of prev nextId e dets t bw bh]
    by (intro conjI allI impI) blast+
qed

text \<open>
  The state \<open>tracksMoving\<close> with the detections \<open>dets3\<close> at time 0.1: the first track,
  expected at x = 105, takes the first detection (overlap 39/41) and comes out with id 1
  and the box of the detection at x = 110; the second track, missed for 0.85 s by then,
  is dropped; the third is kept where it was expected; the two other detections spawn
  the tracks 4 and 5.
\<close>

theorem associateAndUpdate_greedy_witness:
  "matchesOf defaultEnv tracksMoving dets3 0.1 1920 1080 = [\<lparr>m_ti = 0, m_di = 0, m_iou = 39 / 41\<rparr>]
   \<and> associateAndUpdate defaultEnv tracksMoving dets3 0.1 1920 1080 4
       = [\<lparr>tr_id = 1, tr_x = 110, tr_y = 100, tr_w = 200, tr_h = 400, tr_score = 0.8,
           tr_vx = 50, tr_vy = 0, tr_lastT = 0.1, tr_age = 1.1, tr_hits = 6, tr_miss = 0\<rparr>,
          \<lparr>tr_id = 3, tr_x = 1400, tr_y = 100, tr_w = 200, tr_h = 400, tr_score = 0.9,
           tr_vx = 0, tr_vy = 0, tr_lastT = 0.1, tr_age = 1.1, tr_hits = 4, tr_miss = 0.4\<rparr>,
          \<lparr>tr_id = 4, tr_x = 600, tr_y = 200, tr_w = 100, tr_h = 200, tr_score = 0.8,
           tr_vx = 0, tr_vy = 0, tr_lastT = 0.1, tr_age = 0, tr_hits = 1, tr_miss = 0\<rparr>,
          \<lparr>tr_id = 5, tr_x = 1700, tr_y = 200, tr_w = 100, tr_h = 200, tr_score = 0.8,
           tr_vx = 0, tr_vy = 0, tr_lastT = 0.1, tr_age = 0, tr_hits = 1, tr_miss = 0\<rparr>]
   \<and> tr_x (predictedTracks tracksMoving 0.1 1920 1080 ! 0) = 105
   \<and> distinct (map tr_id tracksMoving)
   \<and> tr_miss (tracksMoving ! 1) + max 0.001 (0.1 - tr_lastT (tracksMoving ! 1))
        > TRACK_MAX_AGE_S defaultEnv
   \<and> tr_id (tracksMoving ! 1)
        \<notin> tr_id ` set (associateAndUpdate defaultEnv tracksMoving dets3 0.1 1920 1080 4)
   \<and> newTrack 0.1 5 (dets3 ! 2)
        \<in> set (associateAndUpdate defaultEnv tracksMoving dets3 0.1 1920 1080 4)
   \<and> distinct (map tr_id (associateAndUpdate defaultEnv tracksMoving dets3 0.1 1920 1080 4))"
proof -
  have ms: "matchesOf defaultEnv tracksMoving dets3 0.1 1920 1080
      = [\<lparr>m_ti = 0, m_di = 0, m_iou = 39 / 41\<rparr>]"
    by code_simp
  have out: "associateAndUpdate defaultEnv tracksMoving dets3 0.1 1920 1080 4
       = [\<lparr>tr_id = 1, tr_x = 110, tr_y = 100, tr_w = 200, tr_h = 400, tr_score = 0.8,
           tr_vx = 50, tr_vy = 0, tr_lastT = 0.1, tr_age = 1.1, tr_hits = 6, tr_miss = 0\<rparr>,
          \<lparr>tr_id = 3, tr_x = 1400, tr_y = 100, tr_w = 200, tr_h = 400, tr_score = 0.9,
           tr_vx = 0, tr_vy = 0, tr_lastT = 0.1, tr_age = 1.1, tr_hits = 4, tr_miss = 0.4\<rparr>,
          \<lparr>tr_id = 4, tr_x = 600, tr_y = 200, tr_w = 100, tr_h = 200, tr_score = 0.8,
           tr_vx = 0, tr_vy = 0, tr_lastT = 0.1, tr_age = 0, tr_hits = 1, tr_miss = 0\<rparr>,
          \<lparr>tr_id = 5, tr_x = 1700, tr_y = 200, tr_w = 100, tr_h = 200, tr_score = 0.8,
           tr_vx = 0, tr_vy = 0, tr_lastT = 0.1, tr_age = 0, tr_hits = 1, tr_miss = 0\<rparr>]"
    by code_simp
  have px: "tr_x (predictedTracks tracksMoving 0.1 1920 1080 ! 0) = 105"
    by code_simp
  have h: "distinct (map tr_id tracksMoving)" "\<forall>tr\<in>set tracksMoving. tr_id tr < 4"
    "(1::nat) < length tracksMoving" "(2::nat) < length dets3"
    "1 \<notin> m_ti ` set (matchesOf defaultEnv tracksMoving dets3 0.1 1920 1080)"
    "2 \<notin> m_di ` set (matchesOf defaultEnv tracksMoving dets3 0.1 1920 1080)"
    "tr_miss (tracksMoving ! 1) + max 0.001 (0.1 - tr_lastT (tracksMoving ! 1))
        > TRACK_MAX_AGE_S defaultEnv"
    unfolding ms
    by (simp_all add: tracksMoving_def dets3_def mkTrack_def TRACK_MAX_AGE_S_def defaultEnv_def
        env_number_def)
  have pos: "length (filter (\<lambda>dj. dj \<notin> m_di ` set (matchesOf defaultEnv tracksMoving dets3 0.1 1920 1080))
                 [0..<2]) = 1"
    unfolding ms by (simp add: upt_rec)
  from associateAndUpdate_greedy [of defaultEnv tracksMoving dets3 "0.1" 1920 1080 4]
  have "tr_id (tracksMoving ! 1)
        \<notin> tr_id ` set (associateAndUpdate defaultEnv tracksMoving dets3 0.1 1920 1080 4)"
    and "newTrack 0.1
           (4 + length (filter (\<lambda>dj. dj \<notin> m_di ` set (matchesOf defaultEnv tracksMoving dets3 0.1 1920 1080))
                 [0..<2])) (dets3 ! 2)
          \<in> set (associateAndUpdate defaultEnv tracksMoving dets3 0.1 1920 1080 4)"
    and "distinct (map tr_id (associateAndUpdate defaultEnv tracksMoving dets3 0.1 1920 1080 4))"
    using h by blast+
  then show ?thesis
    using ms out px h(1,7) unfolding pos by simp
qed

text \<open>
  Claim C6 as it is stated fails. In the state \<open>tracksContended\<close> the pair of highest
  overlap is the second track with the detection (overlap 1), but the first track comes
  first in the list and takes the detection with an overlap of 3/5. The second track,
  although its predicted box overlaps the detection above the threshold 0.35, is left
  without a match and, missed for 0.85 s by then, is dropped: its id 2 is not in the
  result.
\<close>

theorem associateAndUpdate_best_pair_dropped:
  "iouTrackDet (predictedTracks tracksContended 0.1 1920 1080 ! 0) (dets1 ! 0) = 3 / 5
   \<and> iouTrackDet (predictedTracks tracksContended 0.1 1920 1080 ! 1) (dets1 ! 0) = 1
   \<and> TRACK_IOU_THRESH defaultEnv = 7 / 20
   \<and> matchesOf defaultEnv tracksContended dets1 0.1 1920 1080
        = [\<lparr>m_ti = 0, m_di = 0, m_iou = 3 / 5\<rparr>]
   \<and> tr_id (tracksContended ! 1) = 2
   \<and> map tr_id (associateAndUpdate defaultEnv tracksContended dets1 0.1 1920 1080 3) = [1]"
  by code_simp

section \<open>Keyframe times after deduplication and compression\<close>

text \<open>
  \<^verbatim>\<open>dedupeByTime\<close> does space its output: each keyframe kept is at least
  \<open>minDelta\<close> after the one kept before it.
\<close>

lemma dedupeLoop_spaced:
  "successively (\<lambda>a b. kf_t b - kf_t a \<ge> d) (lst # dedupeLoop d lst ks)"
  by (induction ks arbitrary: lst) auto

lemma dedupeByTime_spaced:
  "successively (\<lambda>a b. kf_t b - kf_t a \<ge> d) (dedupeByTime kf d)"
  by (cases kf) (simp_all add: dedupeByTime_def dedupeLoop_spaced)

lemma dedupeLoop_id:
  "successively (\<lambda>a b. kf_t b - kf_t a \<ge> d) (k # ks) \<Longrightarrow> dedupeLoop d k ks = ks"
  by (induction ks arbitrary: k) auto

lemma dedupeByTime_id:
  "successively (\<lambda>a b. kf_t b - kf_t a \<ge> d) kf \<Longrightarrow> dedupeByTime kf d = kf"
  by (cases kf) (simp_all add: dedupeByTime_def dedupeLoop_id)

text \<open>
  The decimation branch of \<^verbatim>\<open>compressCropMap\<close> uses the step
  \<^verbatim>\<open>kf.length / (maxKeyframes - 1)\<close>. With 121 to 178 keyframes the last index of
  the loop, \<^verbatim>\<open>Math.round(118 * step)\<close>, is already \<^verbatim>\<open>kf.length - 1\<close>, and the
  last keyframe is then pushed a second time.
\<close>

lemma decimate_repeats_last:
  assumes "120 < length kf" "length kf \<le> 178"
  shows "decimate kf 120 ! 118 = Some (last kf)" "decimate kf 120 ! 119 = Some (last kf)"
proof -
  let ?n = "length kf"
  have idx: "\<lfloor>real_of_int 118 * (real ?n / 119) + 1 / 2\<rfloor> = int ?n - 1"
  proof (rule floor_unique)
    show "real_of_int (int ?n - 1) \<le> real_of_int 118 * (real ?n / 119) + 1 / 2"
      using assms by simp
    show "real_of_int 118 * (real ?n / 119) + 1 / 2 < real_of_int (int ?n - 1) + 1"
      using assms by simp
  qed
  have ne: "kf \<noteq> []"
    using assms by auto
  have "nat (int ?n - 1) = ?n - 1"
    by simp
  then have lst: "js_nth kf (int ?n - 1) = Some (last kf)"
    using ne by (simp add: js_nth_def last_conv_nth)
  have len: "length [1..(118::int)] = 118"
    by simp
  have n117: "[1..(118::int)] ! 117 = 118"
    by (subst nth_upto) simp_all
  have "decimate kf 120 ! 118
      = map (\<lambda>i. js_nth kf \<lfloor>of_int i * (real ?n / 119) + 1 / 2\<rfloor>) [1 .. 118] ! 117"
    by (simp add: decimate_def Let_def nth_append)
  also have "\<dots> = js_nth kf \<lfloor>of_int 118 * (real ?n / 119) + 1 / 2\<rfloor>"
    using n117 by (simp only: nth_map len)
  finally show "decimate kf 120 ! 118 = Some (last kf)"
    using idx lst by simp
  show "decimate kf 120 ! 119 = Some (last kf)"
    using lst by (simp add: decimate_def Let_def nth_append)
qed

lemma keyframes121_spaced:
  "successively (\<lambda>a b. kf_t b - kf_t a \<ge> 0.1) keyframes121"
proof -
  have step: "kf_t (sampleKF j) - kf_t (sampleKF i) \<ge> 0.1" if "i < j" for i j
  proof -
    have "real i + 1 \<le> real j"
      using that by linarith
    then show ?thesis
      by (simp add: sampleKF_def field_simps)
  qed
  have "sorted_wrt (<) [0..<121::nat]"
    by simp
  then have "sorted_wrt (\<lambda>i j. kf_t (sampleKF j) - kf_t (sampleKF i) \<ge> 0.1) [0..<121]"
    by (rule sorted_wrt_mono_rel [rotated]) (rule step)
  then show ?thesis
    unfolding keyframes121_def successively_map
    by (rule successively_if_sorted_wrt)
qed

text \<open>
  Claim C4 (the code departs from it). The 121 keyframes of a 20 second segment pass
  \<^verbatim>\<open>dedupeByTime(_, 0.1)\<close> unchanged, being a sixth of a second apart, and
  \<^verbatim>\<open>compressCropMap(_, 120)\<close> then returns 120 keyframes whose last two are both the
  last keyframe of the input: two consecutive keyframes at the same time 20, so the times
  returned by \<^verbatim>\<open>computeCropMapPerson\<close> are not strictly increasing and their spacing
  is 0, below the minimum delta.
\<close>

theorem compressCropMap_repeats_last_keyframe:
  "dedupeByTime keyframes121 0.1 = keyframes121
     \<and> length (compressCropMap (dedupeByTime keyframes121 0.1) 120) = 120
     \<and> compressCropMap (dedupeByTime keyframes121 0.1) 120 ! 118 = Some (sampleKF 120)
     \<and> compressCropMap (dedupeByTime keyframes121 0.1) 120 ! 119 = Some (sampleKF 120)
     \<and> kf_t (sampleKF 120) = 20"
proof -
  have d: "dedupeByTime keyframes121 0.1 = keyframes121"
    by (rule dedupeByTime_id) (rule keyframes121_spaced)
  have len: "length keyframes121 = 121"
    by (simp add: keyframes121_def)
  have c: "compressCropMap keyframes121 120 = decimate keyframes121 120"
    by (simp add: compressCropMap_def len)
  have l: "last keyframes121 = sampleKF 120"
    by (simp add: keyframes121_def last_map)
  have "decimate keyframes121 120 ! 118 = Some (sampleKF 120)"
       "decimate keyframes121 120 ! 119 = Some (sampleKF 120)"
    using decimate_repeats_last [of keyframes121] by (simp_all add: len l)
  moreover have "length (decimate keyframes121 120) = 120"
    by (simp add: decimate_length)
  moreover have "kf_t (sampleKF 120) = 20"
    by (simp add: sampleKF_def)
  ultimately show ?thesis
    by (simp add: d c)
qed

section \<open>The dynamic path: zoom, bounds and times of the keyframes\<close>

lemma Z_MIN_bounds: "0.8 \<le> Z_MIN e" "Z_MIN e \<le> 1"
  by (simp_all add: Z_MIN_def)

lemma SMOOTH_ALPHA_bounds: "0 \<le> SMOOTH_ALPHA e" "SMOOTH_ALPHA e \<le> 1"
  by (simp_all add: SMOOTH_ALPHA_def max_def)

lemma Z_DECAY_bounds: "0 \<le> Z_DECAY e" "Z_DECAY e \<le> 1"
  by (simp_all add: Z_DECAY_def max_def)

lemma convex_between:
  fixes a b lo hi u :: real
  assumes "lo \<le> a" "a \<le> hi" "lo \<le> b" "b \<le> hi" "0 \<le> u" "u \<le> 1"
  shows "lo \<le> a + u * (b - a)" "a + u * (b - a) \<le> hi"
proof -
  have e: "a + u * (b - a) = (1 - u) * a + u * b"
    by (simp add: algebra_simps)
  have "(1 - u) * lo + u * lo \<le> (1 - u) * a + u * b"
    using assms by (intro add_mono mult_left_mono) simp_all
  then show "lo \<le> a + u * (b - a)"
    unfolding e by (simp add: algebra_simps)
  have "(1 - u) * a + u * b \<le> (1 - u) * hi + u * hi"
    using assms by (intro add_mono mult_left_mono) simp_all
  then show "a + u * (b - a) \<le> hi"
    unfolding e by (simp add: algebra_simps)
qed

lemma smoothLoop_z:
  "lo \<le> snd (snd s) \<Longrightarrow> snd (snd s) \<le> hi \<Longrightarrow> list_all (zBetween lo hi) ks
     \<Longrightarrow> list_all (zBetween lo hi) (smoothLoop e s ks)"
proof (induction ks arbitrary: s)
  case Nil
  show ?case by simp
next
  case (Cons k ks)
  obtain sx sy sz where s: "s = (sx, sy, sz)"
    by (cases s) auto
  let ?sz = "sz + SMOOTH_ALPHA e * (kf_z k - sz)"
  have ks: "list_all (zBetween lo hi) ks" and "zBetween lo hi k"
    using Cons.prems(3) by simp_all
  then have k: "lo \<le> kf_z k" "kf_z k \<le> hi"
    by (simp_all add: zBetween_def)
  have "lo \<le> sz" "sz \<le> hi"
    using Cons.prems(1,2) s by simp_all
  from convex_between [OF this k SMOOTH_ALPHA_bounds]
  have z: "lo \<le> ?sz" "?sz \<le> hi" .
  have st: "snd (snd (smoothStep e s k)) = ?sz"
    by (simp add: smoothStep_def s)
  have fr: "kf_z (smoothFrame (smoothStep e s k) k) = ?sz"
    by (simp add: smoothStep_def smoothFrame_def s)
  have "list_all (zBetween lo hi) (smoothLoop e (smoothStep e s k) ks)"
    by (rule Cons.IH) (simp_all only: st z ks)
  moreover have "zBetween lo hi (smoothFrame (smoothStep e s k) k)"
    using z by (simp add: zBetween_def fr)
  ultimately show ?case
    by simp
qed

lemma smoothKeyframes_z:
  assumes "list_all (zBetween lo hi) kf"
  shows "list_all (zBetween lo hi) (smoothKeyframes e kf)"
proof (cases "\<exists>k0 k1 ks. kf = k0 # k1 # ks")
  case False
  then have "smoothKeyframes e kf = kf"
    by (auto simp: smoothKeyframes_def split: list.splits)
  with assms show ?thesis by simp
next
  case True
  then obtain k0 k1 ks where kf: "kf = k0 # k1 # ks"
    by blast
  then have r: "list_all (zBetween lo hi) (k1 # ks)" and "zBetween lo hi k0"
    using assms by simp_all
  then have z0: "lo \<le> kf_z k0" "kf_z k0 \<le> hi"
    by (simp_all add: zBetween_def)
  have "list_all (zBetween lo hi) (smoothLoop e (kf_x k0, kf_y k0, kf_z k0) (k1 # ks))"
    by (rule smoothLoop_z) (simp_all only: snd_conv z0 r)
  moreover have "zBetween lo hi (smoothFrame (kf_x k0, kf_y k0, kf_z k0) k0)"
    using z0 by (simp add: smoothFrame_def zBetween_def)
  ultimately show ?thesis
    unfolding kf smoothKeyframes_def by simp
qed

lemma deadzoneFrame_z:
  "zBetween lo hi prev \<Longrightarrow> zBetween lo hi cur \<Longrightarrow> zBetween lo hi (deadzoneFrame dzx dzy prev cur)"
  by (simp add: deadzoneFrame_def zBetween_def Let_def)

lemma deadzoneLoop_z:
  "zBetween lo hi prev \<Longrightarrow> list_all (zBetween lo hi) ks
     \<Longrightarrow> list_all (zBetween lo hi) (deadzoneLoop dzx dzy prev ks)"
  by (induction ks arbitrary: prev) (simp_all add: deadzoneFrame_z)

lemma applyDeadzone_z:
  assumes "list_all (zBetween lo hi) kf"
  shows "list_all (zBetween lo hi) (applyDeadzone kf dzx dzy)"
proof (cases "\<exists>k0 k1 ks. kf = k0 # k1 # ks")
  case False
  then have "applyDeadzone kf dzx dzy = kf"
    by (auto simp: applyDeadzone_def split: list.splits)
  with assms show ?thesis by simp
next
  case True
  then obtain k0 k1 ks where kf: "kf = k0 # k1 # ks"
    by blast
  with assms have "zBetween lo hi k0" "list_all (zBetween lo hi) (k1 # ks)"
    by simp_all
  from this deadzoneLoop_z [OF this] show ?thesis
    unfolding kf applyDeadzone_def by simp
qed

lemma panFrame_z: "zBetween lo hi cur \<Longrightarrow> zBetween lo hi (panFrame mp prev cur)"
  by (simp add: panFrame_def Let_def zBetween_def)

lemma panLoop_z:
  "list_all (zBetween lo hi) ks \<Longrightarrow> list_all (zBetween lo hi) (panLoop mp prev ks)"
  by (induction ks arbitrary: prev) (simp_all add: panFrame_z)

lemma applyPanLimits_z:
  assumes "list_all (zBetween lo hi) kf"
  shows "list_all (zBetween lo hi) (applyPanLimits kf mp)"
proof (cases "\<exists>k0 k1 ks. kf = k0 # k1 # ks")
  case False
  then have "applyPanLimits kf mp = kf"
    by (auto simp: applyPanLimits_def split: list.splits)
  with assms show ?thesis by simp
next
  case True
  then obtain k0 k1 ks where kf: "kf = k0 # k1 # ks"
    by blast
  with assms have "zBetween lo hi k0" "list_all (zBetween lo hi) (k1 # ks)"
    by simp_all
  from this(1) panLoop_z [OF this(2)] show ?thesis
    unfolding kf applyPanLimits_def by simp
qed

lemma accelStep_z: "zBetween lo hi cur \<Longrightarrow> zBetween lo hi (fst (accelStep ma s cur))"
  by (cases s) (simp add: accelStep_def Let_def zBetween_def)

lemma accelLoop_z:
  "list_all (zBetween lo hi) ks \<Longrightarrow> list_all (zBetween lo hi) (accelLoop ma s ks)"
  by (induction ks arbitrary: s) (simp_all add: accelStep_z)

lemma applyAccelLimits_z:
  assumes "list_all (zBetween lo hi) kf"
  shows "list_all (zBetween lo hi) (applyAccelLimits kf ma)"
proof (cases "\<exists>k0 k1 k2 ks. kf = k0 # k1 # k2 # ks")
  case False
  then have "applyAccelLimits kf ma = kf"
    by (auto simp: applyAccelLimits_def split: list.splits)
  with assms show ?thesis by simp
next
  case True
  then obtain k0 k1 k2 ks where kf: "kf = k0 # k1 # k2 # ks"
    by blast
  with assms have "zBetween lo hi k0" "list_all (zBetween lo hi) (k1 # k2 # ks)"
    by simp_all
  from this(1) accelLoop_z [OF this(2)] show ?thesis
    unfolding kf applyAccelLimits_def by simp
qed

lemma easeFrame_z:
  assumes "zBetween lo hi prev" "zBetween lo hi frame"
  shows "zBetween lo hi (easeFrame s e d prev frame)"
proof -
  define u where "u = min (min 1 (max 0 ((kf_t frame - s) / d))) (min 1 (max 0 ((e - kf_t frame) / d)))"
  have u: "0 \<le> u" "u \<le> 1"
    by (simp_all add: u_def)
  have "lo \<le> kf_z prev" "kf_z prev \<le> hi" "lo \<le> kf_z frame" "kf_z frame \<le> hi"
    using assms by (simp_all add: zBetween_def)
  from convex_between [OF this u]
  have "lo \<le> kf_z prev + (kf_z frame - kf_z prev) * u" "kf_z prev + (kf_z frame - kf_z prev) * u \<le> hi"
    by (simp_all add: mult.commute)
  moreover have "kf_z (easeFrame s e d prev frame) = kf_z prev + (kf_z frame - kf_z prev) * u"
    by (simp add: easeFrame_def Let_def u_def)
  ultimately show ?thesis
    by (simp add: zBetween_def)
qed

lemma easeLoop_z:
  "zBetween lo hi prev \<Longrightarrow> list_all (zBetween lo hi) ks
     \<Longrightarrow> list_all (zBetween lo hi) (easeLoop s e d prev ks)"
  by (induction ks arbitrary: prev) (simp_all add: easeFrame_z)

lemma easeSegmentEdges_z:
  assumes "list_all (zBetween lo hi) kf"
  shows "list_all (zBetween lo hi) (easeSegmentEdges kf s e d)"
proof (cases kf)
  case Nil
  then show ?thesis by (simp add: easeSegmentEdges_def)
next
  case (Cons k0 ks)
  with assms have "zBetween lo hi k0" "list_all (zBetween lo hi) ks"
    by simp_all
  from this easeLoop_z [OF this] assms show ?thesis
    unfolding Cons easeSegmentEdges_def by simp
qed

lemma Math_round_mono: "a \<le> b \<Longrightarrow> Math_round a \<le> Math_round b"
  by (simp add: Math_round_def floor_mono)

lemma Math_round_of_int [simp]: "Math_round (of_int n) = of_int n"
  by (simp add: Math_round_def)

lemma Math_round_nonneg: "0 \<le> a \<Longrightarrow> 0 \<le> Math_round a"
  by (simp add: Math_round_def)

lemma clamp_range: "lo \<le> hi \<Longrightarrow> lo \<le> clamp v lo hi \<and> clamp v lo hi \<le> hi"
  by (simp add: clamp_def)

lemma floor_9_16: "Math_floor (of_int bh * 9 / 16) = of_int (bh * 9 div 16)"
proof -
  have "\<lfloor>real_of_int (bh * 9) / real_of_int 16\<rfloor> = bh * 9 div 16"
    by (rule floor_divide_of_int_eq)
  then show ?thesis
    by (simp add: Math_floor_def)
qed

lemma scaledTargetW_eq:
  "min (Math_floor (of_int bh * 9 / 16)) (of_int bw) = of_int (scaledTargetW bw bh)"
  by (simp add: floor_9_16 scaledTargetW_def)

lemma scaleKeyframe_bounds:
  assumes z: "1 \<le> kf_z k" and bw: "0 < bw" and bh: "0 < bh"
  defines "k' \<equiv> scaleKeyframe (of_int (scaledTargetW bw bh)) (of_int bw) (of_int bh) k"
  shows "0 \<le> kf_x k'" "0 \<le> kf_y k'" "kf_x k' + kf_w k' \<le> of_int bw"
    "kf_y k' + kf_h k' \<le> of_int bh" "kf_z k' = kf_z k" "kf_t k' = kf_t k"
proof -
  let ?tw = "real_of_int (scaledTargetW bw bh)"
  let ?cw = "Math_round (?tw / kf_z k)" and ?ch = "Math_round (real_of_int bh / kf_z k)"
  have tw: "0 \<le> ?tw" "?tw \<le> of_int bw"
    using bw bh by (simp_all add: scaledTargetW_def)
  have "?tw / kf_z k \<le> ?tw"
    using z tw(1) by (simp add: divide_le_eq mult_le_cancel_left1)
  then have "?cw \<le> Math_round ?tw"
    by (rule Math_round_mono)
  then have cw: "?cw \<le> of_int bw"
    using tw(2) by simp
  have "real_of_int bh / kf_z k \<le> real_of_int bh"
    using z bh by (simp add: divide_le_eq mult_le_cancel_left1)
  then have "?ch \<le> Math_round (real_of_int bh)"
    by (rule Math_round_mono)
  then have ch: "?ch \<le> of_int bh"
    by simp
  have x: "kf_x k' = clamp (kf_x k) 0 (max 0 (of_int bw - ?cw))"
    and y: "kf_y k' = clamp (kf_y k) 0 (max 0 (of_int bh - ?ch))"
    and w: "kf_w k' = ?cw" and h: "kf_h k' = ?ch"
    by (simp_all add: k'_def scaleKeyframe_def Let_def)
  show "0 \<le> kf_x k'" "0 \<le> kf_y k'"
    unfolding x y using clamp_range [of 0] by simp_all
  have "kf_x k' \<le> of_int bw - ?cw"
    unfolding x using clamp_range [of 0 "max 0 (of_int bw - ?cw)" "kf_x k"] cw by simp
  then show "kf_x k' + kf_w k' \<le> of_int bw"
    unfolding w by simp
  have "kf_y k' \<le> of_int bh - ?ch"
    unfolding y using clamp_range [of 0 "max 0 (of_int bh - ?ch)" "kf_y k"] ch by simp
  then show "kf_y k' + kf_h k' \<le> of_int bh"
    unfolding h by simp
  show "kf_z k' = kf_z k" "kf_t k' = kf_t k"
    by (simp_all add: k'_def scaleKeyframe_def Let_def)
qed

lemma scaleKeyframe_unit_zoom:
  assumes "kf_z k = 1"
  shows "kf_w (scaleKeyframe (of_int tw) bw (of_int bh) k) = of_int tw"
    "kf_h (scaleKeyframe (of_int tw) bw (of_int bh) k) = of_int bh"
  using assms by (simp_all add: scaleKeyframe_def Let_def)

lemma requiredZoom_cases:
  assumes "1 \<le> zMin"
  shows "requiredZoom g tw th zMin = 1 \<or> requiredZoom g tw th zMin = zMin"
proof -
  define m where "m = max ((zg_w g + 2 * zg_insetX g) / tw) ((zg_h g + 2 * zg_insetY g) / th)"
  have r: "requiredZoom g tw th zMin = (if 1 < m then max zMin (1 / m) else 1)"
    by (auto simp: requiredZoom_def Let_def m_def)
  show ?thesis
  proof (cases "1 < m")
    case True
    then have "1 / m \<le> 1" by simp
    with assms have "max zMin (1 / m) = zMin" by simp
    with True r show ?thesis by simp
  next
    case False
    with r show ?thesis by simp
  qed
qed

lemma requiredZoom_range:
  assumes "1 \<le> zMin"
  shows "1 \<le> requiredZoom g tw th zMin" "requiredZoom g tw th zMin \<le> zMin"
  using requiredZoom_cases [OF assms, of g tw th] assms by auto

lemma solveZoomSeries_prefix:
  assumes "1 \<le> zMin"
  shows "length (fold (\<lambda>i z. let zr = requiredZoom (groups ! i) targetW targetH zMin
                  in if i = 0 then z @ [zr]
                     else let p = last z;
                              blended = p + Z_DECAY e * (zr - p)
                          in z @ [max zMin blended])
          [0..<n] []) = n
     \<and> (\<forall>z\<in>set (fold (\<lambda>i z. let zr = requiredZoom (groups ! i) targetW targetH zMin
                  in if i = 0 then z @ [zr]
                     else let p = last z;
                              blended = p + Z_DECAY e * (zr - p)
                          in z @ [max zMin blended])
          [0..<n] []). 1 \<le> z \<and> z \<le> zMin)"
  (is "length (?F n) = n \<and> (\<forall>z\<in>set (?F n). 1 \<le> z \<and> z \<le> zMin)")
proof (induction n)
  case 0
  show ?case by simp
next
  case (Suc n)
  let ?zr = "requiredZoom (groups ! n) targetW targetH zMin"
  note zr = requiredZoom_range [OF assms, of "groups ! n" targetW targetH]
  show ?case
  proof (cases "n = 0")
    case True
    then show ?thesis using zr by (simp add: Let_def)
  next
    case False
    then have "?F n \<noteq> []" using Suc by auto
    then have "last (?F n) \<in> set (?F n)" by simp
    then have p: "1 \<le> last (?F n)" "last (?F n) \<le> zMin"
      using Suc by blast+
    from convex_between [OF p zr Z_DECAY_bounds]
    have b: "1 \<le> last (?F n) + Z_DECAY e * (?zr - last (?F n))"
      "last (?F n) + Z_DECAY e * (?zr - last (?F n)) \<le> zMin" .
    have step: "?F (Suc n) = ?F n @ [max zMin (last (?F n) + Z_DECAY e * (?zr - last (?F n)))]"
      using False by (simp add: Let_def)
    show ?thesis
      unfolding step using Suc b assms by (simp add: max_def)
  qed
qed

lemma solveZoomSeries_range:
  assumes "1 \<le> zMin"
  shows "length (solveZoomSeries e xs ys groups targetW targetH zMin) = length xs"
    and "\<forall>z\<in>set (solveZoomSeries e xs ys groups targetW targetH zMin). 1 \<le> z \<and> z \<le> zMin"
  using solveZoomSeries_prefix [OF assms, of groups targetW targetH e "length xs"]
  unfolding solveZoomSeries_def by blast+

lemma solveZoomSeries_unit:
  "solveZoomSeries e xs ys groups targetW targetH 1 = replicate (length xs) 1"
proof -
  have "\<forall>z\<in>set (solveZoomSeries e xs ys groups targetW targetH 1). z = 1"
    using solveZoomSeries_range(2) [of 1 e xs ys groups targetW targetH] by auto
  then show ?thesis
    using solveZoomSeries_range(1) [of 1 e xs ys groups targetW targetH]
    by (intro replicate_eqI) simp_all
qed

lemma dynamicZMin_ge_1: "1 \<le> dynamicZMin e bw bh"
  by (simp add: dynamicZMin_def Let_def)

lemma dynamicZMin_landscape:
  assumes "0 < bw" "bh * 9 div 16 \<le> bw"
  shows "dynamicZMin e (of_int bw) (of_int bh) = 1"
proof -
  have "real_of_int (bh * 9 div 16) / real_of_int bw \<le> 1"
    using assms by simp
  then show ?thesis
    using Z_MIN_bounds(2) [of e] by (simp add: dynamicZMin_def Let_def floor_9_16)
qed

lemma descend_length: "length (descend x g L U lr) = length x"
  by (simp add: descend_def)

lemma globalOptimize1D_length:
  "length (globalOptimize1D t des L U w lv la iters lr) = length des"
proof -
  have "length (((\<lambda>x. descend x (G x) L U lr) ^^ n) des) = length des" for n G
    by (induction n) (simp_all add: descend_length)
  then show ?thesis
    by (simp add: globalOptimize1D_def Let_def)
qed

lemma smoothAnchors_length: "length (smoothAnchors e st samples) = length samples"
  by (induction samples arbitrary: st) (simp_all add: Let_def split: prod.splits)

lemma raw_keyframes_z:
  "list_all (zBetween 1 (dynamicZMin e bw bh))
     (computeGlobalCropKeyframesFromTracksWithSpeechAndZoom e timeline turns bw bh c)"
proof -
  let ?zMin = "dynamicZMin e bw bh"
  have "kf_z (rawKeyframe tw bw bh t x y z) = z" for tw t x y z
    by (simp add: rawKeyframe_def Let_def)
  then have *: "list_all (zBetween 1 ?zMin)
      (map (\<lambda>i. rawKeyframe tw bw bh (ts ! i) (xs ! i) (ys ! i) (zs ! i)) [0..<n])"
    if "length zs = n" "\<forall>z\<in>set zs. 1 \<le> z \<and> z \<le> ?zMin" for tw ts xs ys zs n
    using that by (auto simp: list_all_iff zBetween_def)
  show ?thesis
    unfolding computeGlobalCropKeyframesFromTracksWithSpeechAndZoom_def
      keyframesFromAnchors_def Let_def
    by (auto intro!: * simp: solveZoomSeries_range [OF dynamicZMin_ge_1]
        globalOptimize1D_length smoothAnchors_length simp del: upt_Suc)
qed

lemma dedupeLoop_subset: "set (dedupeLoop d lst ks) \<subseteq> set ks"
  by (induction ks arbitrary: lst) auto

lemma dedupeByTime_subset: "set (dedupeByTime kf d) \<subseteq> set kf"
  using dedupeLoop_subset by (cases kf) (auto simp: dedupeByTime_def)

lemma filterNear_subset: "set (filterNear prev ks) \<subseteq> set ks"
  by (induction ks arbitrary: prev) auto

lemma js_nth_in_set: "js_nth xs i = Some x \<Longrightarrow> x \<in> set xs"
  by (auto simp: js_nth_def split: if_splits)

lemma compressCropMap_subset:
  assumes "Some k \<in> set (compressCropMap kf m)"
  shows "k \<in> set kf"
proof (cases "length kf \<le> 2")
  case True
  with assms show ?thesis by (auto simp: compressCropMap_def)
next
  case False
  then have ne: "kf \<noteq> []" by auto
  show ?thesis
  proof (cases "int (length kf) \<le> m")
    case True
    with False assms have "k = hd kf \<or> k \<in> set (filterNear (hd kf) (butlast (tl kf))) \<or> k = last kf"
      by (auto simp: compressCropMap_def)
    moreover have "set (butlast (tl kf)) \<subseteq> set kf"
      by (meson in_set_butlastD list.set_sel(2) ne subsetI)
    ultimately show ?thesis
      using filterNear_subset [of "hd kf" "butlast (tl kf)"] ne by auto
  next
    case m: False
    with False assms have "Some k \<in> set (decimate kf m)"
      by (simp add: compressCropMap_def)
    then obtain i where "js_nth kf i = Some k"
      by (auto simp: decimate_def Let_def)
    then show ?thesis by (rule js_nth_in_set)
  qed
qed

lemma compressCropMap_defined: "None \<notin> set (compressCropMap kf 120)"
proof (cases "120 < length kf")
  case True
  then show ?thesis
    using decimate_defined [OF True] by (simp add: compressCropMap_def)
next
  case False
  then show ?thesis by (auto simp: compressCropMap_def)
qed

lemma applyScaledCoords_elems:
  assumes "k' \<in> set (applyScaledCoords kf (of_int bw) (of_int bh))"
  shows "\<exists>k\<in>set kf. k' = scaleKeyframe (of_int (scaledTargetW bw bh)) (of_int bw) (of_int bh) k"
  using assms by (auto simp: applyScaledCoords_def Let_def scaledTargetW_eq split: if_splits)

lemma postProcess_elems:
  assumes "list_all (zBetween lo hi) raw" and "k' \<in> set (postProcess e input c raw)"
  shows "\<exists>k. zBetween lo hi k
     \<and> k' = scaleKeyframe (of_int (scaledTargetW (in_baseW input) (in_baseH input)))
              (of_int (in_baseW input)) (of_int (in_baseH input)) k"
proof -
  let ?eased = "easeSegmentEdges
      (applyAccelLimits
        (applyPanLimits (applyDeadzone (smoothKeyframes e raw) (DEADZONE_X e) (DEADZONE_Y e))
          (c_maxPan c)) (MAX_ACCEL e))
      (in_segStart input) (in_segEnd input) (c_easeMs c / 1000)"
  have "list_all (zBetween lo hi) ?eased"
    by (intro easeSegmentEdges_z applyAccelLimits_z applyPanLimits_z applyDeadzone_z
        smoothKeyframes_z assms(1))
  then have all: "\<forall>k\<in>set ?eased. zBetween lo hi k"
    by (simp add: list_all_iff)
  have "k' \<in> set (applyScaledCoords ?eased (of_int (in_baseW input)) (of_int (in_baseH input)))"
    using assms(2) by (simp add: postProcess_def Let_def)
  from applyScaledCoords_elems [OF this] all show ?thesis
    by blast
qed

lemma computeCropMapPerson_Some:
  assumes "computeCropMapPerson e detected input c = Inr (Some out)"
  obtains snaps where "detected = Inr snaps"
    and "out = compressCropMap (dedupeByTime (postProcess e input c
          (computeGlobalCropKeyframesFromTracksWithSpeechAndZoom e
            (buildTracks e snaps (of_int (in_baseW input)) (of_int (in_baseH input)))
            (buildSpeakerTurns (in_transcript input) (in_segStart input) (in_segEnd input))
            (of_int (in_baseW input)) (of_int (in_baseH input)) c)) 0.1) 120"
    and "dedupeByTime (postProcess e input c
          (computeGlobalCropKeyframesFromTracksWithSpeechAndZoom e
            (buildTracks e snaps (of_int (in_baseW input)) (of_int (in_baseH input)))
            (buildSpeakerTurns (in_transcript input) (in_segStart input) (in_segEnd input))
            (of_int (in_baseW input)) (of_int (in_baseH input)) c)) 0.1 \<noteq> []"
proof -
  obtain snaps where d: "detected = Inr snaps"
    using assms(1) by (cases detected) (simp_all add: computeCropMapPerson_def)
  from assms show thesis
    unfolding d computeCropMapPerson_def Let_def
    by (intro that [of snaps] d) (simp_all split: if_splits)
qed

lemma computeCropMapPerson_elems:
  assumes "computeCropMapPerson e detected input c = Inr (Some out)" and "Some k' \<in> set out"
  shows "\<exists>k. zBetween 1 (dynamicZMin e (of_int (in_baseW input)) (of_int (in_baseH input))) k
     \<and> k' = scaleKeyframe (of_int (scaledTargetW (in_baseW input) (in_baseH input)))
              (of_int (in_baseW input)) (of_int (in_baseH input)) k"
proof -
  from assms(1) obtain kf raw where out: "out = compressCropMap (dedupeByTime (postProcess e input c raw) 0.1) 120"
    and raw: "list_all (zBetween 1 (dynamicZMin e (of_int (in_baseW input)) (of_int (in_baseH input)))) raw"
    using raw_keyframes_z by (elim computeCropMapPerson_Some) blast
  then have "k' \<in> set (dedupeByTime (postProcess e input c raw) 0.1)"
    using assms(2) compressCropMap_subset by blast
  then have "k' \<in> set (postProcess e input c raw)"
    using dedupeByTime_subset by blast
  then show ?thesis
    by (rule postProcess_elems [OF raw])
qed

lemma computeCropMapPerson_defined:
  assumes "computeCropMapPerson e detected input c = Inr (Some out)"
  shows "None \<notin> set out" "out \<noteq> []"
proof -
  from assms obtain kf where out: "out = compressCropMap kf 120" and ne: "kf \<noteq> []"
    by (elim computeCropMapPerson_Some) blast
  show "None \<notin> set out"
    unfolding out by (rule compressCropMap_defined)
  show "out \<noteq> []"
    using ne unfolding out compressCropMap_def decimate_def Let_def by auto
qed

lemma frame_times [simp]:
  "kf_t (smoothFrame s k) = kf_t k"
  "kf_t (deadzoneFrame dzx dzy prev k) = kf_t k"
  "kf_t (panFrame mp prev k) = kf_t k"
  "kf_t (fst (accelStep ma st k)) = kf_t k"
  "kf_t (easeFrame segStart segEnd d prev k) = kf_t k"
  "kf_t (scaleKeyframe tw bw bh k) = kf_t k"
  by (simp_all add: smoothFrame_def deadzoneFrame_def panFrame_def accelStep_def easeFrame_def
      scaleKeyframe_def Let_def split: prod.splits)

lemma smoothLoop_times: "map kf_t (smoothLoop e s ks) = map kf_t ks"
  by (induction ks arbitrary: s) simp_all

lemma smoothKeyframes_times: "map kf_t (smoothKeyframes e kf) = map kf_t kf"
  by (simp add: smoothKeyframes_def smoothLoop_times split: list.splits)

lemma deadzoneLoop_times: "map kf_t (deadzoneLoop dzx dzy prev ks) = map kf_t ks"
  by (induction ks arbitrary: prev) simp_all

lemma applyDeadzone_times: "map kf_t (applyDeadzone kf dzx dzy) = map kf_t kf"
  by (simp add: applyDeadzone_def deadzoneLoop_times split: list.splits)

lemma panLoop_times: "map kf_t (panLoop mp prev ks) = map kf_t ks"
  by (induction ks arbitrary: prev) simp_all

lemma applyPanLimits_times: "map kf_t (applyPanLimits kf mp) = map kf_t kf"
  by (simp add: applyPanLimits_def panLoop_times split: list.splits)

lemma accelLoop_times: "map kf_t (accelLoop ma s ks) = map kf_t ks"
  by (induction ks arbitrary: s) simp_all

lemma applyAccelLimits_times: "map kf_t (applyAccelLimits kf ma) = map kf_t kf"
  by (simp add: applyAccelLimits_def accelLoop_times split: list.splits)

lemma easeLoop_times: "map kf_t (easeLoop s e d prev ks) = map kf_t ks"
  by (induction ks arbitrary: prev) simp_all

lemma easeSegmentEdges_times: "map kf_t (easeSegmentEdges kf s e d) = map kf_t kf"
  by (simp add: easeSegmentEdges_def easeLoop_times split: list.splits)

lemma applyScaledCoords_times: "map kf_t (applyScaledCoords kf bw bh) = map kf_t kf"
  by (simp add: applyScaledCoords_def Let_def)

lemma postProcess_times: "map kf_t (postProcess e input c raw) = map kf_t raw"
  by (simp add: postProcess_def Let_def applyScaledCoords_times easeSegmentEdges_times
      applyAccelLimits_times applyPanLimits_times applyDeadzone_times smoothKeyframes_times)

lemma anchorStep_times:
  "map as_time (snd (anchorStep turns bw bh snap (mp, acc)))
     = map as_time acc @ (if snap_dets snap = [] then [] else [snap_t snap])"
  by (simp add: anchorStep_def Let_def split: list.splits prod.splits)

lemma collectAnchors_fold_times:
  "map as_time (snd (fold (anchorStep turns bw bh) timeline (mp, acc)))
     = map as_time acc @ map snap_t (filter (\<lambda>s. snap_dets s \<noteq> []) timeline)"
proof (induction timeline arbitrary: mp acc)
  case Nil
  show ?case by simp
next
  case (Cons s timeline)
  obtain mp' acc' where st: "anchorStep turns bw bh s (mp, acc) = (mp', acc')"
    by (cases "anchorStep turns bw bh s (mp, acc)") auto
  have "map as_time acc' = map as_time acc @ (if snap_dets s = [] then [] else [snap_t s])"
    using anchorStep_times [of turns bw bh s mp acc] st by simp
  then show ?case
    using Cons.IH [of mp' acc'] by (simp add: st)
qed

lemma collectAnchors_times:
  "map as_time (collectAnchors timeline turns bw bh)
     = map snap_t (filter (\<lambda>s. snap_dets s \<noteq> []) timeline)"
  using collectAnchors_fold_times [of turns bw bh timeline Map.empty "[]"]
  by (simp add: collectAnchors_def)

lemma rawKeyframe_fields [simp]:
  "kf_t (rawKeyframe tw bw bh t x y z) = t" "kf_z (rawKeyframe tw bw bh t x y z) = z"
  by (simp_all add: rawKeyframe_def Let_def)

lemma keyframesFromAnchors_times:
  "map kf_t (keyframesFromAnchors e samples bw bh c) = map as_time samples"
proof -
  have "map (\<lambda>i. map as_time samples ! i) [0..<length samples] = map as_time samples"
    by (rule nth_equalityI) simp_all
  then show ?thesis
    unfolding keyframesFromAnchors_def Let_def by (simp add: comp_def)
qed

lemma raw_times:
  "map kf_t (computeGlobalCropKeyframesFromTracksWithSpeechAndZoom e timeline turns bw bh c)
     = map snap_t (filter (\<lambda>s. snap_dets s \<noteq> []) timeline)"
  using collectAnchors_times [of timeline turns bw bh]
  by (auto simp: computeGlobalCropKeyframesFromTracksWithSpeechAndZoom_def Let_def
      keyframesFromAnchors_times)

lemma dedupeByTime_empty: "dedupeByTime kf d = [] \<longleftrightarrow> kf = []"
  by (cases kf) (simp_all add: dedupeByTime_def)

lemma compressCropMap_empty: "compressCropMap kf m = [] \<longleftrightarrow> kf = []"
  by (auto simp: compressCropMap_def decimate_def Let_def)

text \<open>The value of the dynamic path: null exactly when no snapshot of the timeline of
  tracks has a detection.\<close>

lemma computeCropMapPerson_null_iff:
  "computeCropMapPerson e (Inr snaps) input c = Inr None
     \<longleftrightarrow> (\<forall>s\<in>set (buildTracks e snaps (of_int (in_baseW input)) (of_int (in_baseH input))).
            snap_dets s = [])"
proof -
  let ?tl = "buildTracks e snaps (of_int (in_baseW input)) (of_int (in_baseH input))"
  let ?raw = "computeGlobalCropKeyframesFromTracksWithSpeechAndZoom e ?tl
      (buildSpeakerTurns (in_transcript input) (in_segStart input) (in_segEnd input))
      (of_int (in_baseW input)) (of_int (in_baseH input)) c"
  have "length ?raw = length (filter (\<lambda>s. snap_dets s \<noteq> []) ?tl)"
    using arg_cong [OF raw_times, of length e ?tl] by simp
  then have "length ?raw = 0 \<longleftrightarrow> filter (\<lambda>s. snap_dets s \<noteq> []) ?tl = []"
    by (simp only: length_0_conv)
  then have raw: "?raw = [] \<longleftrightarrow> (\<forall>s\<in>set ?tl. snap_dets s = [])"
    by (simp only: length_0_conv filter_empty_conv) blast
  have "length (postProcess e input c ?raw) = length ?raw"
    using arg_cong [OF postProcess_times, of length e input c ?raw] by simp
  then have "length (postProcess e input c ?raw) = 0 \<longleftrightarrow> length ?raw = 0"
    by (simp only:)
  then have pp: "postProcess e input c ?raw = [] \<longleftrightarrow> ?raw = []"
    by (simp only: length_0_conv)
  have tl: "?raw = []" if "?tl = []"
    using raw that by simp
  have snaps: "?tl = []" if "snaps = []"
    using that by (simp add: buildTracks_def)
  have "computeCropMapPerson e (Inr snaps) input c = Inr None \<longleftrightarrow> ?raw = []"
  proof (cases "?raw = []")
    case True
    then show ?thesis
      by (simp add: computeCropMapPerson_def Let_def)
  next
    case False
    then have "snaps \<noteq> []" "?tl \<noteq> []" "postProcess e input c ?raw \<noteq> []"
      using tl snaps pp by blast+
    then show ?thesis
      using False by (simp add: computeCropMapPerson_def Let_def dedupeByTime_empty)
  qed
  then show ?thesis
    using raw by simp
qed

section \<open>No detection, and sources at least as wide as the target\<close>

lemma associateAndUpdate_nothing: "associateAndUpdate e [] [] t bw bh n = []"
  by (simp add: associateAndUpdate_def matchTracks_def enumerate_eq_zip)

lemma buildTracks_fold_no_dets:
  assumes "\<forall>s\<in>set snaps. snap_dets s = []" "\<forall>s\<in>set out. snap_dets s = []"
  shows "\<forall>s\<in>set (snd (snd (fold (buildTracksStep e bw bh) snaps ([], n, out)))). snap_dets s = []"
  using assms
proof (induction snaps arbitrary: n out)
  case Nil
  then show ?case by simp
next
  case (Cons s snaps)
  have "snap_dets s = []"
    using Cons.prems(1) by simp
  then have step: "buildTracksStep e bw bh s ([], n, out)
      = ([], max n (n + 1), out @ [\<lparr>snap_t = snap_t s, snap_dets = []\<rparr>])"
    by (simp add: buildTracksStep_def associateAndUpdate_nothing Let_def)
  show ?case
    using Cons.IH [of "out @ [\<lparr>snap_t = snap_t s, snap_dets = []\<rparr>]" "max n (n + 1)"] Cons.prems
    by (simp add: step)
qed

lemma buildTracks_no_dets:
  assumes "\<forall>s\<in>set snaps. snap_dets s = []"
  shows "\<forall>s\<in>set (buildTracks e snaps bw bh). snap_dets s = []"
  using buildTracks_fold_no_dets [OF assms, of "[]" e bw bh 1]
  by (simp add: buildTracks_def)

lemma anchorCenters_no_dets:
  assumes "\<forall>s\<in>set snaps. snap_dets s = []"
  shows "anchorCenters snaps bw bh = []"
  using assms by (induction snaps) (simp_all add: anchorCenters_def)

lemma computeCropMapPersonStatic_no_dets:
  assumes "\<forall>s\<in>set snaps. snap_dets s = []"
  shows "computeCropMapPersonStatic (Inr snaps) input c None = Inr None"
  using anchorCenters_no_dets [OF assms]
  by (simp add: computeCropMapPersonStatic_def Let_def)

lemma computeCropMap_returns: "\<exists>r. computeCropMap e d1 d2 input c = Inr r"
  by (auto simp: computeCropMap_def split: sum.splits option.splits)

text \<open>
  Claim C7. When no snapshot of the segment has a detection, and more generally when no
  snapshot of the timeline of tracks has one (no anchor can be chosen for any frame),
  \<^verbatim>\<open>computeCropMapPerson\<close> returns \<^verbatim>\<open>null\<close>, a value and not an exception.
  \<^verbatim>\<open>computeCropMap\<close> then returns what the static path gives, \<^verbatim>\<open>null\<close> when that
  is \<^verbatim>\<open>null\<close>, empty or an exception; it is \<^verbatim>\<open>null\<close> when the static path samples no
  detection either. Whatever the two samplings give or throw, \<^verbatim>\<open>computeCropMap\<close>
  returns a value.
\<close>

theorem no_detection_no_crop:
  "((\<forall>s\<in>set snaps. snap_dets s = [])
      \<longrightarrow> computeCropMapPerson e (Inr snaps) input c = Inr None)
   \<and> ((\<forall>s\<in>set (buildTracks e snaps (of_int (in_baseW input)) (of_int (in_baseH input))).
          snap_dets s = [])
      \<longrightarrow> computeCropMapPerson e (Inr snaps) input c = Inr None)
   \<and> (computeCropMapPerson e detectedDynamic input c = Inr None
      \<longrightarrow> computeCropMap e detectedDynamic detectedStatic input c
          = (case computeCropMapPersonStatic detectedStatic input c None of
               Inr (Some staticKf) \<Rightarrow>
                 if staticKf \<noteq> [] then Inr (Some (map Some staticKf)) else Inr None
             | _ \<Rightarrow> Inr None))
   \<and> ((\<forall>s\<in>set snaps. snap_dets s = []) \<longrightarrow> (\<forall>s\<in>set snaps'. snap_dets s = [])
      \<longrightarrow> computeCropMap e (Inr snaps) (Inr snaps') input c = Inr None)
   \<and> (\<exists>r. computeCropMap e detectedDynamic detectedStatic input c = Inr r)"
proof (intro conjI impI)
  show null: "computeCropMapPerson e (Inr snaps) input c = Inr None"
    if "\<forall>s\<in>set (buildTracks e snaps (of_int (in_baseW input)) (of_int (in_baseH input))).
          snap_dets s = []" for snaps
    using that by (simp only: computeCropMapPerson_null_iff)
  show dyn: "computeCropMapPerson e (Inr snaps) input c = Inr None"
    if "\<forall>s\<in>set snaps. snap_dets s = []" for snaps
    by (rule null) (rule buildTracks_no_dets [OF that])
  show fb: "computeCropMap e detectedDynamic detectedStatic input c
          = (case computeCropMapPersonStatic detectedStatic input c None of
               Inr (Some staticKf) \<Rightarrow>
                 if staticKf \<noteq> [] then Inr (Some (map Some staticKf)) else Inr None
             | _ \<Rightarrow> Inr None)"
    if "computeCropMapPerson e detectedDynamic input c = Inr None" for detectedDynamic detectedStatic
    using that by (simp add: computeCropMap_def)
  show "computeCropMap e (Inr snaps) (Inr snaps') input c = Inr None"
    if "\<forall>s\<in>set snaps. snap_dets s = []" "\<forall>s\<in>set snaps'. snap_dets s = []"
    using fb [OF dyn [OF that(1)], of "Inr snaps'"] computeCropMapPersonStatic_no_dets [OF that(2)]
    by simp
  show "\<exists>r. computeCropMap e detectedDynamic detectedStatic input c = Inr r"
    by (rule computeCropMap_returns)
qed

theorem no_detection_no_crop_witness:
  "computeCropMapPerson defaultEnv (Inr emptySnaps) (inputOf 1920 1080) workerConstraints = Inr None
   \<and> computeCropMap defaultEnv (Inr emptySnaps) (Inr emptySnaps) (inputOf 1920 1080)
        workerConstraints = Inr None
   \<and> computeCropMap defaultEnv (Inr emptySnaps) (Inl DetectionFailed) (inputOf 1920 1080)
        workerConstraints = Inr None"
proof -
  have h: "\<forall>s\<in>set emptySnaps. snap_dets s = []"
    by (simp add: emptySnaps_def)
  have "computeCropMapPersonStatic (Inl DetectionFailed) (inputOf 1920 1080) workerConstraints None
      = Inl DetectionFailed"
    by (simp add: computeCropMapPersonStatic_def)
  then show ?thesis
    using h no_detection_no_crop [of emptySnaps defaultEnv "inputOf 1920 1080" workerConstraints
        "Inr emptySnaps" "Inl DetectionFailed" emptySnaps]
      no_detection_no_crop [of emptySnaps defaultEnv "inputOf 1920 1080" workerConstraints
        "Inr emptySnaps" "Inr emptySnaps" emptySnaps]
    by simp
qed

text \<open>
  Claim C10. On a source at least as wide as \<^verbatim>\<open>floor(baseH * 9 / 16)\<close> the zoom floor
  of the dynamic path is exactly 1, \<^verbatim>\<open>solveZoomSeries\<close> returns 1 for every sample
  whatever the groups are, and every keyframe that \<^verbatim>\<open>computeCropMapPerson\<close> returns
  has zoom 1, width \<^verbatim>\<open>floor(baseH * 9 / 16)\<close> and height \<^verbatim>\<open>baseH\<close>.
\<close>

theorem dynamic_zoom_inert:
  assumes "0 < in_baseW input" "0 < in_baseH input"
    and "Math_floor (of_int (in_baseH input) * 9 / 16) \<le> of_int (in_baseW input)"
  shows "dynamicZMin e (of_int (in_baseW input)) (of_int (in_baseH input)) = 1
     \<and> solveZoomSeries e xs ys groups targetW targetH
          (dynamicZMin e (of_int (in_baseW input)) (of_int (in_baseH input)))
        = replicate (length xs) 1
     \<and> (\<forall>out. computeCropMapPerson e detected input c = Inr (Some out) \<longrightarrow>
          None \<notin> set out
          \<and> (\<forall>k. Some k \<in> set out \<longrightarrow>
                kf_z k = 1 \<and> kf_w k = Math_floor (of_int (in_baseH input) * 9 / 16)
                \<and> kf_h k = of_int (in_baseH input)))"
proof -
  let ?bw = "in_baseW input" and ?bh = "in_baseH input"
  have le: "?bh * 9 div 16 \<le> ?bw"
    using assms(3) by (simp add: floor_9_16)
  then have stw: "scaledTargetW ?bw ?bh = ?bh * 9 div 16"
    by (simp add: scaledTargetW_def)
  have z1: "dynamicZMin e (of_int ?bw) (of_int ?bh) = 1"
    using assms(1) le by (rule dynamicZMin_landscape)
  have kfs: "kf_z k = 1 \<and> kf_w k = Math_floor (of_int ?bh * 9 / 16) \<and> kf_h k = of_int ?bh"
    if out: "computeCropMapPerson e detected input c = Inr (Some out)" and k: "Some k \<in> set out"
    for out k
  proof -
    from computeCropMapPerson_elems [OF out k] obtain k0
      where k0: "zBetween 1 1 k0"
        and kk: "k = scaleKeyframe (of_int (scaledTargetW ?bw ?bh)) (of_int ?bw) (of_int ?bh) k0"
      unfolding z1 by blast
    from k0 have z: "kf_z k0 = 1"
      by (simp add: zBetween_def)
    then have "kf_z k = 1"
      unfolding kk by (simp add: scaleKeyframe_def Let_def)
    moreover have "kf_w k = of_int (?bh * 9 div 16)" "kf_h k = of_int ?bh"
      unfolding kk stw using scaleKeyframe_unit_zoom [OF z] by simp_all
    ultimately show ?thesis
      by (simp add: floor_9_16)
  qed
  show ?thesis
    using z1 kfs computeCropMapPerson_defined(1) [of e detected input c]
    by (simp add: solveZoomSeries_unit)
qed

lemma buildTracks_snaps3:
  "buildTracks defaultEnv snaps3 1920 1080 = [\<lparr>snap_t = 0, snap_dets = []\<rparr>,
  \<lparr>snap_t = 1 / 4,
     snap_dets =
       [\<lparr>det_x = 440, det_y = 500, det_w = 200, det_h = 200,
           det_score = 9 / 10, det_id = Some 1, det_detectorType = None\<rparr>]\<rparr>,
  \<lparr>snap_t = 1 / 2,
     snap_dets =
       [\<lparr>det_x = 440, det_y = 500, det_w = 200, det_h = 200,
           det_score = 9 / 10, det_id = Some 1, det_detectorType = None\<rparr>]\<rparr>]"
  by code_simp

theorem dynamic_zoom_inert_witness:
  "0 < in_baseW (inputOf 1920 1080) \<and> 0 < in_baseH (inputOf 1920 1080)
   \<and> Math_floor (of_int (in_baseH (inputOf 1920 1080)) * 9 / 16) = 607
   \<and> dynamicZMin defaultEnv 1920 1080 = 1
   \<and> (\<exists>out. computeCropMapPerson defaultEnv (Inr snaps3) (inputOf 1920 1080) workerConstraints
               = Inr (Some out)
            \<and> out \<noteq> []
            \<and> list_all (\<lambda>k. k \<noteq> None \<and> kf_z (the k) = 1 \<and> kf_w (the k) = 607
                            \<and> kf_h (the k) = 1080) out)"
proof -
  let ?r = "computeCropMapPerson defaultEnv (Inr snaps3) (inputOf 1920 1080) workerConstraints"
  have h: "0 < in_baseW (inputOf 1920 1080)" "0 < in_baseH (inputOf 1920 1080)"
    "Math_floor (of_int (in_baseH (inputOf 1920 1080)) * 9 / 16)
       \<le> of_int (in_baseW (inputOf 1920 1080))"
    and f: "Math_floor (of_int (in_baseH (inputOf 1920 1080)) * 9 / 16) = 607"
    by (simp_all add: inputOf_def Math_floor_def)
  have "?r \<noteq> Inr None"
    unfolding computeCropMapPerson_null_iff
    by (simp add: inputOf_def buildTracks_snaps3)
  moreover have "\<exists>r. ?r = Inr r"
    by (simp add: computeCropMapPerson_def)
  ultimately obtain out where out: "?r = Inr (Some out)"
    by auto
  note inert = dynamic_zoom_inert [OF h, of defaultEnv "[]" "[]" "[]" 607 1080 "Inr snaps3"
      workerConstraints]
  have "list_all (\<lambda>k. k \<noteq> None \<and> kf_z (the k) = 1 \<and> kf_w (the k) = 607
                            \<and> kf_h (the k) = 1080) out"
    unfolding list_all_iff
  proof
    fix k assume k: "k \<in> set out"
    from inert out have all: "None \<notin> set out"
      "\<forall>k. Some k \<in> set out \<longrightarrow>
          kf_z k = 1 \<and> kf_w k = Math_floor (of_int (in_baseH (inputOf 1920 1080)) * 9 / 16)
          \<and> kf_h k = of_int (in_baseH (inputOf 1920 1080))"
      by blast+
    from all(1) k obtain k' where k': "k = Some k'"
      by (cases k) auto
    with all(2) k have "kf_z k' = 1 \<and> kf_w k' = 607 \<and> kf_h k' = of_int (in_baseH (inputOf 1920 1080))"
      unfolding f by blast
    then show "k \<noteq> None \<and> kf_z (the k) = 1 \<and> kf_w (the k) = 607 \<and> kf_h (the k) = 1080"
      by (simp add: k' inputOf_def)
  qed
  moreover have "out \<noteq> []"
    using computeCropMapPerson_defined(2) [OF out] .
  moreover have "dynamicZMin defaultEnv 1920 1080 = 1"
    using inert by (simp add: inputOf_def)
  ultimately show ?thesis
    using h f out by blast
qed

section \<open>A source narrower than the target: the first zoom misses the floor\<close>

text \<open>
The feasible intervals carry the group they were built from.
\<close>

lemma buildFeasible_group:
  "f_groupW (buildFeasible grp a tw th bw bh c sm)
     = clamp (g_maxX grp + max 0 (c_margin c) * tw) 0 bw
       - clamp (g_minX grp - max 0 (c_margin c) * tw) 0 bw"
  "f_groupH (buildFeasible grp a tw th bw bh c sm)
     = clamp (g_maxY grp + max (th * 0.1) (g_groupH grp * 0.6)) 0 bh
       - clamp (g_minY grp - max (th * 0.1) (max (th * 0.1) (g_groupH grp * 0.6) * 0.6)) 0 bh"
  "f_insetX (buildFeasible grp a tw th bw bh c sm) = max 8 (Math_floor (tw * 0.06))"
  "f_insetY (buildFeasible grp a tw th bw bh c sm) = max 8 (Math_floor (th * 0.08))"
  unfolding buildFeasible_def Let_def by simp_all

lemma solveZoomSeries_single:
  "length xs = 1 \<Longrightarrow> solveZoomSeries e xs ys [g] tw th zMin = [requiredZoom g tw th zMin]"
  by (simp add: solveZoomSeries_def Let_def)

text \<open>
With a single anchor sample the optimizers and the zoom solver produce one keyframe,
  whose zoom is the required zoom of the sample: the floor is not applied to it.
\<close>

lemma keyframesFromAnchors_single:
  "\<exists>x y. keyframesFromAnchors e [a] bw bh c
     = [rawKeyframe (Math_floor (bh * 9 / 16)) bw bh (as_time a) x y
          (requiredZoom
             \<lparr>zg_w = f_groupW (buildFeasible (as_bounds a) (as_anchor a)
                        (Math_floor (bh * 9 / 16)) bh bw bh c
                        (det_x (as_anchor a) + det_w (as_anchor a) / 2,
                         det_y (as_anchor a) + det_h (as_anchor a) / 2)),
              zg_h = f_groupH (buildFeasible (as_bounds a) (as_anchor a)
                        (Math_floor (bh * 9 / 16)) bh bw bh c
                        (det_x (as_anchor a) + det_w (as_anchor a) / 2,
                         det_y (as_anchor a) + det_h (as_anchor a) / 2)),
              zg_insetX = f_insetX (buildFeasible (as_bounds a) (as_anchor a)
                        (Math_floor (bh * 9 / 16)) bh bw bh c
                        (det_x (as_anchor a) + det_w (as_anchor a) / 2,
                         det_y (as_anchor a) + det_h (as_anchor a) / 2)),
              zg_insetY = f_insetY (buildFeasible (as_bounds a) (as_anchor a)
                        (Math_floor (bh * 9 / 16)) bh bw bh c
                        (det_x (as_anchor a) + det_w (as_anchor a) / 2,
                         det_y (as_anchor a) + det_h (as_anchor a) / 2))\<rparr>
             (Math_floor (bh * 9 / 16)) bh (dynamicZMin e bw bh))]"
proof -
  have sm: "smoothAnchors e \<lparr>smoothedX = None, smoothedY = None\<rparr> [a]
      = [(det_x (as_anchor a) + det_w (as_anchor a) / 2,
          det_y (as_anchor a) + det_h (as_anchor a) / 2)]"
    by (simp add: applyTemporalSmoothing_def Let_def)
  have len: "length (globalOptimize1D t [d] L U w lv la it lr) = 1" for t d L U w lv la it lr
    by (simp add: globalOptimize1D_length)
  show ?thesis
    unfolding keyframesFromAnchors_def Let_def sm
    by (simp add: solveZoomSeries_single len) blast
qed

lemma postProcess_single:
  "postProcess e input c [k]
     = [scaleKeyframe (of_int (scaledTargetW (in_baseW input) (in_baseH input)))
          (of_int (in_baseW input)) (of_int (in_baseH input)) k]"
proof -
  have "easeSegmentEdges [k] s t d = [k]" for s t d
    by (simp add: easeSegmentEdges_def)
  then show ?thesis
    by (simp add: postProcess_def smoothKeyframes_def applyDeadzone_def applyPanLimits_def
        applyAccelLimits_def applyScaledCoords_def scaledTargetW_eq Let_def)
qed

text \<open>
A single raw keyframe passes through the post-processing unchanged and is then scaled.
\<close>

lemma computeCropMapPerson_single:
  assumes "buildTracks e snaps (of_int (in_baseW input)) (of_int (in_baseH input)) \<noteq> []"
    and "computeGlobalCropKeyframesFromTracksWithSpeechAndZoom e
          (buildTracks e snaps (of_int (in_baseW input)) (of_int (in_baseH input)))
          (buildSpeakerTurns (in_transcript input) (in_segStart input) (in_segEnd input))
          (of_int (in_baseW input)) (of_int (in_baseH input)) c = [k]"
  shows "computeCropMapPerson e (Inr snaps) input c
     = Inr (Some [Some (scaleKeyframe (of_int (scaledTargetW (in_baseW input) (in_baseH input)))
          (of_int (in_baseW input)) (of_int (in_baseH input)) k)])"
proof -
  have "snaps \<noteq> []"
    using assms(1) by (auto simp: buildTracks_def)
  then show ?thesis
    using assms
    by (simp add: computeCropMapPerson_def Let_def postProcess_single dedupeByTime_def
        compressCropMap_def)
qed

text \<open>
The sample run: one track, one anchor sample at 0.25 s.
\<close>

lemma buildTracks_snaps2:
  "buildTracks defaultEnv snaps2 1080 2340 = [\<lparr>snap_t = 0, snap_dets = []\<rparr>,
  \<lparr>snap_t = 1 / 4,
     snap_dets =
       [\<lparr>det_x = 440, det_y = 500, det_w = 200, det_h = 200,
           det_score = 9 / 10, det_id = Some 1, det_detectorType = None\<rparr>]\<rparr>]"
  by code_simp

lemma collectAnchors_snaps2:
  "collectAnchors (buildTracks defaultEnv snaps2 1080 2340) [] 1080 2340
     = [\<lparr>as_anchor = \<lparr>det_x = 440, det_y = 500, det_w = 200, det_h = 200,
           det_score = 9 / 10, det_id = Some 1, det_detectorType = None\<rparr>,
         as_bounds = \<lparr>g_groupW = 200, g_groupH = 200, g_minX = 440, g_maxX = 640,
           g_minY = 500, g_maxY = 700\<rparr>,
         as_time = 1 / 4\<rparr>]"
  unfolding buildTracks_snaps2
  by (simp add: collectAnchors_def anchorStep_def activeSpeakerAt_def selectAnchor_def
      chooseAnchor_def computeBounds_def boundsToGroup_def)

lemma dynamicZMin_tall: "dynamicZMin defaultEnv 1080 2340 = 329 / 270"
  by (simp add: dynamicZMin_def Math_floor_def Z_MIN_def defaultEnv_def env_number_def)

lemma requiredZoom_snaps2:
  "requiredZoom
     \<lparr>zg_w = clamp (640 + max 0 (c_margin workerConstraints) * 1316) 0 1080
             - clamp (440 - max 0 (c_margin workerConstraints) * 1316) 0 1080,
      zg_h = clamp (700 + max (2340 * 0.1) (200 * 0.6)) 0 2340
             - clamp (500 - max (2340 * 0.1) (max (2340 * 0.1) (200 * 0.6) * 0.6)) 0 2340,
      zg_insetX = max 8 (Math_floor (1316 * 0.06)),
      zg_insetY = max 8 (Math_floor (2340 * 0.08))\<rparr> 1316 2340 (329 / 270) = 1"
  by (simp add: requiredZoom_def workerConstraints_def clamp_def Math_floor_def)

lemma clamp_zero [simp]: "clamp v 0 0 = 0"
  by (simp add: clamp_def)

lemma raw_snaps2:
  "\<exists>x y. computeGlobalCropKeyframesFromTracksWithSpeechAndZoom defaultEnv
      (buildTracks defaultEnv snaps2 1080 2340) [] 1080 2340 workerConstraints
     = [rawKeyframe 1316 1080 2340 (1 / 4) x y 1]"
proof -
  have f: "Math_floor (2340 * 9 / 16) = 1316"
    by (simp add: Math_floor_def)
  from keyframesFromAnchors_single [of defaultEnv
      "\<lparr>as_anchor = \<lparr>det_x = 440, det_y = 500, det_w = 200, det_h = 200,
           det_score = 9 / 10, det_id = Some 1, det_detectorType = None\<rparr>,
         as_bounds = \<lparr>g_groupW = 200, g_groupH = 200, g_minX = 440, g_maxX = 640,
           g_minY = 500, g_maxY = 700\<rparr>,
         as_time = 1 / 4\<rparr>" 1080 2340 workerConstraints]
  show ?thesis
    unfolding computeGlobalCropKeyframesFromTracksWithSpeechAndZoom_def Let_def
      collectAnchors_snaps2 buildFeasible_group f dynamicZMin_tall
    using requiredZoom_snaps2 by simp
qed

text \<open>
  Claim C1 (the code departs from it). On a source narrower than 9:16, here 1080 by 2340,
  the zoom floor of the dynamic path is \<^verbatim>\<open>floor(2340 * 9 / 16) / 1080\<close>, that is
  1316 / 1080 = 329 / 270. A face of 200 by 200 tracked through two frames gives one
  sample whose group needs no zoom, and \<^verbatim>\<open>solveZoomSeries\<close> pushes 1 for the first
  sample without applying the floor. \<^verbatim>\<open>computeCropMapPerson\<close> returns the single
  keyframe below: inside the source, but with zoom 1, below the floor.
\<close>

theorem dynamic_first_zoom_below_floor:
  "computeCropMapPerson defaultEnv (Inr snaps2) (inputOf 1080 2340) workerConstraints
     = Inr (Some [Some \<lparr>kf_t = 1 / 4, kf_x = 0, kf_y = 0, kf_w = 1080, kf_h = 2340, kf_z = 1,
                         kf_xs = 0, kf_ys = 0\<rparr>])
   \<and> dynamicZMin defaultEnv (of_int (in_baseW (inputOf 1080 2340)))
        (of_int (in_baseH (inputOf 1080 2340))) = 329 / 270"
proof -
  let ?input = "inputOf 1080 2340"
  have dims: "real_of_int (in_baseW ?input) = 1080" "real_of_int (in_baseH ?input) = 2340"
    "in_transcript ?input = []" "scaledTargetW (in_baseW ?input) (in_baseH ?input) = 1080"
    by (simp_all add: inputOf_def scaledTargetW_def)
  have turns: "buildSpeakerTurns [] s t = []" for s t
    by (simp add: buildSpeakerTurns_def)
  obtain x y where raw: "computeGlobalCropKeyframesFromTracksWithSpeechAndZoom defaultEnv
      (buildTracks defaultEnv snaps2 1080 2340) [] 1080 2340 workerConstraints
     = [rawKeyframe 1316 1080 2340 (1 / 4) x y 1]"
    using raw_snaps2 by blast
  have ne: "buildTracks defaultEnv snaps2 1080 2340 \<noteq> []"
    by (simp add: buildTracks_snaps2)
  have "computeCropMapPerson defaultEnv (Inr snaps2) ?input workerConstraints
     = Inr (Some [Some (scaleKeyframe 1080 1080 2340 (rawKeyframe 1316 1080 2340 (1 / 4) x y 1))])"
    using computeCropMapPerson_single [of defaultEnv snaps2 ?input workerConstraints
        "rawKeyframe 1316 1080 2340 (1 / 4) x y 1"] ne raw
    by (simp add: dims turns)
  moreover have "scaleKeyframe 1080 1080 2340 (rawKeyframe 1316 1080 2340 (1 / 4) x y 1)
     = \<lparr>kf_t = 1 / 4, kf_x = 0, kf_y = 0, kf_w = 1080, kf_h = 2340, kf_z = 1,
        kf_xs = 0, kf_ys = 0\<rparr>"
    by (simp add: scaleKeyframe_def rawKeyframe_def Let_def Math_round_def)
  ultimately show ?thesis
    using dynamicZMin_tall by (simp add: dims)
qed

text \<open>
  What of the claim does hold on the dynamic path, for every source of positive
  dimensions: every keyframe returned lies inside the source and has a zoom of at least 1.
\<close>

lemma computeCropMapPerson_in_bounds:
  assumes "0 < in_baseW input" "0 < in_baseH input"
    and "computeCropMapPerson e detected input c = Inr (Some out)" and "Some k \<in> set out"
  shows "0 \<le> kf_x k \<and> 0 \<le> kf_y k \<and> kf_x k + kf_w k \<le> of_int (in_baseW input)
       \<and> kf_y k + kf_h k \<le> of_int (in_baseH input) \<and> 1 \<le> kf_z k"
proof -
  from computeCropMapPerson_elems [OF assms(3,4)] obtain k0
    where k0: "zBetween 1 (dynamicZMin e (of_int (in_baseW input)) (of_int (in_baseH input))) k0"
      and k: "k = scaleKeyframe (of_int (scaledTargetW (in_baseW input) (in_baseH input)))
                (of_int (in_baseW input)) (of_int (in_baseH input)) k0"
    by blast
  from k0 have "1 \<le> kf_z k0"
    by (simp add: zBetween_def)
  from scaleKeyframe_bounds [OF this assms(1,2)] this show ?thesis
    unfolding k by simp
qed

section \<open>The static crops: sampling windows and the 1920 by 1080 source\<close>

text \<open>
The sampling loop appends, window after window, the detections of the frames it gets.
\<close>

lemma frames_fold: "fold (\<lambda>frame all. all @ fr_detections frame) frames acc
    = acc @ concat (map fr_detections frames)"
  by (induction frames arbitrary: acc) simp_all

lemma sampleStep_appends:
  "sampleStep e detect d skip i acc = acc @ windowDetections e detect d skip i"
  by (simp add: sampleStep_def windowDetections_def frames_fold
      split: prod.splits sum.splits)

lemma sampling_fold:
  "fold (sampleStep e detect d skip) is acc
     = acc @ concat (map (windowDetections e detect d skip) is)"
  by (induction "is" arbitrary: acc) (simp_all add: sampleStep_appends)

lemma sampling_pool:
  "fold (sampleStep e detect d skip) [0..<nat \<lceil>numSamples d skip\<rceil>] []
     = detectionPool e detect d skip"
  by (simp add: sampling_fold detectionPool_def)

lemma numSamples_range: "3 \<le> numSamples d skip \<and> numSamples d skip \<le> 6"
  by (simp add: numSamples_def split: prod.splits)

text \<open>
A window whose sampling throws adds nothing to the pool.
\<close>

lemma failed_window_adds_nothing:
  assumes "sampleWindow d skip i = (s, w)" and "detect s w (DEFAULT_SAMPLE_FPS e) = Inl err"
  shows "windowDetections e detect d skip i = []"
  using assms by (simp add: windowDetections_def)

text \<open>
  Claim C8. In \<^verbatim>\<open>computeGlobalStaticCrop\<close>, once the detector is loaded, the
  detections the sampling loop ends with are those of every window that did not fail, in
  the order of the windows: a window whose sampling throws contributes nothing and the
  loop goes on. The function returns a value on every outcome of the windows, and the
  value is \<^verbatim>\<open>null\<close> exactly when fewer than 50 detections were collected; otherwise it is
  a crop.
\<close>

theorem computeGlobalStaticCrop_pool:
  "fold (sampleStep e detect d skip) [0..<nat \<lceil>numSamples d skip\<rceil>] []
     = detectionPool e detect d skip
   \<and> (\<exists>r. computeGlobalStaticCrop e None detect d bw bh skip = Inr r
          \<and> ((r = None) = (length (detectionPool e detect d skip) < 50)))"
  by (simp add: computeGlobalStaticCrop_def Let_def sampling_pool)

text \<open>
A video of 100 seconds is sampled in five windows, starting at 10, 26.25, 42.5, 58.75 and 75 s.
\<close>

lemma numSamples_100: "numSamples 100 None = 5"
  by (simp add: numSamples_def usableRange_def Let_def Math_floor_def)

lemma windows_100: "map (\<lambda>i. fst (sampleWindow 100 None i)) [0..<5] = [10, 26.25, 42.5, 58.75, 75]"
  by (simp add: sampleWindow_def usableRange_def Let_def numSamples_100 upt_rec)

lemma pool_one_failing:
  "detectionPool defaultEnv detectOneFailing 100 None = replicate 60 face1600"
  by (simp add: detectionPool_def numSamples_100 windowDetections_def sampleWindow_def
      usableRange_def Let_def detectOneFailing_def upt_rec eval_nat_numeral)

text \<open>
The crop of \<^verbatim>\<open>calculateCrop\<close> lies inside the frame horizontally.
\<close>

lemma calculateCrop_inside:
  assumes "0 \<le> videoWidth"
  shows "0 \<le> ci_cropX (calculateCrop videoWidth videoHeight ds)
       \<and> ci_cropX (calculateCrop videoWidth videoHeight ds)
           + ci_cropWidth (calculateCrop videoWidth videoHeight ds) \<le> videoWidth"
proof -
  have half: "of_int \<lfloor>d / 2\<rfloor> \<le> d" if "0 \<le> d" for d :: real
  proof -
    have "of_int \<lfloor>d / 2\<rfloor> \<le> d / 2" by (rule of_int_floor_le)
    with that show ?thesis by simp
  qed
  show ?thesis
    using assms half [of "videoWidth - Math_round (videoHeight * 9 / 16)"]
    by (auto simp add: calculateCrop_def Let_def Math_floor_def max_def)
qed

lemma calculateCrop_width_1080:
  "ci_cropWidth (calculateCrop 1920 1080 ds) = 608"
  by (simp add: calculateCrop_def Let_def Math_round_def)

lemma staticTargetW_1920_1080: "staticTargetW 1920 1080 = 606"
  by (simp add: staticTargetW_def Let_def Math_floor_def)

lemma staticKeyframe_1920_1080:
  "kf_w (staticKeyframe cs t 1920 1080) = 606 \<and> 0 \<le> kf_x (staticKeyframe cs t 1920 1080)
   \<and> kf_x (staticKeyframe cs t 1920 1080) \<le> 1314"
  by (simp add: staticKeyframe_def Let_def staticTargetW_1920_1080)

lemma computeGlobalStaticCrop_Some:
  assumes "computeGlobalStaticCrop e init detect d bw bh skip = Inr (Some g)"
  shows "gc_cropX g = ci_cropX (calculateCrop bw bh (detectionPool e detect d skip))
       \<and> gc_cropW g
           = Math_floor (ci_cropWidth (calculateCrop bw bh (detectionPool e detect d skip)) / 2) * 2"
  using assms
  by (auto simp add: computeGlobalStaticCrop_def Let_def sampling_pool
      split: option.splits if_splits)

lemma computeCropMapPersonStatic_keyframe:
  assumes "computeCropMapPersonStatic detected input c None = Inr (Some ks)" and "k \<in> set ks"
  shows "\<exists>cs. k = staticKeyframe cs (in_segStart input) (of_int (in_baseW input))
                  (of_int (in_baseH input))"
  using assms
  by (auto simp add: computeCropMapPersonStatic_def Let_def split: sum.splits if_splits)

lemma crop_pool_1600:
  "calculateCrop 1920 1080 (replicate 60 face1600)
     = \<lparr>ci_cropX = 1078, ci_cropY = 0, ci_cropWidth = 608, ci_cropHeight = 1080,
        ci_videoWidth = 1920, ci_videoHeight = 1080\<rparr>"
  by code_simp

lemma global_crop_1600:
  "computeGlobalStaticCrop defaultEnv None detectOneFailing 100 1920 1080 None
     = Inr (Some \<lparr>gc_cropX = 1078, gc_cropY = 0, gc_cropW = 608, gc_cropH = 1080, gc_zMin = 1\<rparr>)"
  by (simp add: computeGlobalStaticCrop_def Let_def sampling_pool pool_one_failing
      crop_pool_1600 Math_floor_def)

lemma segment_crop_1600:
  "computeCropMapPersonStatic (Inr snaps1600) ((inputOf 1280 720)\<lparr>in_baseW := 1920, in_baseH := 1080\<rparr>)
       workerConstraints None
     = Inr (Some [\<lparr>kf_t = 0, kf_x = 1085, kf_y = 0, kf_w = 606, kf_h = 1080, kf_z = 1,
                    kf_xs = 0, kf_ys = 0\<rparr>])"
  by (simp add: computeCropMapPersonStatic_def Let_def snaps1600_def anchorCenters_def
      chooseAnchor_def face_def staticKeyframe_def staticTargetW_1920_1080 median_def
      Math_sign_def Math_round_def inputOf_def)

text \<open>
  Claim C9. On a 1920 by 1080 source the target width, \<^verbatim>\<open>floor(1080 * 9 / 16)\<close> = 607
  made even, is 606. For every pool of detections the crop of \<^verbatim>\<open>calculateCrop\<close>, and
  with it the crop \<^verbatim>\<open>computeGlobalStaticCrop\<close> returns, starts at an x between 0 and
  1920 - 606 and ends, with its own width, at most at 1920; and for every timeline the
  keyframe of \<^verbatim>\<open>computeCropMapPersonStatic\<close> has width 606 and an x between 0 and
  1920 - 606. (The width \<^verbatim>\<open>calculateCrop\<close> itself works with on this source is
  \<^verbatim>\<open>Math.round(607.5)\<close> = 608, so its x stays at or below 1312.)
\<close>

theorem static_crop_1920_1080:
  "Math_floor (1080 * 9 / 16) = 607 \<and> staticTargetW 1920 1080 = 606
   \<and> 0 \<le> ci_cropX (calculateCrop 1920 1080 pool)
   \<and> ci_cropX (calculateCrop 1920 1080 pool) \<le> 1920 - 606
   \<and> ci_cropX (calculateCrop 1920 1080 pool) + ci_cropWidth (calculateCrop 1920 1080 pool) \<le> 1920
   \<and> (computeGlobalStaticCrop e init detect d 1920 1080 skip = Inr (Some g)
        \<longrightarrow> 0 \<le> gc_cropX g \<and> gc_cropX g \<le> 1920 - 606 \<and> gc_cropX g + gc_cropW g \<le> 1920)
   \<and> (computeCropMapPersonStatic detected (input\<lparr>in_baseW := 1920, in_baseH := 1080\<rparr>) c None
          = Inr (Some ks)
        \<longrightarrow> (\<forall>k\<in>set ks. kf_w k = 606 \<and> 0 \<le> kf_x k \<and> kf_x k \<le> 1920 - 606
                          \<and> kf_x k + kf_w k \<le> 1920))"
proof -
  have fl: "Math_floor (1080 * 9 / 16) = 607"
    by (simp add: Math_floor_def)
  have crop: "0 \<le> ci_cropX (calculateCrop 1920 1080 p)
      \<and> ci_cropX (calculateCrop 1920 1080 p) \<le> 1920 - 606
      \<and> ci_cropX (calculateCrop 1920 1080 p) + ci_cropWidth (calculateCrop 1920 1080 p) \<le> 1920"
    for p
    using calculateCrop_inside [of 1920 1080 p] calculateCrop_width_1080 [of p] by simp
  have glob: "0 \<le> gc_cropX g \<and> gc_cropX g \<le> 1920 - 606 \<and> gc_cropX g + gc_cropW g \<le> 1920"
    if "computeGlobalStaticCrop e init detect d 1920 1080 skip = Inr (Some g)"
    using computeGlobalStaticCrop_Some [OF that] crop [of "detectionPool e detect d skip"]
      calculateCrop_width_1080 [of "detectionPool e detect d skip"]
    by (simp add: Math_floor_def)
  have seg: "kf_w k = 606 \<and> 0 \<le> kf_x k \<and> kf_x k \<le> 1920 - 606 \<and> kf_x k + kf_w k \<le> 1920"
    if "computeCropMapPersonStatic detected (input\<lparr>in_baseW := 1920, in_baseH := 1080\<rparr>) c None
          = Inr (Some ks)" "k \<in> set ks" for k
  proof -
    from computeCropMapPersonStatic_keyframe [OF that] obtain cs
      where "k = staticKeyframe cs (in_segStart input) 1920 1080"
      by auto
    with staticKeyframe_1920_1080 [of cs "in_segStart input"] show ?thesis
      by simp
  qed
  show ?thesis
    using fl staticTargetW_1920_1080 crop [of pool] glob seg by blast
qed

text \<open>
A pool of 60 detections centred at x = 1600 gives the global crop x = 1078 (the shift
  from the middle of the frame is limited to 22 percent of the width); a segment with one
  detection centred at x = 1600 gives the keyframe x = 1085, width 606.
\<close>

theorem static_crop_1920_1080_witness:
  "computeGlobalStaticCrop defaultEnv None detectOneFailing 100 1920 1080 None
     = Inr (Some \<lparr>gc_cropX = 1078, gc_cropY = 0, gc_cropW = 608, gc_cropH = 1080, gc_zMin = 1\<rparr>)
   \<and> (0::real) \<le> 1078 \<and> (1078::real) \<le> 1920 - 606 \<and> (1078::real) + 608 \<le> 1920
   \<and> computeCropMapPersonStatic (Inr snaps1600)
        ((inputOf 1280 720)\<lparr>in_baseW := 1920, in_baseH := 1080\<rparr>) workerConstraints None
       = Inr (Some [\<lparr>kf_t = 0, kf_x = 1085, kf_y = 0, kf_w = 606, kf_h = 1080, kf_z = 1,
                      kf_xs = 0, kf_ys = 0\<rparr>])
   \<and> (1085::real) \<le> 1920 - 606"
  using static_crop_1920_1080 [of "replicate 60 face1600" defaultEnv None detectOneFailing 100 None
      "\<lparr>gc_cropX = 1078, gc_cropY = 0, gc_cropW = 608, gc_cropH = 1080, gc_zMin = 1\<rparr>"
      "Inr snaps1600" "inputOf 1280 720" workerConstraints
      "[\<lparr>kf_t = 0, kf_x = 1085, kf_y = 0, kf_w = 606, kf_h = 1080, kf_z = 1,
          kf_xs = 0, kf_ys = 0\<rparr>]"]
    global_crop_1600 segment_crop_1600
  by simp

text \<open>
A video of 100 seconds whose second window fails: the four other windows give 60
  detections and the function returns a crop.
\<close>

theorem computeGlobalStaticCrop_pool_witness:
  "windowDetections defaultEnv detectOneFailing 100 None 1 = []
   \<and> length (detectionPool defaultEnv detectOneFailing 100 None) = 60
   \<and> (\<exists>g. computeGlobalStaticCrop defaultEnv None detectOneFailing 100 1920 1080 None
             = Inr (Some g))"
proof -
  have w: "windowDetections defaultEnv detectOneFailing 100 None 1 = []"
    by (simp add: windowDetections_def sampleWindow_def usableRange_def Let_def numSamples_100
        detectOneFailing_def)
  have n: "length (detectionPool defaultEnv detectOneFailing 100 None) = 60"
    by (simp add: pool_one_failing)
  from computeGlobalStaticCrop_pool [of defaultEnv detectOneFailing 100 None 1920 1080]
  obtain r where "computeGlobalStaticCrop defaultEnv None detectOneFailing 100 1920 1080 None = Inr r"
    and "(r = None) = (length (detectionPool defaultEnv detectOneFailing 100 None) < 50)"
    by blast
  with n have "\<exists>g. computeGlobalStaticCrop defaultEnv None detectOneFailing 100 1920 1080 None
             = Inr (Some g)"
    by (cases r) simp_all
  with w n show ?thesis
    by blast
qed

section \<open>The filter builder: what is validated, and the value at the keyframe times\<close>

lemma fullFilter_sixthOutside:
  "fullFilter 1920 1080 sixthOutside
     = ''crop=''
        @ [CHR 0x27] @ ''606''
        @ [CHR 0x27] @ '':''
        @ [CHR 0x27] @ ''1080''
        @ [CHR 0x27] @ '':''
        @ [CHR 0x27] @ ''lt(t,0.000)*656+between(t,0.000,1.000)*(656+(0.000000)*(t-0.000))+betw''
        @ ''een(t,1.000,2.000)*(656+(0.000000)*(t-1.000))+between(t,2.000,3.000)*(''
        @ ''656+(0.000000)*(t-2.000))+between(t,3.000,4.000)*(656+(0.000000)*(t-3.''
        @ ''000))+between(t,4.000,5.000)*(656+(844.000000)*(t-4.000))+gte(t,5.000)''
        @ ''*1500''
        @ [CHR 0x27] @ '':''
        @ [CHR 0x27] @ ''0''
        @ [CHR 0x27] @ '',scale=606:1080:eval=frame,format=yuv420p''"
  by code_simp

lemma first_five_valid: "\<not> list_ex (invalidCrop 1920 1080) (take 5 sixthOutside)"
  by code_simp

lemma fullFilter_steady2:
  "fullFilter 1920 1080 steady2
     = ''crop=''
        @ [CHR 0x27] @ ''606''
        @ [CHR 0x27] @ '':''
        @ [CHR 0x27] @ ''1080''
        @ [CHR 0x27] @ '':''
        @ [CHR 0x27] @ ''656''
        @ [CHR 0x27] @ '':''
        @ [CHR 0x27] @ ''0''
        @ [CHR 0x27] @ '',scale=606:1080:eval=frame,format=yuv420p''"
  by code_simp

lemma steady2_valid: "\<not> list_ex (invalidCrop 1920 1080) (take 5 steady2)"
  by code_simp

lemma list_ex_take:
  "list_ex P (take n xs) \<longleftrightarrow> (\<exists>i<length xs. i < n \<and> P (xs ! i))"
proof
  assume "list_ex P (take n xs)"
  then obtain x where x: "x \<in> set (take n xs)" "P x"
    unfolding list_ex_iff by blast
  then obtain i where i: "i < length (take n xs)" "take n xs ! i = x"
    unfolding in_set_conv_nth by blast
  then have "i < length xs" "i < n" "P (xs ! i)"
    using x(2) by auto
  then show "\<exists>i<length xs. i < n \<and> P (xs ! i)"
    by blast
next
  assume "\<exists>i<length xs. i < n \<and> P (xs ! i)"
  then obtain i where i: "i < length xs" "i < n" "P (xs ! i)"
    by blast
  then have "take n xs ! i \<in> set (take n xs)"
    by (intro nth_mem) simp
  with i show "list_ex P (take n xs)"
    unfolding list_ex_iff by auto
qed

text \<open>
  Claim C2, as the code has it. \<^verbatim>\<open>buildFFmpegFilter\<close> checks the first five keyframes
  only (\<^verbatim>\<open>i < Math.min(5, kf.length)\<close>): when one of them has crop dimensions beyond
  the source or a crop that leaves the source, the builder throws and emits nothing. When
  it emits, none of the first five keyframes is invalid and the text is the filter built
  from the keyframes as they are, nothing clamped.
\<close>

theorem buildFFmpegFilter_checks_first_five:
  "(\<forall>i<length kf. i < 5 \<longrightarrow> invalidCrop (of_int baseW) (of_int baseH) (kf ! i)
        \<longrightarrow> buildFFmpegFilter baseW baseH kf = Inl InvalidCropParameters)
   \<and> (\<forall>f. buildFFmpegFilter baseW baseH kf = Inr f
        \<longrightarrow> f = fullFilter baseW baseH kf \<and> length f \<le> 65536
            \<and> (\<forall>i<length kf. i < 5 \<longrightarrow> \<not> invalidCrop (of_int baseW) (of_int baseH) (kf ! i)))"
  unfolding buildFFmpegFilter_def Let_def list_ex_take
  by (auto split: if_splits)

theorem buildFFmpegFilter_checks_first_five_witness:
  "invalidCrop 1920 1080 (thirdOutside ! 2)
   \<and> buildFFmpegFilter 1920 1080 thirdOutside = Inl InvalidCropParameters
   \<and> buildFFmpegFilter 1920 1080 steady2
       = Inr (''crop=''
        @ [CHR 0x27] @ ''606''
        @ [CHR 0x27] @ '':''
        @ [CHR 0x27] @ ''1080''
        @ [CHR 0x27] @ '':''
        @ [CHR 0x27] @ ''656''
        @ [CHR 0x27] @ '':''
        @ [CHR 0x27] @ ''0''
        @ [CHR 0x27] @ '',scale=606:1080:eval=frame,format=yuv420p'')
   \<and> \<not> invalidCrop 1920 1080 (steady2 ! 1)"
proof -
  have bad: "invalidCrop (of_int 1920) (of_int 1080) (thirdOutside ! 2)"
    by code_simp
  have len: "(2::nat) < length thirdOutside" "(1::nat) < length steady2"
    by (simp_all add: thirdOutside_def steady2_def)
  have ok: "buildFFmpegFilter 1920 1080 steady2
       = Inr (''crop=''
        @ [CHR 0x27] @ ''606''
        @ [CHR 0x27] @ '':''
        @ [CHR 0x27] @ ''1080''
        @ [CHR 0x27] @ '':''
        @ [CHR 0x27] @ ''656''
        @ [CHR 0x27] @ '':''
        @ [CHR 0x27] @ ''0''
        @ [CHR 0x27] @ '',scale=606:1080:eval=frame,format=yuv420p'')"
    unfolding buildFFmpegFilter_def Let_def fullFilter_steady2 using steady2_valid by simp
  from buildFFmpegFilter_checks_first_five [of thirdOutside 1920 1080] bad len(1)
  have "buildFFmpegFilter 1920 1080 thirdOutside = Inl InvalidCropParameters"
    by simp
  moreover from buildFFmpegFilter_checks_first_five [of steady2 1920 1080] ok len(2)
  have "\<not> invalidCrop (of_int 1920) (of_int 1080) (steady2 ! 1)"
    by simp
  ultimately show ?thesis
    using bad ok by simp
qed

text \<open>
  Claim C2 as it is stated fails: the sixth keyframe of \<open>sixthOutside\<close> has its crop
  from x = 1500 to 2106 on a source 1920 wide, and the builder emits the filter, with
  1500 in it.
\<close>

theorem buildFFmpegFilter_sixth_unchecked:
  "invalidCrop 1920 1080 (sixthOutside ! 5)
   \<and> kf_x (sixthOutside ! 5) = 1500
   \<and> buildFFmpegFilter 1920 1080 sixthOutside
       = Inr (''crop=''
        @ [CHR 0x27] @ ''606''
        @ [CHR 0x27] @ '':''
        @ [CHR 0x27] @ ''1080''
        @ [CHR 0x27] @ '':''
        @ [CHR 0x27] @ ''lt(t,0.000)*656+between(t,0.000,1.000)*(656+(0.000000)*(t-0.000))+betw''
        @ ''een(t,1.000,2.000)*(656+(0.000000)*(t-1.000))+between(t,2.000,3.000)*(''
        @ ''656+(0.000000)*(t-2.000))+between(t,3.000,4.000)*(656+(0.000000)*(t-3.''
        @ ''000))+between(t,4.000,5.000)*(656+(844.000000)*(t-4.000))+gte(t,5.000)''
        @ ''*1500''
        @ [CHR 0x27] @ '':''
        @ [CHR 0x27] @ ''0''
        @ [CHR 0x27] @ '',scale=606:1080:eval=frame,format=yuv420p'')"
proof -
  have "invalidCrop 1920 1080 (sixthOutside ! 5)" "kf_x (sixthOutside ! 5) = 1500"
    by code_simp+
  moreover have "buildFFmpegFilter 1920 1080 sixthOutside
       = Inr (''crop=''
        @ [CHR 0x27] @ ''606''
        @ [CHR 0x27] @ '':''
        @ [CHR 0x27] @ ''1080''
        @ [CHR 0x27] @ '':''
        @ [CHR 0x27] @ ''lt(t,0.000)*656+between(t,0.000,1.000)*(656+(0.000000)*(t-0.000))+betw''
        @ ''een(t,1.000,2.000)*(656+(0.000000)*(t-1.000))+between(t,2.000,3.000)*(''
        @ ''656+(0.000000)*(t-2.000))+between(t,3.000,4.000)*(656+(0.000000)*(t-3.''
        @ ''000))+between(t,4.000,5.000)*(656+(844.000000)*(t-4.000))+gte(t,5.000)''
        @ ''*1500''
        @ [CHR 0x27] @ '':''
        @ [CHR 0x27] @ ''0''
        @ [CHR 0x27] @ '',scale=606:1080:eval=frame,format=yuv420p'')"
    unfolding buildFFmpegFilter_def Let_def fullFilter_sixthOutside using first_five_valid by simp
  ultimately show ?thesis
    by blast
qed

text \<open>
  Claim C3 (the code departs from it). Three keyframes at 0, 1 and 2 s with x = 0, 100,
  200 and a crop width of 606, 505, 404. The pieces \<^verbatim>\<open>between(t,0,1)\<close> and
  \<^verbatim>\<open>between(t,1,2)\<close> are both 1 at t = 1, and \<^verbatim>\<open>between(t,1,2)\<close> and
  \<^verbatim>\<open>gte(t,2)\<close> are both 1 at t = 2: there the expression for x has the values 200 and
  400 where the keyframes say 100 and 200, and the expression for the width 1010 and 808
  where they say 505 and 404. Before, between and after the keyframe times it interpolates.
\<close>

theorem piecewise_doubled_at_keyframe_times:
  "exprText (buildPiecewiseExpr panning3 KeyX)
     = ''lt(t,0.000)*0+between(t,0.000,1.000)*(0+(100.000000)*(t-0.000))''
        @ ''+between(t,1.000,2.000)*(100+(100.000000)*(t-1.000))+gte(t,2.000)*200''
   \<and> map kf_t panning3 = [0, 1, 2] \<and> map kf_x panning3 = [0, 100, 200]
   \<and> map (exprValue (buildPiecewiseExpr panning3 KeyX)) [- 1, 0, 0.5, 1, 1.5, 2, 3]
       = [0, 0, 50, 200, 150, 400, 200]
   \<and> exprText (buildCropDimensionExpr panning3 606)
     = ''lt(t,0.000)*606+between(t,0.000,1.000)*(606+(-101.000000)*(t-0.000))''
        @ ''+between(t,1.000,2.000)*(505+(-101.000000)*(t-1.000))+gte(t,2.000)*404''
   \<and> map (\<lambda>k. Math_round (606 / kf_z k)) panning3 = [606, 505, 404]
   \<and> map (exprValue (buildCropDimensionExpr panning3 606)) [- 1, 0, 0.5, 1, 1.5, 2, 3]
       = [606, 606, 555.5, 1010, 454.5, 808, 404]"
  by code_simp

end
